(* ===== verification/HNZ_Prelude.thy ===== *)
theory HNZ_Prelude
  imports Main "HOL-Library.Word" "HOL-Library.Signed_Division"
begin

unbundle bit_operations_syntax

text \<open>
  Shared vocabulary of the development: bytes, the conversions between the C++ integer
  types, results that may be a C++ error, and the pieces of the C++ standard library the
  plugin calls on strings (\<open>std::to_string\<close>, \<open>std::stoi\<close>, \<open>std::stoul\<close>, stream output of a
  byte in hexadecimal) and on ordered maps and sets.  The generic lemmas about them that
  the component theories share are here too.
\<close>

section \<open>Fact collections\<close>

named_theorems frame_simps \<open>what an operation leaves unchanged, and the fields it sets\<close>
named_theorems link_simps \<open>equations of the link layer of one path\<close>

section \<open>Bytes and C++ integers\<close>

text \<open>
  An \<open>unsigned char\<close> is an 8-bit word.  The wider integers are values of type \<open>int\<close>; a
  conversion between two C++ integer types, and an unsigned operation that wraps, is
  written with one of the functions below.
\<close>

type_synonym byte = "8 word"

definition u8 :: "int \<Rightarrow> byte" where
  "u8 x = word_of_int x"

definition u32 :: "int \<Rightarrow> int" where
  "u32 x = x mod 2 ^ 32"

definition s32 :: "int \<Rightarrow> int" where
  "s32 x = (x + 2 ^ 31) mod 2 ^ 32 - 2 ^ 31"

definition u64 :: "int \<Rightarrow> int" where
  "u64 x = x mod 2 ^ 64"

definition s64 :: "int \<Rightarrow> int" where
  "s64 x = (x + 2 ^ 63) mod 2 ^ 64 - 2 ^ 63"

lemma u32_id [simp]: "0 \<le> x \<Longrightarrow> x < 2 ^ 32 \<Longrightarrow> u32 x = x"
  by (simp add: u32_def)

lemma u64_id [simp]: "0 \<le> x \<Longrightarrow> x < 2 ^ 64 \<Longrightarrow> u64 x = x"
  by (simp add: u64_def)

lemma s32_id [simp]: "- (2 ^ 31) \<le> x \<Longrightarrow> x < 2 ^ 31 \<Longrightarrow> s32 x = x"
  by (simp add: s32_def)

lemma s64_id [simp]: "- (2 ^ 63) \<le> x \<Longrightarrow> x < 2 ^ 63 \<Longrightarrow> s64 x = x"
  by (simp add: s64_def)

lemma u32_range: "0 \<le> u32 x" "u32 x < 2 ^ 32"
  by (simp_all add: u32_def)

lemma u64_range: "0 \<le> u64 x" "u64 x < 2 ^ 64"
  by (simp_all add: u64_def)

lemma s32_range: "- (2 ^ 31) \<le> s32 x" "s32 x < 2 ^ 31"
proof -
  have "0 \<le> (x + 2 ^ 31) mod 2 ^ 32" and "(x + 2 ^ 31) mod 2 ^ 32 < (2 ^ 32 :: int)"
    by (rule pos_mod_sign, simp, rule pos_mod_bound, simp)
  then show "- (2 ^ 31) \<le> s32 x" and "s32 x < 2 ^ 31" by (simp_all add: s32_def)
qed

lemma uint_u8: "uint (u8 x) = x mod 256"
  by (simp add: u8_def unsigned_of_int take_bit_eq_mod)

lemma u8_uint [simp]: "u8 (uint b) = b"
  by (simp add: u8_def)

lemma byte_range: "0 \<le> uint (b :: byte)" "uint b < 256"
  using uint_lt2p [of b] by simp_all

lemma byte_eq_iff: "(a :: byte) = b \<longleftrightarrow> uint a = uint b"
  by (rule word_uint_eq_iff)

text \<open>The C++ operators \<open>>>\<close> and \<open>&\<close> with a mask, read as division and remainder.\<close>

lemma and_mask_int:
  fixes x :: int
  shows "x AND 1 = x mod 2" and "x AND 3 = x mod 4" and "x AND 7 = x mod 8"
    and "x AND 0x1F = x mod 32" and "x AND 0x7F = x mod 128" and "x AND 0xFF = x mod 256"
proof -
  have m: "x AND (2 ^ n - 1) = x mod 2 ^ n" for n
    by (simp add: take_bit_eq_mod [symmetric] take_bit_eq_mask mask_eq_exp_minus_1)
  show "x AND 1 = x mod 2" using m [of 1] by simp
  show "x AND 3 = x mod 4" using m [of 2] by simp
  show "x AND 7 = x mod 8" using m [of 3] by simp
  show "x AND 0x1F = x mod 32" using m [of 5] by simp
  show "x AND 0x7F = x mod 128" using m [of 7] by simp
  show "x AND 0xFF = x mod 256" using m [of 8] by simp
qed

lemma shr_int: "drop_bit n (x :: int) = x div 2 ^ n"
  by (simp add: drop_bit_eq_div)

lemma shl_int: "push_bit n (x :: int) = x * 2 ^ n"
  by (simp add: push_bit_eq_mult)

lemma smod_smod_8: "((a smod 8) + 8) smod 8 = (a :: int) mod 8"
proof -
  have pos: "x smod 8 = x mod 8" if "0 \<le> x" for x :: int
    using that by (cases "x = 0") (simp_all add: signed_modulo_int_def)
  have neg: "x smod 8 = - ((- x) mod 8)" if "x < 0" for x :: int
    using that by (simp add: signed_modulo_int_def)
  show ?thesis
  proof (cases "0 \<le> a")
    case True
    then show ?thesis by (simp add: pos)
  next
    case False
    then have a: "a smod 8 = - ((- a) mod 8)" by (simp add: neg)
    have "0 \<le> (- a) mod 8" "(- a) mod 8 < 8" by simp_all
    then have "((a smod 8) + 8) smod 8 = (8 - (- a) mod 8) mod 8" by (simp add: a pos)
    also have "\<dots> = (8 - (- a)) mod 8" by (rule mod_diff_right_eq)
    also have "\<dots> = a mod 8" by simp
    finally show ?thesis .
  qed
qed

section \<open>Results\<close>

text \<open>
  What an operation does when it does not return normally: it throws one of the two
  standard exceptions of \<open>stoi\<close>, \<open>stoul\<close> and \<open>at\<close>; it reads an array or a vector
  outside its bounds or follows a null pointer, which C++ leaves undefined; or it is caught
  in a loop that never ends.
\<close>

datatype cpp_error =
  Invalid_argument | Out_of_range | Exception | Out_of_bounds | Null_deref | No_return

type_synonym 'a res = "cpp_error + 'a"

fun ebind :: "'a res \<Rightarrow> ('a \<Rightarrow> 'b res) \<Rightarrow> 'b res" where
  "ebind (Inl e) f = Inl e"
| "ebind (Inr x) f = f x"

lemma ebind_Inr_conv: "ebind r f = Inr y \<longleftrightarrow> (\<exists>x. r = Inr x \<and> f x = Inr y)"
  by (cases r) auto

lemma ebind_cong [fundef_cong]:
  "r = r' \<Longrightarrow> (\<And>x. r' = Inr x \<Longrightarrow> f x = g x) \<Longrightarrow> ebind r f = ebind r' g"
  by (cases r') auto

text \<open>A read \<open>v[i]\<close> of a vector or array: undefined outside its bounds.\<close>

definition rd :: "'a list \<Rightarrow> nat \<Rightarrow> 'a res" where
  "rd xs i = (if i < length xs then Inr (xs ! i) else Inl Out_of_bounds)"

lemma rd_simps [simp]:
  "rd [] i = Inl Out_of_bounds"
  "rd (x # xs) 0 = Inr x"
  "rd (x # xs) (Suc n) = rd xs n"
  "rd (x # xs) 1 = rd xs 0"
  "rd (x # xs) (numeral k) = rd xs (pred_numeral k)"
  by (simp_all add: rd_def numeral_eq_Suc)

lemma rd_Inr: "i < length xs \<Longrightarrow> rd xs i = Inr (xs ! i)"
  by (simp add: rd_def)

text \<open>A loop that folds a step over a list and stops at the first error.\<close>

fun efold :: "('a \<Rightarrow> 's \<Rightarrow> 's res) \<Rightarrow> 'a list \<Rightarrow> 's \<Rightarrow> 's res" where
  "efold f [] s = Inr s"
| "efold f (x # xs) s = ebind (f x s) (efold f xs)"

lemma efold_append: "efold f (xs @ ys) s = ebind (efold f xs s) (efold f ys)"
proof (induction xs arbitrary: s)
  case (Cons x xs)
  then show ?case by (cases "f x s") simp_all
qed simp

lemma efold_inv:
  assumes "efold f xs s = Inr t" and "P s"
    and "\<And>x s t. x \<in> set xs \<Longrightarrow> P s \<Longrightarrow> f x s = Inr t \<Longrightarrow> P t"
  shows "P t"
  using assms
proof (induction xs arbitrary: s)
  case (Cons x xs)
  from Cons.prems(1) obtain u where u: "f x s = Inr u" "efold f xs u = Inr t"
    by (auto simp: ebind_Inr_conv)
  from u(1) Cons.prems(2) Cons.prems(3) [of x s u] have "P u" by simp
  from u(2) this show ?case
  proof (rule Cons.IH)
    show "P t'" if "y \<in> set xs" "P s'" "f y s' = Inr t'" for y s' t'
      using that Cons.prems(3) [of y s' t'] by simp
  qed
qed simp

lemma efold_total:
  assumes "P s" and "\<And>x s. x \<in> set xs \<Longrightarrow> P s \<Longrightarrow> \<exists>t. f x s = Inr t \<and> P t"
  shows "\<exists>t. efold f xs s = Inr t \<and> P t"
  using assms
proof (induction xs arbitrary: s)
  case (Cons x xs)
  from Cons.prems obtain u where u: "f x s = Inr u" "P u" by fastforce
  from u(2) Cons.prems(2) have "\<exists>t. efold f xs u = Inr t \<and> P t" by (intro Cons.IH) auto
  with u(1) show ?case by simp
qed simp

lemma efold_fold: "efold (\<lambda>x s. Inr (f x s)) xs s = Inr (fold f xs s)"
  by (induction xs arbitrary: s) simp_all

section \<open>Simulations\<close>

text \<open>
  Steps that may fail, and their specification on abstract states: on good states and valid events the
  steps succeed, stay good, and do what the specification says.  Then so do runs.
\<close>

locale simulation =
  fixes step :: "'e \<Rightarrow> 's \<Rightarrow> 's res" and spec :: "'e \<Rightarrow> 'a \<Rightarrow> 'a" and abst :: "'s \<Rightarrow> 'a"
    and good :: "'s \<Rightarrow> bool" and valid :: "'e \<Rightarrow> bool"
  assumes simulates: "good s \<Longrightarrow> valid e \<Longrightarrow> \<exists>t. step e s = Inr t \<and> good t \<and> abst t = spec e (abst s)"
begin

lemma run:
  assumes "good s" and "\<forall>e \<in> set es. valid e"
  shows "\<exists>t. efold step es s = Inr t \<and> abst t = fold spec es (abst s) \<and> good t"
  using assms
proof (induction es arbitrary: s)
  case (Cons e es)
  obtain u where "step e s = Inr u" "good u" "abst u = spec e (abst s)"
    using simulates [OF Cons.prems(1), of e] Cons.prems(2) by auto
  with Cons.IH [of u] Cons.prems(2) show ?case by simp
qed simp

end

end
