(* ===== verification/HNZ_Std.thy ===== *)
theory HNZ_Std
  imports HNZ_Prelude
begin

text \<open>
  The parts of the C and C++ standard libraries that the plugin's decisions depend on:
  decimal and hexadecimal conversion of numbers (\<open>std::to_string\<close>, \<open>std::stoi\<close>,
  \<open>std::stoul\<close>, stream output with \<open>std::hex\<close> and \<open>setw(2)\<close>), \<open>gmtime_r\<close> and
  \<open>localtime_r\<close>, and \<open>std::map\<close> and \<open>std::set\<close> on integer keys, kept as lists in the key
  order in which the code iterates over them.
\<close>

section \<open>Numbers as text\<close>

definition digit_char :: "nat \<Rightarrow> char" where
  "digit_char d = char_of (48 + d)"

fun dec_digits :: "nat \<Rightarrow> string" where
  "dec_digits n =
     (if n < 10 then [digit_char n] else dec_digits (n div 10) @ [digit_char (n mod 10)])"

declare dec_digits.simps [simp del]

definition to_string :: "int \<Rightarrow> string" where
  "to_string i = (if i < 0 then ''-'' @ dec_digits (nat (- i)) else dec_digits (nat i))"

definition hex_digit :: "nat \<Rightarrow> char" where
  "hex_digit d = char_of (if d < 10 then 48 + d else 87 + d)"

definition hex2 :: "byte \<Rightarrow> string" where
  "hex2 b = [hex_digit (unat b div 16), hex_digit (unat b mod 16)]"

definition is_space :: "char \<Rightarrow> bool" where
  "is_space c = (let n = (of_char c :: nat) in n = 32 \<or> (9 \<le> n \<and> n \<le> 13))"

definition digit_value :: "char \<Rightarrow> nat option" where
  "digit_value c =
     (let n = (of_char c :: nat)
      in if 48 \<le> n \<and> n \<le> 57 then Some (n - 48)
         else if 97 \<le> n \<and> n \<le> 122 then Some (n - 87)
         else if 65 \<le> n \<and> n \<le> 90 then Some (n - 55)
         else None)"

text \<open>The value of a character as a digit in a base, if it is one.\<close>

definition digit_in :: "nat \<Rightarrow> char \<Rightarrow> nat option" where
  "digit_in base c =
     (case digit_value c of None \<Rightarrow> None | Some d \<Rightarrow> if d < base then Some d else None)"

fun digits_val :: "nat \<Rightarrow> nat \<Rightarrow> string \<Rightarrow> nat" where
  "digits_val base acc [] = acc"
| "digits_val base acc (c # cs) =
     (case digit_in base c of None \<Rightarrow> acc | Some d \<Rightarrow> digits_val base (acc * base + d) cs)"

definition starts_digit :: "nat \<Rightarrow> string \<Rightarrow> bool" where
  "starts_digit base s = (case s of [] \<Rightarrow> False | c # _ \<Rightarrow> digit_in base c \<noteq> None)"

text \<open>
  \<open>strtol\<close> and \<open>strtoul\<close>: white space, an optional sign, for base 16 an optional \<open>0x\<close>
  that a digit follows, then the longest run of digits; nothing is converted when there is
  no digit.  The result is the sign and the magnitude.
\<close>

definition strto_sign :: "string \<Rightarrow> bool \<times> string" where
  "strto_sign s =
     (case s of [] \<Rightarrow> (False, [])
      | c # r \<Rightarrow> if c = CHR ''-'' then (True, r) else if c = CHR ''+'' then (False, r)
                 else (False, s))"

definition strto_prefix :: "nat \<Rightarrow> string \<Rightarrow> string" where
  "strto_prefix base s =
     (if base = 16 \<and> (take 2 s = ''0x'' \<or> take 2 s = ''0X'') \<and> starts_digit 16 (drop 2 s)
      then drop 2 s else s)"

definition strto :: "nat \<Rightarrow> string \<Rightarrow> (bool \<times> nat) option" where
  "strto base str =
     (let (neg, s) = strto_sign (dropWhile is_space str);
          ds = strto_prefix base s
      in if starts_digit base ds then Some (neg, digits_val base 0 ds) else None)"

definition stoi :: "string \<Rightarrow> int res" where
  "stoi s =
     (case strto 10 s of
        None \<Rightarrow> Inl Invalid_argument
      | Some (neg, n) \<Rightarrow>
          let v = (if neg then - int n else int n)
          in if - (2 ^ 31) \<le> v \<and> v < 2 ^ 31 then Inr v else Inl Out_of_range)"

definition stoul :: "nat \<Rightarrow> string \<Rightarrow> int res" where
  "stoul base s =
     (case strto base s of
        None \<Rightarrow> Inl Invalid_argument
      | Some (neg, n) \<Rightarrow>
          if int n < 2 ^ 64 then Inr (if neg then u64 (- int n) else int n) else Inl Out_of_range)"

subsection \<open>Reading back what was written\<close>

lemma of_char_digit_char [simp]: "d < 10 \<Longrightarrow> (of_char (digit_char d) :: nat) = 48 + d"
  by (simp add: digit_char_def)

lemma digit_in_digit_char [simp]: "d < 10 \<Longrightarrow> digit_in 10 (digit_char d) = Some d"
  by (simp add: digit_in_def digit_value_def Let_def)

lemma dec_digits_small [simp]: "n < 10 \<Longrightarrow> dec_digits n = [digit_char n]"
  by (simp add: dec_digits.simps)

lemma digits_val_dec_digits:
  "digits_val 10 acc (dec_digits n @ r)
     = digits_val 10 (acc * 10 ^ length (dec_digits n) + n) r"
proof (induction n arbitrary: acc r rule: dec_digits.induct)
  case (1 n)
  show ?case
  proof (cases "n < 10")
    case True
    then show ?thesis by simp
  next
    case False
    let ?q = "n div 10"
    have "dec_digits n = dec_digits ?q @ [digit_char (n mod 10)]"
      using False by (subst dec_digits.simps) simp
    then have "digits_val 10 acc (dec_digits n @ r)
        = digits_val 10 (acc * 10 ^ length (dec_digits ?q) + ?q) (digit_char (n mod 10) # r)"
      and len: "length (dec_digits n) = Suc (length (dec_digits ?q))"
      using 1 [OF False] by simp_all
    moreover have "(acc * 10 ^ length (dec_digits ?q) + ?q) * 10 + n mod 10
        = acc * 10 ^ length (dec_digits n) + n"
      unfolding len by (simp add: algebra_simps)
    ultimately show ?thesis by (simp add: algebra_simps)
  qed
qed

lemma dec_digits_head: "\<exists>d r. d < 10 \<and> dec_digits n = digit_char d # r"
proof (induction n rule: dec_digits.induct)
  case (1 n)
  show ?case
  proof (cases "n < 10")
    case False
    then obtain d r where "d < 10" "dec_digits (n div 10) = digit_char d # r" using 1 by blast
    with False show ?thesis by (subst dec_digits.simps) auto
  qed (auto simp: dec_digits.simps)
qed

lemma strto_digits:
  assumes "d < 10" and "s = digit_char d # r"
  shows "strto 10 s = Some (False, digits_val 10 0 s)"
proof -
  have c: "digit_char d \<noteq> CHR ''-''" "digit_char d \<noteq> CHR ''+''" "\<not> is_space (digit_char d)"
  proof -
    have "(of_char (digit_char d) :: nat) = 48 + d" using assms(1) by simp
    moreover have "(of_char (CHR ''-'') :: nat) = 45" "(of_char (CHR ''+'') :: nat) = 43" by simp_all
    ultimately show "digit_char d \<noteq> CHR ''-''" "digit_char d \<noteq> CHR ''+''"
      "\<not> is_space (digit_char d)"
      by (auto simp: is_space_def Let_def)
  qed
  with assms show ?thesis
    by (simp add: strto_def strto_sign_def strto_prefix_def starts_digit_def)
qed

lemma stoi_digits:
  assumes "d < 10" and "s = digit_char d # r" and "int (digits_val 10 0 s) < 2 ^ 31"
  shows "stoi s = Inr (int (digits_val 10 0 s))"
  using assms(3) by (simp add: stoi_def strto_digits [OF assms(1,2)] Let_def)

lemma stoi_to_string:
  assumes "0 \<le> a" and "a < 2 ^ 31"
  shows "stoi (to_string a) = Inr a"
proof -
  obtain d r where dr: "d < 10" "dec_digits (nat a) = digit_char d # r"
    using dec_digits_head by blast
  have v: "digits_val 10 0 (dec_digits (nat a)) = nat a"
    using digits_val_dec_digits [of 0 "nat a" "[]"] by simp
  show ?thesis
    using stoi_digits [OF dr] assms by (simp add: to_string_def v)
qed

text \<open>
  The message addresses of the protocol are two decimal numbers written one after the
  other and read back as one: the last digit is appended.
\<close>

lemma stoi_append_digit:
  assumes "0 \<le> a" and "0 \<le> b" and "b < 10" and "10 * a + b < 2 ^ 31"
  shows "stoi (to_string a @ to_string b) = Inr (10 * a + b)"
proof -
  obtain d r where dr: "d < 10" "dec_digits (nat a) = digit_char d # r"
    using dec_digits_head by blast
  have b: "to_string b = [digit_char (nat b)]" "nat b < 10"
    using assms(2,3) by (simp_all add: to_string_def)
  have "digits_val 10 0 (dec_digits (nat a) @ [digit_char (nat b)]) = nat a * 10 + nat b"
    using digits_val_dec_digits [of 0 "nat a"] b(2) by simp
  then have v: "int (digits_val 10 0 (to_string a @ to_string b)) = 10 * a + b"
    using assms by (simp add: to_string_def b)
  have "to_string a @ to_string b = digit_char d # (r @ to_string b)"
    using assms(1) dr by (simp add: to_string_def)
  from stoi_digits [OF dr(1) this] v assms(4) show ?thesis by simp
qed

section \<open>Broken-down time\<close>

record tm =
  tm_year :: int
  tm_mon :: int
  tm_mday :: int
  tm_hour :: int
  tm_min :: int
  tm_sec :: int

text \<open>
  \<open>gmtime_r\<close>: days since 1970 to year, month and day of the Gregorian calendar (years
  counted from March so that a leap day ends the year), and the time of the day.
\<close>

definition civil_date :: "int \<Rightarrow> int \<times> int \<times> int" where
  "civil_date days =
     (let z = days + 719468;
          era = z div 146097; doe = z mod 146097;
          yoe = (doe - doe div 1460 + doe div 36524 - doe div 146096) div 365;
          doy = doe - (365 * yoe + yoe div 4 - yoe div 100);
          mp = (5 * doy + 2) div 153;
          mday = doy - (153 * mp + 2) div 5 + 1;
          mon = (if mp < 10 then mp + 3 else mp - 9);
          year = yoe + era * 400 + (if mon \<le> 2 then 1 else 0)
      in (year, mon, mday))"

definition gmtime :: "int \<Rightarrow> tm" where
  "gmtime t =
     (let (year, mon, mday) = civil_date (t div 86400); sod = t mod 86400
      in \<lparr>tm_year = year - 1900, tm_mon = mon - 1, tm_mday = mday,
          tm_hour = sod div 3600, tm_min = sod mod 3600 div 60, tm_sec = sod mod 60\<rparr>)"

text \<open>
  \<open>localtime_r\<close> adds the offset of the local time zone at that instant, which the
  environment gives.
\<close>

definition localtime :: "(int \<Rightarrow> int) \<Rightarrow> int \<Rightarrow> tm" where
  "localtime tz t = gmtime (t + tz t)"

definition tm_sod :: "tm \<Rightarrow> int" where
  "tm_sod x = tm_hour x * 3600 + tm_min x * 60 + tm_sec x"

lemma gmtime_hour: "tm_hour (gmtime t) = t mod 86400 div 3600"
  by (simp add: gmtime_def case_prod_beta Let_def)

lemma gmtime_min: "tm_min (gmtime t) = t mod 86400 mod 3600 div 60"
  by (simp add: gmtime_def case_prod_beta Let_def)

lemma gmtime_sec: "tm_sec (gmtime t) = t mod 86400 mod 60"
  by (simp add: gmtime_def case_prod_beta Let_def)

lemma tm_sod_gmtime: "tm_sod (gmtime t) = t mod 86400"
proof -
  define s where "s = t mod 86400"
  have a: "s mod 3600 div 60 * 60 + s mod 3600 mod 60 = s mod 3600" by (rule div_mult_mod_eq)
  have b: "s mod 3600 mod 60 = s mod 60" by (rule mod_mod_cancel) simp
  have c: "s div 3600 * 3600 + s mod 3600 = s" by (rule div_mult_mod_eq)
  show ?thesis
    unfolding tm_sod_def gmtime_hour gmtime_min gmtime_sec s_def [symmetric]
    using a b c by linarith
qed

section \<open>Ordered maps and sets\<close>

text \<open>\<open>std::map<unsigned, T>\<close> as an association list in increasing key order.\<close>

fun omap_insert :: "int \<Rightarrow> 'v \<Rightarrow> (int \<times> 'v) list \<Rightarrow> (int \<times> 'v) list" where
  "omap_insert k v [] = [(k, v)]"
| "omap_insert k v ((k', v') # m) =
     (if k < k' then (k, v) # (k', v') # m
      else if k = k' then (k, v) # m
      else (k', v') # omap_insert k v m)"

lemma map_of_omap_insert: "map_of (omap_insert k v m) = (map_of m)(k \<mapsto> v)"
  by (induction m) (auto simp: fun_eq_iff)

lemma keys_omap_insert: "fst ` set (omap_insert k v m) = insert k (fst ` set m)"
  by (simp add: dom_map_of_conv_image_fst [symmetric] map_of_omap_insert)

lemma sorted_omap_insert:
  "sorted_wrt (<) (map fst m) \<Longrightarrow> sorted_wrt (<) (map fst (omap_insert k v m))"
proof (induction m)
  case (Cons p m)
  obtain k' v' where p: "p = (k', v')" by (cases p)
  from Cons.prems have rest: "sorted_wrt (<) (map fst m)" "\<forall>x \<in> fst ` set m. k' < x"
    by (auto simp: p)
  from rest(2) have "\<forall>x \<in> fst ` set (omap_insert k v m). k' < x" if "k' < k"
    using that by (simp add: keys_omap_insert)
  with Cons.IH [OF rest(1)] rest show ?case by (auto simp: p)
qed simp

text \<open>\<open>std::set<unsigned>\<close> as a list in increasing order.\<close>

fun oset_insert :: "int \<Rightarrow> int list \<Rightarrow> int list" where
  "oset_insert k [] = [k]"
| "oset_insert k (x # xs) =
     (if k < x then k # x # xs else if k = x then x # xs else x # oset_insert k xs)"

lemma set_oset_insert [simp]: "set (oset_insert k xs) = insert k (set xs)"
  by (induction xs) auto

lemma sorted_oset_insert: "sorted_wrt (<) xs \<Longrightarrow> sorted_wrt (<) (oset_insert k xs)"
  by (induction xs) auto

end
