(* ===== verification/HNZ_Conf.thy ===== *)
theory HNZ_Conf
  imports HNZ_Std
begin

text \<open>
  The configuration (\<open>include/hnzconf.h\<close>, \<open>src/hnzconf.cpp\<close>): the record \<open>HNZConf\<close>, whose
  fields carry the names of the getters, the readers of single JSON fields
  (\<open>m_check_*\<close>, \<open>m_retrieve\<close>), the import of the two JSON documents and the queries made
  on the result.  rapidjson is not part of the repository: its document type and accessors
  are the parameter \<open>J\<close>, a record with one function for each accessor the code calls.
\<close>

section \<open>The JSON accessors the code uses\<close>

record 'v json_api =
  parse_doc :: "string \<Rightarrow> 'v option"
  has_member :: "'v \<Rightarrow> string \<Rightarrow> bool"
  member_of :: "'v \<Rightarrow> string \<Rightarrow> 'v"
  is_object :: "'v \<Rightarrow> bool"
  is_array :: "'v \<Rightarrow> bool"
  is_string :: "'v \<Rightarrow> bool"
  is_uint :: "'v \<Rightarrow> bool"
  is_int64 :: "'v \<Rightarrow> bool"
  is_bool :: "'v \<Rightarrow> bool"
  get_string :: "'v \<Rightarrow> string"
  get_uint :: "'v \<Rightarrow> int"
  get_int64 :: "'v \<Rightarrow> int"
  get_bool :: "'v \<Rightarrow> bool"
  get_array :: "'v \<Rightarrow> 'v list"

section \<open>Constants\<close>

text \<open>The keys of the two documents.\<close>

definition JSON_CONF_NAME :: string where [simp]: "JSON_CONF_NAME = ''protocol_stack''"
definition NAME :: string where [simp]: "NAME = ''name''"
definition JSON_VERSION :: string where [simp]: "JSON_VERSION = ''version''"
definition TRANSPORT_LAYER :: string where [simp]: "TRANSPORT_LAYER = ''transport_layer''"
definition CONNECTIONS :: string where [simp]: "CONNECTIONS = ''connections''"
definition IP_ADDR :: string where [simp]: "IP_ADDR = ''srv_ip''"
definition IP_PORT :: string where [simp]: "IP_PORT = ''port''"
definition APP_LAYER :: string where [simp]: "APP_LAYER = ''application_layer''"
definition REMOTE_ADDR :: string where [simp]: "REMOTE_ADDR = ''remote_station_addr''"
definition INACC_TIMEOUT :: string where [simp]: "INACC_TIMEOUT = ''inacc_timeout''"
definition MAX_SARM :: string where [simp]: "MAX_SARM = ''max_sarm''"
definition REPEAT_PATH_A :: string where [simp]: "REPEAT_PATH_A = ''repeat_path_A''"
definition REPEAT_PATH_B :: string where [simp]: "REPEAT_PATH_B = ''repeat_path_B''"
definition REPEAT_TIMEOUT :: string where [simp]: "REPEAT_TIMEOUT = ''repeat_timeout''"
definition ANTICIPATION_RATIO :: string where [simp]: "ANTICIPATION_RATIO = ''anticipation_ratio''"
definition TST_MSG_SEND :: string where [simp]: "TST_MSG_SEND = ''test_msg_send''"
definition TST_MSG_RECEIVE :: string where [simp]: "TST_MSG_RECEIVE = ''test_msg_receive''"
definition GI_SCHEDULE :: string where [simp]: "GI_SCHEDULE = ''gi_schedule''"
definition GI_REPEAT_COUNT :: string where [simp]: "GI_REPEAT_COUNT = ''gi_repeat_count''"
definition GI_TIME :: string where [simp]: "GI_TIME = ''gi_time''"
definition C_ACK_TIME :: string where [simp]: "C_ACK_TIME = ''c_ack_time''"
definition CMD_RECV_TIMEOUT :: string where [simp]: "CMD_RECV_TIMEOUT = ''cmd_recv_timeout''"
definition BULLE_TIME :: string where [simp]: "BULLE_TIME = ''bulle_time''"
definition SOUTH_MONITORING :: string where [simp]: "SOUTH_MONITORING = ''south_monitoring''"
definition SOUTH_MONITORING_ASSET :: string where [simp]: "SOUTH_MONITORING_ASSET = ''asset''"
definition MODULO_USE_UTC :: string where [simp]: "MODULO_USE_UTC = ''modulo_use_utc''"
definition JSON_EXCHANGED_DATA_NAME :: string where [simp]: "JSON_EXCHANGED_DATA_NAME = ''exchanged_data''"
definition DATAPOINTS :: string where [simp]: "DATAPOINTS = ''datapoints''"
definition LABEL :: string where [simp]: "LABEL = ''label''"
definition PIVOT_ID :: string where [simp]: "PIVOT_ID = ''pivot_id''"
definition PIVOT_TYPE :: string where [simp]: "PIVOT_TYPE = ''pivot_type''"
definition PIVOT_SUBTYPES :: string where [simp]: "PIVOT_SUBTYPES = ''pivot_subtypes''"
definition TRIGGER_SOUTH_GI_PIVOT_SUBTYPE :: string where [simp]: "TRIGGER_SOUTH_GI_PIVOT_SUBTYPE = ''trigger_south_gi''"
definition PROTOCOLS :: string where [simp]: "PROTOCOLS = ''protocols''"
definition HNZ_NAME :: string where [simp]: "HNZ_NAME = ''hnzip''"
definition MESSAGE_CODE :: string where [simp]: "MESSAGE_CODE = ''typeid''"
definition MESSAGE_ADDRESS :: string where [simp]: "MESSAGE_ADDRESS = ''address''"

definition MAXPATHS :: nat where "MAXPATHS = 2"

definition DEFAULT_PORT :: int where "DEFAULT_PORT = 6001"
definition DEFAULT_INACC_TIMEOUT :: int where "DEFAULT_INACC_TIMEOUT = 180"
definition DEFAULT_MAX_SARM :: int where "DEFAULT_MAX_SARM = 30"
definition DEFAULT_REPEAT_PATH :: int where "DEFAULT_REPEAT_PATH = 3"
definition DEFAULT_REPEAT_TIMEOUT :: int where "DEFAULT_REPEAT_TIMEOUT = 3000"
definition DEFAULT_ANTICIPATION_RATIO :: int where "DEFAULT_ANTICIPATION_RATIO = 3"
definition DEFAULT_TST_MSG :: string where "DEFAULT_TST_MSG = ''1304''"
definition DEFAULT_GI_SCHEDULE :: string where "DEFAULT_GI_SCHEDULE = ''99:99''"
definition DEFAULT_GI_REPEAT_COUNT :: int where "DEFAULT_GI_REPEAT_COUNT = 3"
definition DEFAULT_GI_TIME :: int where "DEFAULT_GI_TIME = 255"
definition DEFAULT_C_ACK_TIME :: int where "DEFAULT_C_ACK_TIME = 10"
definition DEFAULT_CMD_RECV_TIMEOUT :: int where "DEFAULT_CMD_RECV_TIMEOUT = 100000"
definition DEFAULT_BULLE_TIME :: int where "DEFAULT_BULLE_TIME = 10"

section \<open>Data\<close>

record BulleFormat =
  first :: byte
  second :: byte

record GIScheduleFormat =
  activate :: bool
  hour :: int
  minute :: int

record HNZConf =
  get_paths_ip :: "string list"
  get_paths_port :: "int list"
  get_paths_repeat :: "int list"
  get_remote_station_addr :: int
  get_inacc_timeout :: int
  get_max_sarm :: int
  get_repeat_timeout :: int
  get_anticipation_ratio :: int
  get_test_msg_send :: BulleFormat
  get_test_msg_receive :: BulleFormat
  get_gi_schedule :: GIScheduleFormat
  get_gi_repeat_count :: int
  get_gi_time :: int
  get_c_ack_time :: int
  get_cmd_recv_timeout :: int
  get_bulle_time :: int
  get_use_utc :: bool
  get_connx_status_signal :: string
  getLastTSAddress :: int
  get_all_messages :: "string \<rightharpoonup> int \<rightharpoonup> (int \<times> string) list"
  m_cgTriggeringTsAdresses :: "int \<rightharpoonup> int"
  m_config_is_complete :: bool
  m_exchange_data_is_complete :: bool

text \<open>\<open>HNZConf()\<close>, the default member initialisers.\<close>

definition new_HNZConf :: HNZConf where
  "new_HNZConf =
    \<lparr>get_paths_ip = [[], []], get_paths_port = [0, 0], get_paths_repeat = [0, 0],
     get_remote_station_addr = 0, get_inacc_timeout = 0, get_max_sarm = 0,
     get_repeat_timeout = 0, get_anticipation_ratio = 0,
     get_test_msg_send = \<lparr>first = 0, second = 0\<rparr>,
     get_test_msg_receive = \<lparr>first = 0, second = 0\<rparr>,
     get_gi_schedule = \<lparr>activate = False, hour = 0, minute = 0\<rparr>,
     get_gi_repeat_count = 0, get_gi_time = 0, get_c_ack_time = 0,
     get_cmd_recv_timeout = 0, get_bulle_time = 0, get_use_utc = False,
     get_connx_status_signal = [], getLastTSAddress = 0,
     get_all_messages = Map.empty, m_cgTriggeringTsAdresses = Map.empty,
     m_config_is_complete = False, m_exchange_data_is_complete = False\<rparr>"

definition is_complete :: "HNZConf \<Rightarrow> bool" where
  "is_complete c \<longleftrightarrow> m_config_is_complete c \<and> m_exchange_data_is_complete c"

section \<open>Readers of one field\<close>

definition m_check_string :: "('v, 'z) json_api_scheme \<Rightarrow> 'v \<Rightarrow> string \<Rightarrow> bool" where
  "m_check_string J json key \<longleftrightarrow> has_member J json key \<and> is_string J (member_of J json key)"

definition m_check_array :: "('v, 'z) json_api_scheme \<Rightarrow> 'v \<Rightarrow> string \<Rightarrow> bool" where
  "m_check_array J json key \<longleftrightarrow> has_member J json key \<and> is_array J (member_of J json key)"

definition m_check_object :: "('v, 'z) json_api_scheme \<Rightarrow> 'v \<Rightarrow> string \<Rightarrow> bool" where
  "m_check_object J json key \<longleftrightarrow> has_member J json key \<and> is_object J (member_of J json key)"

text \<open>
  Each overload of \<open>m_retrieve\<close> takes the old value of its target and returns whether it
  succeeded with the new value of the target.
\<close>

definition m_retrieve_uint ::
  "('v, 'z) json_api_scheme \<Rightarrow> 'v \<Rightarrow> string \<Rightarrow> int \<Rightarrow> bool \<times> int" where
  "m_retrieve_uint J json key target =
     (if \<not> has_member J json key \<or> \<not> is_uint J (member_of J json key) then (False, target)
      else (True, get_uint J (member_of J json key)))"

definition m_retrieve_uint_def ::
  "('v, 'z) json_api_scheme \<Rightarrow> 'v \<Rightarrow> string \<Rightarrow> int \<Rightarrow> int \<Rightarrow> bool \<times> int" where
  "m_retrieve_uint_def J json key def target =
     (if \<not> has_member J json key then (True, def)
      else if \<not> is_uint J (member_of J json key) then (False, target)
      else (True, get_uint J (member_of J json key)))"

definition m_retrieve_string ::
  "('v, 'z) json_api_scheme \<Rightarrow> 'v \<Rightarrow> string \<Rightarrow> string \<Rightarrow> bool \<times> string" where
  "m_retrieve_string J json key target =
     (if \<not> has_member J json key \<or> \<not> is_string J (member_of J json key) then (False, target)
      else (True, get_string J (member_of J json key)))"

definition m_retrieve_string_def ::
  "('v, 'z) json_api_scheme \<Rightarrow> 'v \<Rightarrow> string \<Rightarrow> string \<Rightarrow> string \<Rightarrow> bool \<times> string" where
  "m_retrieve_string_def J json key def target =
     (if \<not> has_member J json key then (True, def)
      else if \<not> is_string J (member_of J json key) then (False, target)
      else (True, get_string J (member_of J json key)))"

definition m_retrieve_llong_def ::
  "('v, 'z) json_api_scheme \<Rightarrow> 'v \<Rightarrow> string \<Rightarrow> int \<Rightarrow> int \<Rightarrow> bool \<times> int" where
  "m_retrieve_llong_def J json key def target =
     (if \<not> has_member J json key then (True, def)
      else if \<not> is_int64 J (member_of J json key) then (False, target)
      else (True, get_int64 J (member_of J json key)))"

definition m_retrieve_bool_def ::
  "('v, 'z) json_api_scheme \<Rightarrow> 'v \<Rightarrow> string \<Rightarrow> bool \<Rightarrow> bool \<Rightarrow> bool \<times> bool" where
  "m_retrieve_bool_def J json key def target =
     (if \<not> has_member J json key then (True, def)
      else if \<not> is_bool J (member_of J json key) then (False, target)
      else (True, get_bool J (member_of J json key)))"

text \<open>The two bytes of a BULLE, written as four hexadecimal digits.\<close>

definition parse_bulle :: "string \<Rightarrow> BulleFormat res" where
  "parse_bulle temp =
     ebind (stoul 16 (take 2 temp)) (\<lambda>a.
     ebind (stoul 16 (drop 2 temp)) (\<lambda>b.
     Inr \<lparr>first = u8 a, second = u8 b\<rparr>))"

definition m_retrieve_bulle ::
  "('v, 'z) json_api_scheme \<Rightarrow> 'v \<Rightarrow> string \<Rightarrow> BulleFormat \<Rightarrow> bool \<times> BulleFormat" where
  "m_retrieve_bulle J json key target =
     (let use = (\<lambda>temp. case parse_bulle temp of Inl _ \<Rightarrow> (False, target)
                        | Inr bulle \<Rightarrow> (True, bulle))
      in if \<not> has_member J json key then use DEFAULT_TST_MSG
         else if \<not> is_string J (member_of J json key) then (False, target)
         else let temp = get_string J (member_of J json key)
              in if length temp \<noteq> 4 then (False, target) else use temp)"

text \<open>The time of day of the scheduled GI, written \<open>HH:MM\<close>; \<open>99:99\<close> switches it off.\<close>

definition parse_schedule :: "string \<Rightarrow> GIScheduleFormat option" where
  "parse_schedule temp =
     (if temp = DEFAULT_GI_SCHEDULE then Some \<lparr>activate = False, hour = 99, minute = 99\<rparr>
      else if length temp \<noteq> 5 \<or> take 1 (drop 2 temp) \<noteq> '':'' then None
      else case stoi (take 2 temp) of
             Inl _ \<Rightarrow> None
           | Inr h \<Rightarrow>
               (case stoi (drop 3 temp) of
                  Inl _ \<Rightarrow> None
                | Inr m \<Rightarrow>
                    if 0 \<le> h \<and> h < 24 \<and> 0 \<le> m \<and> m < 60
                    then Some \<lparr>activate = True, hour = h, minute = m\<rparr> else None))"

definition m_retrieve_schedule ::
  "('v, 'z) json_api_scheme \<Rightarrow> 'v \<Rightarrow> string \<Rightarrow> GIScheduleFormat \<Rightarrow> bool \<times> GIScheduleFormat" where
  "m_retrieve_schedule J json key target =
     (if \<not> has_member J json key then (True, \<lparr>activate = False, hour = 99, minute = 99\<rparr>)
      else if \<not> is_string J (member_of J json key) then (False, target)
      else case parse_schedule (get_string J (member_of J json key)) of
             None \<Rightarrow> (False, target)
           | Some time \<Rightarrow> (True, time))"

section \<open>Import of the protocol stack\<close>

text \<open>
  \<open>is_complete &= f(...)\<close>, repeated: every step runs, the flag is the conjunction.
\<close>

definition and_then :: "('c \<Rightarrow> bool \<times> 'c) \<Rightarrow> bool \<times> 'c \<Rightarrow> bool \<times> 'c" where
  "and_then f r = (case f (snd r) of (ok, c) \<Rightarrow> (fst r \<and> ok, c))"

definition into ::
  "('a \<Rightarrow> bool \<times> 'a) \<Rightarrow> ('c \<Rightarrow> 'a) \<Rightarrow> (('a \<Rightarrow> 'a) \<Rightarrow> 'c \<Rightarrow> 'c) \<Rightarrow> 'c \<Rightarrow> bool \<times> 'c" where
  "into rt sel upd c = (case rt (sel c) of (ok, v) \<Rightarrow> (ok, upd (\<lambda>_. v) c))"

definition into_nth ::
  "('a \<Rightarrow> bool \<times> 'a) \<Rightarrow> nat \<Rightarrow> ('c \<Rightarrow> 'a list) \<Rightarrow> (('a list \<Rightarrow> 'a list) \<Rightarrow> 'c \<Rightarrow> 'c) \<Rightarrow> 'c \<Rightarrow> bool \<times> 'c" where
  "into_nth rt i sel upd c = (case rt (sel c ! i) of (ok, v) \<Rightarrow> (ok, upd (\<lambda>xs. xs[i := v]) c))"

fun import_connections ::
  "('v, 'z) json_api_scheme \<Rightarrow> 'v list \<Rightarrow> nat \<Rightarrow> bool \<times> HNZConf \<Rightarrow> bool \<times> HNZConf" where
  "import_connections J [] i r = r"
| "import_connections J (e # es) i r =
     (if \<not> is_object J e then (False, snd r)
      else import_connections J es (Suc i)
        (and_then (into_nth (m_retrieve_uint_def J e IP_PORT DEFAULT_PORT) i
                     get_paths_port get_paths_port_update)
        (and_then (into_nth (m_retrieve_string J e IP_ADDR) i
                     get_paths_ip get_paths_ip_update) r)))"

definition m_importTransportLayer ::
  "('v, 'z) json_api_scheme \<Rightarrow> 'v \<Rightarrow> HNZConf \<Rightarrow> bool \<times> HNZConf" where
  "m_importTransportLayer J transport c =
     (if m_check_array J transport CONNECTIONS
      then let conn = get_array J (member_of J transport CONNECTIONS)
           in if length conn = 0 \<or> length conn > MAXPATHS then (False, c)
              else import_connections J conn 0 (True, c)
      else (True, c))"

definition check_remote_addr :: "HNZConf \<Rightarrow> bool \<times> HNZConf" where
  "check_remote_addr c = (\<not> (get_remote_station_addr c > 64), c)"

definition application_steps ::
  "('v, 'z) json_api_scheme \<Rightarrow> 'v \<Rightarrow> (HNZConf \<Rightarrow> bool \<times> HNZConf) list" where
  "application_steps J conf =
     [into (m_retrieve_uint J conf REMOTE_ADDR)
        get_remote_station_addr get_remote_station_addr_update,
      check_remote_addr,
      into (m_retrieve_uint_def J conf INACC_TIMEOUT DEFAULT_INACC_TIMEOUT)
        get_inacc_timeout get_inacc_timeout_update,
      into (m_retrieve_uint_def J conf MAX_SARM DEFAULT_MAX_SARM)
        get_max_sarm get_max_sarm_update,
      into_nth (m_retrieve_uint_def J conf REPEAT_PATH_A DEFAULT_REPEAT_PATH) 0
        get_paths_repeat get_paths_repeat_update,
      into_nth (m_retrieve_uint_def J conf REPEAT_PATH_B DEFAULT_REPEAT_PATH) 1
        get_paths_repeat get_paths_repeat_update,
      into (m_retrieve_uint_def J conf REPEAT_TIMEOUT DEFAULT_REPEAT_TIMEOUT)
        get_repeat_timeout get_repeat_timeout_update,
      into (m_retrieve_uint_def J conf ANTICIPATION_RATIO DEFAULT_ANTICIPATION_RATIO)
        get_anticipation_ratio get_anticipation_ratio_update,
      into (m_retrieve_bulle J conf TST_MSG_SEND)
        get_test_msg_send get_test_msg_send_update,
      into (m_retrieve_bulle J conf TST_MSG_RECEIVE)
        get_test_msg_receive get_test_msg_receive_update,
      into (m_retrieve_schedule J conf GI_SCHEDULE)
        get_gi_schedule get_gi_schedule_update,
      into (m_retrieve_uint_def J conf GI_REPEAT_COUNT DEFAULT_GI_REPEAT_COUNT)
        get_gi_repeat_count get_gi_repeat_count_update,
      into (m_retrieve_uint_def J conf GI_TIME DEFAULT_GI_TIME)
        get_gi_time get_gi_time_update,
      into (m_retrieve_uint_def J conf C_ACK_TIME DEFAULT_C_ACK_TIME)
        get_c_ack_time get_c_ack_time_update,
      into (m_retrieve_llong_def J conf CMD_RECV_TIMEOUT DEFAULT_CMD_RECV_TIMEOUT)
        get_cmd_recv_timeout get_cmd_recv_timeout_update,
      into (m_retrieve_uint_def J conf BULLE_TIME DEFAULT_BULLE_TIME)
        get_bulle_time get_bulle_time_update]"

definition m_importApplicationLayer ::
  "('v, 'z) json_api_scheme \<Rightarrow> 'v \<Rightarrow> HNZConf \<Rightarrow> bool \<times> HNZConf" where
  "m_importApplicationLayer J conf c = fold and_then (application_steps J conf) (True, c)"

definition importConfigJson ::
  "('v, 'z) json_api_scheme \<Rightarrow> string \<Rightarrow> HNZConf \<Rightarrow> HNZConf" where
  "importConfigJson J json c0 =
     (let c = c0\<lparr>m_config_is_complete := False\<rparr> in
      case parse_doc J json of
        None \<Rightarrow> c
      | Some document \<Rightarrow>
        if \<not> is_object J document then c
        else if \<not> m_check_object J document JSON_CONF_NAME then c
        else
          let info = member_of J document JSON_CONF_NAME;
              ok1 = (m_check_string J info NAME \<and> m_check_string J info JSON_VERSION);
              (ok2, c2) =
                (if m_check_object J info TRANSPORT_LAYER
                 then m_importTransportLayer J (member_of J info TRANSPORT_LAYER) c
                 else (False, c));
              (ok3, c3) =
                (if m_check_object J info APP_LAYER
                 then let conf = member_of J info APP_LAYER;
                          (ok, c') = m_importApplicationLayer J conf c2
                      in (ok, snd (into (m_retrieve_bool_def J conf MODULO_USE_UTC False)
                                     get_use_utc get_use_utc_update c'))
                 else (False, c2));
              (ok4, c4) =
                (if m_check_object J info SOUTH_MONITORING
                 then let conf = member_of J info SOUTH_MONITORING
                      in if m_check_string J conf SOUTH_MONITORING_ASSET
                         then into (m_retrieve_string J conf SOUTH_MONITORING_ASSET)
                                get_connx_status_signal get_connx_status_signal_update c3
                         else (True, c3)
                 else (True, c3))
          in c4\<lparr>m_config_is_complete := ok1 \<and> ok2 \<and> ok3 \<and> ok4\<rparr>)"

section \<open>Import of the exchanged data\<close>

fun gi_trigger_of :: "('v, 'z) json_api_scheme \<Rightarrow> 'v list \<Rightarrow> int" where
  "gi_trigger_of J [] = -1"
| "gi_trigger_of J (subtype # rest) =
     (if is_object J subtype \<and> has_member J subtype TRIGGER_SOUTH_GI_PIVOT_SUBTYPE
      then (case m_retrieve_uint J subtype TRIGGER_SOUTH_GI_PIVOT_SUBTYPE 0 of
              (value_ok, trigger_val) \<Rightarrow> if \<not> value_ok then -1 else s32 trigger_val)
      else gi_trigger_of J rest)"

definition m_isGiTriggeringTs :: "('v, 'z) json_api_scheme \<Rightarrow> 'v \<Rightarrow> int" where
  "m_isGiTriggeringTs J msg =
     (if has_member J msg PIVOT_SUBTYPES \<and> is_array J (member_of J msg PIVOT_SUBTYPES)
      then gi_trigger_of J (get_array J (member_of J msg PIVOT_SUBTYPES)) else -1)"

text \<open>\<open>m_msg_list[msg_code][station][msg_address] = label\<close>.\<close>

definition msg_list_insert ::
  "string \<Rightarrow> int \<Rightarrow> int \<Rightarrow> string \<Rightarrow> (string \<rightharpoonup> int \<rightharpoonup> (int \<times> string) list) \<Rightarrow>
   (string \<rightharpoonup> int \<rightharpoonup> (int \<times> string) list)" where
  "msg_list_insert code station address label m =
     (let inner = (case m code of None \<Rightarrow> Map.empty | Some i \<Rightarrow> i);
          leaf = (case inner station of None \<Rightarrow> [] | Some l \<Rightarrow> l)
      in m(code \<mapsto> inner(station \<mapsto> omap_insert address label leaf)))"

text \<open>
  The message address of a datapoint: the number the text starts with, 0 when it is not a
  number or does not fit \<open>unsigned int\<close>; the flag tells whether it was accepted.
\<close>

definition parse_address :: "string \<Rightarrow> bool \<times> int" where
  "parse_address address =
     (let (ok, tmp) = (case stoul 10 address of Inl _ \<Rightarrow> (False, 0) | Inr n \<Rightarrow> (True, n))
      in if tmp > u32 (-1) then (False, 0) else (ok, u32 tmp))"

definition import_hnz_protocol ::
  "('v, 'z) json_api_scheme \<Rightarrow> string \<Rightarrow> int \<Rightarrow> 'v \<Rightarrow> HNZConf \<Rightarrow> bool \<times> HNZConf" where
  "import_hnz_protocol J label trigger_value protocol c =
     (let (ok1, address) = m_retrieve_string_def J protocol MESSAGE_ADDRESS [] [];
          (ok2, msg_code) = m_retrieve_string_def J protocol MESSAGE_CODE [] [];
          (ok3, msg_address) = parse_address address;
          c1 = c\<lparr>get_all_messages := msg_list_insert msg_code (get_remote_station_addr c)
                   msg_address label (get_all_messages c)\<rparr>;
          c2 = (if msg_address > getLastTSAddress c1 then c1\<lparr>getLastTSAddress := msg_address\<rparr>
                else c1);
          triggers = m_cgTriggeringTsAdresses c2;
          c3 = (if trigger_value \<noteq> -1 \<and> s32 msg_address \<notin> dom triggers
                then c2\<lparr>m_cgTriggeringTsAdresses := triggers(s32 msg_address \<mapsto> trigger_value)\<rparr>
                else c2)
      in (ok1 \<and> ok2 \<and> ok3, c3))"

fun import_protocols ::
  "('v, 'z) json_api_scheme \<Rightarrow> string \<Rightarrow> int \<Rightarrow> 'v list \<Rightarrow> bool \<times> HNZConf \<Rightarrow> bool \<times> HNZConf" where
  "import_protocols J label trigger_value [] r = r"
| "import_protocols J label trigger_value (protocol # rest) r =
     (if \<not> is_object J protocol then (False, snd r)
      else
        let (ok, protocol_name) = m_retrieve_string J protocol NAME [];
            r1 = (fst r \<and> ok, snd r)
        in if protocol_name \<noteq> HNZ_NAME then import_protocols J label trigger_value rest r1
           else import_protocols J label trigger_value rest
                  (and_then (import_hnz_protocol J label trigger_value protocol) r1))"

definition m_importDatapoint ::
  "('v, 'z) json_api_scheme \<Rightarrow> 'v \<Rightarrow> HNZConf \<Rightarrow> bool \<times> HNZConf" where
  "m_importDatapoint J msg c =
     (if \<not> is_object J msg then (False, c)
      else
        let (ok, label) = m_retrieve_string J msg LABEL [];
            is_complete = (ok \<and> m_check_string J msg PIVOT_ID \<and> m_check_string J msg PIVOT_TYPE);
            trigger_value = m_isGiTriggeringTs J msg
        in if \<not> m_check_array J msg PROTOCOLS then (False, c)
           else import_protocols J label trigger_value (get_array J (member_of J msg PROTOCOLS))
                  (is_complete, c))"

definition importExchangedDataJson ::
  "('v, 'z) json_api_scheme \<Rightarrow> string \<Rightarrow> HNZConf \<Rightarrow> HNZConf" where
  "importExchangedDataJson J json c0 =
     (let c = c0\<lparr>m_exchange_data_is_complete := False\<rparr> in
      case parse_doc J json of
        None \<Rightarrow> c
      | Some document \<Rightarrow>
        if \<not> is_object J document then c
        else if \<not> m_check_object J document JSON_EXCHANGED_DATA_NAME then c
        else
          let info = member_of J document JSON_EXCHANGED_DATA_NAME;
              ok = (m_check_string J info NAME \<and> m_check_string J info JSON_VERSION)
          in if \<not> m_check_array J info DATAPOINTS then c
             else let (ok', c') = fold (\<lambda>msg. and_then (m_importDatapoint J msg))
                        (get_array J (member_of J info DATAPOINTS))
                        (ok, c\<lparr>getLastTSAddress := 0\<rparr>)
                  in c'\<lparr>m_exchange_data_is_complete := ok'\<rparr>)"

section \<open>Queries\<close>

definition msg_leaf :: "HNZConf \<Rightarrow> string \<Rightarrow> int \<Rightarrow> (int \<times> string) list option" where
  "msg_leaf c code station =
     (case get_all_messages c code of None \<Rightarrow> None | Some inner \<Rightarrow> inner station)"

definition getLabel :: "HNZConf \<Rightarrow> string \<Rightarrow> int \<Rightarrow> string" where
  "getLabel c msg_code msg_address =
     (case msg_leaf c msg_code (get_remote_station_addr c) of
        None \<Rightarrow> []
      | Some l \<Rightarrow> (case map_of l (u32 msg_address) of None \<Rightarrow> [] | Some label \<Rightarrow> label))"

definition getNumberCG :: "HNZConf \<Rightarrow> int" where
  "getNumberCG c =
     (case msg_leaf c ''TS'' (get_remote_station_addr c) of
        None \<Rightarrow> 0 | Some l \<Rightarrow> int (length l))"

definition isTsAddressCgTriggering :: "HNZConf \<Rightarrow> int \<Rightarrow> int" where
  "isTsAddressCgTriggering c address =
     (case m_cgTriggeringTsAdresses c address of None \<Rightarrow> -1 | Some v \<Rightarrow> v)"

text \<open>\<open>HNZConf(json_config, json_exchanged_data)\<close>: both documents, the stack first.\<close>

definition import_both ::
  "('v, 'z) json_api_scheme \<Rightarrow> string \<Rightarrow> string \<Rightarrow> HNZConf" where
  "import_both J json_config json_exchanged_data =
     importExchangedDataJson J json_exchanged_data (importConfigJson J json_config new_HNZConf)"

end
