(* ===== verification/HNZ_State.thy ===== *)
theory HNZ_State
  imports HNZ_Conf
begin

text \<open>
  The state of the plugin: the enumerations and structures of \<open>hnzpath.h\<close>,
  \<open>hnzconnection.h\<close> and \<open>hnz.h\<close>, one record for each class (the members of the three
  classes are fields of one state \<open>sys\<close>, since each class calls the other two), what the
  plugin sends out, and the environment: clock, socket status, time zone and the constants
  of the HNZ library.  Members that only feed log messages are left out.
\<close>

section \<open>Enumerations\<close>

datatype ConnectionEvent =
  TCP_CNX_ESTABLISHED | RECEIVED_SARM | RECEIVED_UA | TO_RECV | MAX_SEND | TCP_CNX_LOST
| TO_SEND | RECEIVED_INFO | SEND_TC | TO_UA | MAX_SARM_SENT | TO_LASTCG | TO_TCACK

datatype ProtocolState = CONNECTION | INPUT_CONNECTED | OUTPUT_CONNECTED | CONNECTED

datatype ConnectionState = DISCONNECTED | PENDING_HNZ | PASSIVE | ACTIVE

datatype ConnectionStatus = CS_STARTED | CS_NOT_CONNECTED

datatype GiStatus = GI_IDLE | GI_STARTED | GI_IN_PROGRESS | GI_FAILED | GI_FINISHED

text \<open>
  The enumerations are ordered by their underlying values, as the keys of a \<open>std::map\<close>
  need them to be.
\<close>

fun protocol_state_value :: "ProtocolState \<Rightarrow> nat" where
  "protocol_state_value CONNECTION = 0"
| "protocol_state_value INPUT_CONNECTED = 1"
| "protocol_state_value OUTPUT_CONNECTED = 2"
| "protocol_state_value CONNECTED = 3"

instantiation ProtocolState :: linorder
begin
definition less_eq_ProtocolState :: "ProtocolState \<Rightarrow> ProtocolState \<Rightarrow> bool" where
  "less_eq_ProtocolState a b \<longleftrightarrow> protocol_state_value a \<le> protocol_state_value b"
definition less_ProtocolState :: "ProtocolState \<Rightarrow> ProtocolState \<Rightarrow> bool" where
  "less_ProtocolState a b \<longleftrightarrow> protocol_state_value a < protocol_state_value b"
instance
proof
  fix a b c :: ProtocolState
  show "(a < b) = (a \<le> b \<and> \<not> b \<le> a)"
    by (auto simp: less_eq_ProtocolState_def less_ProtocolState_def)
  show "a \<le> a" by (simp add: less_eq_ProtocolState_def)
  show "a \<le> b \<Longrightarrow> b \<le> c \<Longrightarrow> a \<le> c" by (simp add: less_eq_ProtocolState_def)
  show "a \<le> b \<Longrightarrow> b \<le> a \<Longrightarrow> a = b"
    by (cases a; cases b) (simp_all add: less_eq_ProtocolState_def)
  show "a \<le> b \<or> b \<le> a" by (auto simp: less_eq_ProtocolState_def)
qed
end

section \<open>Structures of the path\<close>

text \<open>\<open>m_paths\<close> has two places, A and B; \<open>HNZPath*\<close> is the place the path has.\<close>

datatype path_id = Path_A | Path_B

record Message =
  ns :: int
  payload :: "byte list"

record Command_message =
  cmd_type :: string
  cmd_addr :: int
  timestamp_max :: int

text \<open>The settings a path copies from the configuration when it is built.\<close>

record path_settings =
  m_ip :: string
  m_port :: int
  m_timeoutUs :: int
  m_path_letter :: string
  m_path_name :: string
  repeat_max :: int
  m_remote_address :: int
  m_address_PA :: byte
  m_address_ARP :: byte
  m_max_sarm :: int
  m_inacc_timeout :: int
  m_repeat_timeout :: int
  m_anticipation_ratio :: int
  m_bulle_time :: int
  m_test_msg_receive :: BulleFormat
  m_test_msg_send :: BulleFormat
  m_use_utc :: bool
  c_ack_time_max :: int

text \<open>The members of a path that change.\<close>

record HNZPath = path_settings +
  msg_waiting :: "Message list"
  msg_sent :: "Message list"
  command_sent :: "Command_message list"
  last_sent_time :: int
  m_connection_thread :: bool
  path_running :: bool
  m_state_changed :: bool
  m_protocol_state :: ProtocolState
  m_connection_state :: ConnectionState
  m_name_log :: string
  m_nr :: int
  m_ns :: int
  m_NRR :: int
  m_last_msg_time :: int
  m_last_msg_sent_time :: int
  m_last_sarm_sent_time :: int
  m_last_connected :: int
  m_nbr_sarm_sent :: int
  m_repeat :: int

section \<open>What the plugin sends out\<close>

text \<open>
  Readings for Fledge (an asset and one datapoint), audits, frames handed to the HNZ client
  and calls that open or close its TCP connection, in the order in which they happen.
\<close>

datatype dp_value = DP_str string | DP_int int | DP_dict "(string \<times> dp_value) list"

datatype Reading = Reading string string dp_value

datatype effect =
  SendFrame path_id byte "byte list"
| StopClient path_id
| ConnectServer path_id
| Audit string string string
| Ingest Reading

section \<open>The state\<close>

record world =
  outs :: "effect list"
  reads :: nat

record HNZConnection = world +
  paths :: "path_id \<Rightarrow> HNZPath"
  m_paths :: "path_id \<Rightarrow> bool"
  m_active_path :: "path_id option"
  m_first_input_connected :: "path_id option"
  m_messages_thread :: bool
  conn_running :: bool
  m_current :: int
  m_elapsedTimeMs :: int
  m_days_since_epoch :: int
  m_sendInitNexConnection :: bool
  m_gi_repeat :: int
  m_gi_start_time :: int
  m_gi_repeat_count_max :: int
  m_gi_time_max :: int
  m_gi_schedule :: GIScheduleFormat
  conn_repeat_timeout :: int
  m_gi_schedule_already_sent :: bool
  m_gi_scheduled_time :: int

record sys = HNZConnection +
  hnz_running :: bool
  m_should_run :: bool
  m_receiving_thread_A :: bool
  m_receiving_thread_B :: bool
  m_gi_addresses_received :: "int list"
  m_hnz_conf :: HNZConf
  m_hnz_connection :: bool
  m_ingest :: bool
  hnz_remote_address :: int
  hnz_test_msg_receive :: BulleFormat
  m_daySection :: byte
  m_service_name :: string
  m_connStatus :: ConnectionStatus
  m_giStatus :: GiStatus
  m_giInQueue :: bool
  m_qualityUpdateTimer :: int
  m_qualityUpdateTimeoutMs :: int

section \<open>The environment\<close>

text \<open>
  The n-th question the plugin asks its environment is answered by the n-th value: the
  time, in milliseconds since 1970, and whether the socket of the path is connected
  (\<open>HNZClient::is_connected\<close>).  \<open>tz_offset\<close> is the offset of the local time zone in
  seconds.  The other fields are the constants of \<open>hnz_client.h\<close> and \<open>hnz_server.h\<close>,
  which are not part of the repository.
\<close>

record env =
  clock_ms :: "nat \<Rightarrow> int"
  tcp_connected :: "nat \<Rightarrow> bool"
  tz_offset :: "int \<Rightarrow> int"
  SARM_CODE :: byte
  UA_CODE :: byte
  MODULO_CODE :: byte
  TM4_CODE :: byte
  TSCE_CODE :: byte
  TSCG_CODE :: byte
  TMN_CODE :: byte
  TCACK_CODE :: byte
  TVCACK_CODE :: byte
  SETDATE_CODE :: byte
  SETTIME_CODE :: byte
  TC_CODE :: byte
  TVC_CODE :: byte

text \<open>
  The library's constants label the cases of a \<open>switch\<close>: a C++ compiler accepts the
  program only when they are different.
\<close>

definition codes_distinct :: "env \<Rightarrow> bool" where
  "codes_distinct E \<longleftrightarrow>
     distinct [MODULO_CODE E, TM4_CODE E, TSCE_CODE E, TSCG_CODE E, TMN_CODE E,
               TCACK_CODE E, TVCACK_CODE E] \<and>
     SARM_CODE E \<noteq> UA_CODE E"

definition now_ms :: "env \<Rightarrow> sys \<Rightarrow> int" where
  "now_ms E s = clock_ms E (reads s)"

definition now_connected :: "env \<Rightarrow> sys \<Rightarrow> bool" where
  "now_connected E s = tcp_connected E (reads s)"

definition asked :: "sys \<Rightarrow> sys" where
  "asked s = s\<lparr>reads := Suc (reads s)\<rparr>"

definition emit :: "effect \<Rightarrow> sys \<Rightarrow> sys" where
  "emit x s = s\<lparr>outs := outs s @ [x]\<rparr>"

definition upd_path :: "path_id \<Rightarrow> (HNZPath \<Rightarrow> HNZPath) \<Rightarrow> sys \<Rightarrow> sys" where
  "upd_path p f s = s\<lparr>paths := (paths s)(p := f (paths s p))\<rparr>"

end
