(* ===== verification/HNZ_Utility.thy ===== *)
theory HNZ_Utility
  imports HNZ_State
begin

text \<open>
  The audits of \<open>hnzutility.h\<close>, the text forms of frames, addresses and parameters that
  \<open>hnz.cpp\<close> and \<open>hnzpath.cpp\<close> build, and the frame conditions the other theories use: what
  it means that an operation changes one path only, or nothing but the Fledge side.
\<close>

section \<open>Audits\<close>

definition m_addQuotes :: "string \<Rightarrow> bool \<Rightarrow> string" where
  "m_addQuotes str addQuotes = (if addQuotes then ''\"'' @ str @ ''\"'' else str)"

definition m_toJsonMessage :: "string \<Rightarrow> string" where
  "m_toJsonMessage str = ''{\"message\":'' @ str @ ''}''"

definition audit_fail :: "string \<Rightarrow> string \<Rightarrow> bool \<Rightarrow> sys \<Rightarrow> sys" where
  "audit_fail code data addQuotes =
     emit (Audit code ''FAILURE'' (m_toJsonMessage (m_addQuotes data addQuotes)))"

definition audit_success :: "string \<Rightarrow> string \<Rightarrow> bool \<Rightarrow> sys \<Rightarrow> sys" where
  "audit_success code data addQuotes =
     emit (Audit code ''SUCCESS'' (m_toJsonMessage (m_addQuotes data addQuotes)))"

definition audit_warn :: "string \<Rightarrow> string \<Rightarrow> bool \<Rightarrow> sys \<Rightarrow> sys" where
  "audit_warn code data addQuotes =
     emit (Audit code ''WARNING'' (m_toJsonMessage (m_addQuotes data addQuotes)))"

definition audit_info :: "string \<Rightarrow> string \<Rightarrow> bool \<Rightarrow> sys \<Rightarrow> sys" where
  "audit_info code data addQuotes =
     emit (Audit code ''INFORMATION'' (m_toJsonMessage (m_addQuotes data addQuotes)))"

lemmas audit_defs = audit_fail_def audit_success_def audit_warn_def audit_info_def

section \<open>Text forms\<close>

fun join :: "string \<Rightarrow> string list \<Rightarrow> string" where
  "join sep [] = []"
| "join sep [x] = x"
| "join sep (x # y # ys) = x @ sep @ join sep (y # ys)"

definition frameToStr :: "byte list \<Rightarrow> string" where
  "frameToStr frame = [CHR 0x0A] @ ''['' @ join '', '' (map (\<lambda>b. ''0x'' @ hex2 b) frame) @ '']''"

definition convert_data_to_str :: "byte list \<Rightarrow> nat \<Rightarrow> string" where
  "convert_data_to_str data len = join '' '' (map hex2 (take len data))"

definition convert_message_to_str :: "Message \<Rightarrow> string" where
  "convert_message_to_str message = join '' '' (map hex2 (payload message))"

definition convert_messages_to_str :: "Message list \<Rightarrow> string" where
  "convert_messages_to_str messages =
     fold (\<lambda>msg msgStr. (if length msgStr > 0 then msgStr @ '', '' else msgStr)
             @ ''['' @ convert_message_to_str msg @ '']'') messages []"

definition formatAddresses :: "int list \<Rightarrow> string" where
  "formatAddresses addresses =
     fold (\<lambda>address out. (if length out > 1 then out @ '', '' else out) @ to_string address)
       addresses ''['' @ '']''"

definition paramsToStr :: "(string \<times> string) list \<Rightarrow> string" where
  "paramsToStr params =
     ''['' @ join '', '' (map (\<lambda>(name, value).
        ''{\"name\": \"'' @ name @ ''\", \"value\": \"'' @ value @ ''\"}'') params) @ '']''"

definition endsWith :: "string \<Rightarrow> string \<Rightarrow> bool" where
  "endsWith str suffix \<longleftrightarrow>
     length str \<ge> length suffix \<and> drop (length str - length suffix) str = suffix"

section \<open>Frame conditions\<close>

text \<open>Only path \<open>p\<close>, the outputs and the number of questions asked differ.\<close>

definition path_only :: "path_id \<Rightarrow> sys \<Rightarrow> sys \<Rightarrow> bool" where
  "path_only p s t \<longleftrightarrow>
     t = s\<lparr>outs := outs t, reads := reads t, paths := (paths s)(p := paths t p)\<rparr>"

text \<open>Only what the class \<open>HNZ\<close> keeps about connection and GI status differs, and the outputs.\<close>

definition fledge_only :: "sys \<Rightarrow> sys \<Rightarrow> bool" where
  "fledge_only s t \<longleftrightarrow>
     t = s\<lparr>outs := outs t, reads := reads t, m_connStatus := m_connStatus t,
           m_giStatus := m_giStatus t, m_qualityUpdateTimer := m_qualityUpdateTimer t\<rparr>"

lemma path_only_refl [simp]: "path_only p s s"
  by (simp add: path_only_def)

lemma path_only_trans:
  assumes "path_only p s t" and "path_only p t u"
  shows "path_only p s u"
proof -
  from assms(1) have t: "t = s\<lparr>outs := outs t, reads := reads t, paths := (paths s)(p := paths t p)\<rparr>"
    by (simp add: path_only_def)
  from assms(2) have "u = t\<lparr>outs := outs u, reads := reads u, paths := (paths t)(p := paths u p)\<rparr>"
    by (simp add: path_only_def)
  also have "\<dots> = s\<lparr>outs := outs u, reads := reads u, paths := (paths s)(p := paths u p)\<rparr>"
    by (subst t) (simp, subst t, simp)
  finally show ?thesis by (simp add: path_only_def)
qed

lemma path_only_asked [simp]: "path_only p s (asked s)"
  by (simp add: path_only_def asked_def)

lemma path_only_emit [simp]: "path_only p s (emit x s)"
  by (simp add: path_only_def emit_def)

lemma path_only_upd_path [simp]: "path_only p s (upd_path p f s)"
  by (simp add: path_only_def upd_path_def)

lemma path_only_paths: "path_only p s t \<Longrightarrow> q \<noteq> p \<Longrightarrow> paths t q = paths s q"
proof -
  assume "path_only p s t" and q: "q \<noteq> p"
  then have "paths t q = paths (s\<lparr>outs := outs t, reads := reads t,
      paths := (paths s)(p := paths t p)\<rparr>) q" by (simp add: path_only_def)
  with q show ?thesis by simp
qed

lemma path_only_fields:
  assumes "path_only p s t"
  shows "m_paths t = m_paths s" "m_active_path t = m_active_path s"
    "m_first_input_connected t = m_first_input_connected s"
    "conn_running t = conn_running s" "m_current t = m_current s"
    "m_sendInitNexConnection t = m_sendInitNexConnection s"
    "m_gi_repeat t = m_gi_repeat s" "m_gi_start_time t = m_gi_start_time s"
    "m_gi_repeat_count_max t = m_gi_repeat_count_max s" "m_gi_time_max t = m_gi_time_max s"
    "m_gi_schedule t = m_gi_schedule s"
    "m_gi_schedule_already_sent t = m_gi_schedule_already_sent s"
    "m_gi_scheduled_time t = m_gi_scheduled_time s" "m_days_since_epoch t = m_days_since_epoch s"
    "conn_repeat_timeout t = conn_repeat_timeout s"
    "hnz_running t = hnz_running s" "m_hnz_connection t = m_hnz_connection s"
    "m_gi_addresses_received t = m_gi_addresses_received s" "m_hnz_conf t = m_hnz_conf s"
    "m_connStatus t = m_connStatus s" "m_giStatus t = m_giStatus s"
    "m_giInQueue t = m_giInQueue s" "m_daySection t = m_daySection s"
    "m_service_name t = m_service_name s" "m_ingest t = m_ingest s"
    "hnz_remote_address t = hnz_remote_address s"
    "m_qualityUpdateTimer t = m_qualityUpdateTimer s"
    "hnz_test_msg_receive t = hnz_test_msg_receive s"
  by (insert assms [unfolded path_only_def], (erule ssubst, simp)+)

lemma fledge_only_refl [simp]: "fledge_only s s"
  by (simp add: fledge_only_def)

lemma fledge_only_asked [simp]: "fledge_only s (asked s)"
  by (simp add: fledge_only_def asked_def)

lemma fledge_only_emit [simp]: "fledge_only s (emit x s)"
  by (simp add: fledge_only_def emit_def)

lemma fledge_only_fields:
  assumes "fledge_only s t"
  shows "paths t = paths s" "m_paths t = m_paths s" "m_active_path t = m_active_path s"
    "m_first_input_connected t = m_first_input_connected s"
    "conn_running t = conn_running s" "m_current t = m_current s"
    "m_sendInitNexConnection t = m_sendInitNexConnection s"
    "m_gi_repeat t = m_gi_repeat s" "m_gi_start_time t = m_gi_start_time s"
    "m_gi_repeat_count_max t = m_gi_repeat_count_max s" "m_gi_time_max t = m_gi_time_max s"
    "m_gi_schedule t = m_gi_schedule s"
    "hnz_running t = hnz_running s" "m_hnz_connection t = m_hnz_connection s"
    "m_gi_addresses_received t = m_gi_addresses_received s" "m_hnz_conf t = m_hnz_conf s"
    "m_giInQueue t = m_giInQueue s" "m_daySection t = m_daySection s"
    "m_service_name t = m_service_name s" "m_ingest t = m_ingest s"
    "hnz_remote_address t = hnz_remote_address s"
  by (insert assms [unfolded fledge_only_def], (erule ssubst, simp)+)

lemma fledge_only_trans: "fledge_only s t \<Longrightarrow> fledge_only t u \<Longrightarrow> fledge_only s u"
proof -
  assume t: "fledge_only s t" and u: "fledge_only t u"
  have "u = t\<lparr>outs := outs u, reads := reads u, m_connStatus := m_connStatus u,
           m_giStatus := m_giStatus u, m_qualityUpdateTimer := m_qualityUpdateTimer u\<rparr>"
    using u by (simp add: fledge_only_def)
  also have "\<dots> = s\<lparr>outs := outs u, reads := reads u, m_connStatus := m_connStatus u,
           m_giStatus := m_giStatus u, m_qualityUpdateTimer := m_qualityUpdateTimer u\<rparr>"
    by (subst t [unfolded fledge_only_def]) simp
  finally show ?thesis by (simp add: fledge_only_def)
qed

end
