(* ===== verification/HNZ_Fledge.thy ===== *)
theory HNZ_Fledge
  imports HNZ_Utility
begin

text \<open>
  The part of the class \<open>HNZ\<close> that faces Fledge and does not call the connection back:
  building a reading, sending readings, the quality readings for all configured points,
  the monitoring event and the two status values with their timer
  (\<open>src/hnz.cpp\<close> from \<open>m_prepare_reading\<close> to \<open>registerIngest\<close> and from
  \<open>updateConnectionStatus\<close> to the end, without \<open>GICompleted\<close>).
\<close>

section \<open>Readings\<close>

record ReadingParameters =
  rp_label :: string
  rp_msg_code :: string
  rp_station_addr :: int
  rp_msg_address :: int
  rp_value :: int
  rp_valid :: int
  rp_ts :: int
  rp_ts_iv :: int
  rp_ts_c :: int
  rp_ts_s :: int
  rp_empty_timestamp :: bool
  rp_cg :: bool
  rp_an :: string
  rp_outdated :: bool
  rp_qualityUpdate :: bool

definition new_ReadingParameters :: ReadingParameters where
  "new_ReadingParameters =
    \<lparr>rp_label = [], rp_msg_code = [], rp_station_addr = 0, rp_msg_address = 0, rp_value = 0,
     rp_valid = 0, rp_ts = 0, rp_ts_iv = 0, rp_ts_c = 0, rp_ts_s = 0,
     rp_empty_timestamp = False, rp_cg = False, rp_an = [], rp_outdated = False,
     rp_qualityUpdate = False\<rparr>"

definition m_prepare_reading :: "ReadingParameters \<Rightarrow> Reading" where
  "m_prepare_reading params =
     (let isTS = (rp_msg_code params = ''TS'');
          isTSCE = (isTS \<and> \<not> rp_cg params);
          isTM = (rp_msg_code params = ''TM'')
      in Reading (rp_label params) ''data_object'' (DP_dict
        ([(''do_type'', DP_str (rp_msg_code params)),
          (''do_station'', DP_int (rp_station_addr params)),
          (''do_addr'', DP_int (rp_msg_address params))]
         @ (if \<not> rp_qualityUpdate params then [(''do_value'', DP_int (rp_value params))] else [])
         @ [(''do_valid'', DP_int (rp_valid params))]
         @ (if isTM then [(''do_an'', DP_str (rp_an params))] else [])
         @ (if isTS then [(''do_cg'', DP_int (of_bool (rp_cg params)))] else [])
         @ (if isTM \<or> isTS then [(''do_outdated'', DP_int (of_bool (rp_outdated params)))] else [])
         @ (if isTSCE
            then (if \<not> rp_empty_timestamp params then [(''do_ts'', DP_int (s64 (rp_ts params)))] else [])
                 @ [(''do_ts_iv'', DP_int (rp_ts_iv params)),
                    (''do_ts_c'', DP_int (rp_ts_c params)),
                    (''do_ts_s'', DP_int (rp_ts_s params))]
            else []))))"

definition registerIngest :: "bool \<Rightarrow> sys \<Rightarrow> sys" where
  "registerIngest cb s = s\<lparr>m_ingest := cb\<rparr>"

definition ingest :: "Reading \<Rightarrow> sys \<Rightarrow> sys" where
  "ingest reading s = (if \<not> m_ingest s then s else emit (Ingest reading) s)"

definition m_sendToFledge :: "Reading list \<Rightarrow> sys \<Rightarrow> sys" where
  "m_sendToFledge readings s = fold ingest readings s"

section \<open>Quality readings\<close>

definition m_sendAllTIQualityReadings ::
  "ReadingParameters \<Rightarrow> int list \<Rightarrow> sys \<Rightarrow> sys res" where
  "m_sendAllTIQualityReadings paramsTemplate rejectFilter s =
     (case msg_leaf (m_hnz_conf s) (rp_msg_code paramsTemplate) (rp_station_addr paramsTemplate) of
        None \<Rightarrow> Inl Out_of_range
      | Some allTMs \<Rightarrow>
          let hashFilter = set rejectFilter;
              readings =
                map (\<lambda>(msg_address, label).
                       m_prepare_reading (paramsTemplate\<lparr>rp_label := label,
                                                         rp_msg_address := msg_address\<rparr>))
                  (filter (\<lambda>(msg_address, _). msg_address \<notin> hashFilter) allTMs)
          in Inr (if readings \<noteq> [] then m_sendToFledge readings s else s))"

definition m_sendAllTMQualityReadings :: "bool \<Rightarrow> bool \<Rightarrow> int list \<Rightarrow> sys \<Rightarrow> sys res" where
  "m_sendAllTMQualityReadings invalid outdated rejectFilter s =
     m_sendAllTIQualityReadings
       (new_ReadingParameters\<lparr>rp_msg_code := ''TM'', rp_station_addr := hnz_remote_address s,
          rp_valid := of_bool invalid, rp_outdated := outdated, rp_an := ''TMA'',
          rp_qualityUpdate := True\<rparr>) rejectFilter s"

definition m_sendAllTSQualityReadings ::
  "env \<Rightarrow> bool \<Rightarrow> bool \<Rightarrow> int list \<Rightarrow> sys \<Rightarrow> sys res" where
  "m_sendAllTSQualityReadings E invalid outdated rejectFilter s =
     (let epochMs = now_ms E s in
      m_sendAllTIQualityReadings
       (new_ReadingParameters\<lparr>rp_msg_code := ''TS'', rp_station_addr := hnz_remote_address s,
          rp_valid := of_bool invalid, rp_outdated := outdated, rp_cg := False, rp_ts := epochMs,
          rp_qualityUpdate := True\<rparr>) rejectFilter (asked s))"

section \<open>Connection and GI status\<close>

definition connx_status_text :: "ConnectionStatus \<Rightarrow> string" where
  "connx_status_text st =
     (case st of CS_NOT_CONNECTED \<Rightarrow> ''not connected'' | CS_STARTED \<Rightarrow> ''started'')"

definition gi_status_text :: "GiStatus \<Rightarrow> string" where
  "gi_status_text st =
     (case st of GI_STARTED \<Rightarrow> ''started'' | GI_IN_PROGRESS \<Rightarrow> ''in progress''
      | GI_FAILED \<Rightarrow> ''failed'' | GI_FINISHED \<Rightarrow> ''finished'' | GI_IDLE \<Rightarrow> ''idle'')"

definition m_sendSouthMonitoringEvent :: "bool \<Rightarrow> bool \<Rightarrow> sys \<Rightarrow> sys" where
  "m_sendSouthMonitoringEvent connxStatus giStatus s =
     (let asset = get_connx_status_signal (m_hnz_conf s) in
      if asset = [] then s
      else if \<not> connxStatus \<and> \<not> giStatus then s
      else m_sendToFledge
        [Reading asset ''south_event'' (DP_dict
           ((if connxStatus then [(''connx_status'', DP_str (connx_status_text (m_connStatus s)))]
             else [])
            @ (if giStatus then [(''gi_status'', DP_str (gi_status_text (m_giStatus s)))]
               else [])))] s)"

definition m_sendConnectionStatus :: "sys \<Rightarrow> sys" where
  "m_sendConnectionStatus s = m_sendSouthMonitoringEvent True True s"

definition updateConnectionStatus :: "ConnectionStatus \<Rightarrow> sys \<Rightarrow> sys" where
  "updateConnectionStatus newState s =
     (if m_connStatus s = newState then s
      else
        let s1 = s\<lparr>m_connStatus := newState,
                   m_qualityUpdateTimer :=
                     (if newState = CS_NOT_CONNECTED then m_qualityUpdateTimeoutMs s else 0)\<rparr>;
            s2 = m_sendSouthMonitoringEvent True False s1
        in if newState = CS_STARTED
           then audit_success ''SRVFL'' (m_service_name s2 @ ''-connected'') True s2
           else audit_fail ''SRVFL'' (m_service_name s2 @ ''-disconnected'') True s2)"

definition updateGiStatus :: "GiStatus \<Rightarrow> sys \<Rightarrow> sys" where
  "updateGiStatus newState s =
     (if m_giStatus s = newState then s
      else m_sendSouthMonitoringEvent False True (s\<lparr>m_giStatus := newState\<rparr>))"

definition getGiStatus :: "sys \<Rightarrow> GiStatus" where
  "getGiStatus s = m_giStatus s"

definition updateQualityUpdateTimer :: "env \<Rightarrow> int \<Rightarrow> sys \<Rightarrow> sys res" where
  "updateQualityUpdateTimer E elapsedTimeMs s =
     (if m_qualityUpdateTimer s > 0
      then let s1 = s\<lparr>m_qualityUpdateTimer := m_qualityUpdateTimer s - elapsedTimeMs\<rparr>
           in if m_qualityUpdateTimer s1 \<le> 0
              then ebind (m_sendAllTMQualityReadings False True [] (s1\<lparr>m_qualityUpdateTimer := 0\<rparr>))
                     (m_sendAllTSQualityReadings E False True [])
              else Inr s1
      else Inr s)"

definition resetGIQueue :: "sys \<Rightarrow> sys" where
  "resetGIQueue s = s\<lparr>m_gi_addresses_received := []\<rparr>"

definition setDaySection :: "byte \<Rightarrow> sys \<Rightarrow> sys" where
  "setDaySection daySection s = s\<lparr>m_daySection := daySection\<rparr>"

section \<open>Comparison of the GI answer with the configuration\<close>

text \<open>
  The addresses that are missing and those that were not expected, each in increasing
  order; the loop over the received addresses removes an expected address the first time it
  is seen, so that a second reception counts it as unexpected.
\<close>

definition mismatch_step :: "int \<Rightarrow> int list \<times> int list \<Rightarrow> int list \<times> int list" where
  "mismatch_step address r =
     (if address \<notin> set (fst r) then (fst r, oset_insert address (snd r))
      else (remove1 address (fst r), snd r))"

definition m_getMismatchingTSCGAddresses :: "sys \<Rightarrow> (int list \<times> int list) res" where
  "m_getMismatchingTSCGAddresses s =
     (case msg_leaf (m_hnz_conf s) ''TS'' (hnz_remote_address s) of
        None \<Rightarrow> Inl Out_of_range
      | Some allTSs \<Rightarrow>
          Inr (fold mismatch_step (m_gi_addresses_received s)
                 (fold oset_insert (map fst allTSs) [], [])))"

section \<open>Frame facts\<close>

lemma fledge_only_ingest [simp]: "fledge_only s (ingest r s)"
  by (simp add: ingest_def)

lemma fledge_only_sendToFledge [simp]: "fledge_only s (m_sendToFledge rs s)"
  unfolding m_sendToFledge_def
proof (induction rs arbitrary: s)
  case (Cons r rs)
  show ?case using fledge_only_trans [OF fledge_only_ingest Cons.IH] by simp
qed simp

lemma sendToFledge_status [simp]:
  "m_connStatus (m_sendToFledge rs s) = m_connStatus s"
  "m_giStatus (m_sendToFledge rs s) = m_giStatus s"
  "m_qualityUpdateTimer (m_sendToFledge rs s) = m_qualityUpdateTimer s"
  unfolding m_sendToFledge_def
  by (induction rs arbitrary: s) (simp_all add: ingest_def emit_def)

lemma fledge_only_monitoring [simp]: "fledge_only s (m_sendSouthMonitoringEvent a b s)"
  by (simp add: m_sendSouthMonitoringEvent_def Let_def)

lemma monitoring_status [simp]:
  "m_connStatus (m_sendSouthMonitoringEvent a b s) = m_connStatus s"
  "m_giStatus (m_sendSouthMonitoringEvent a b s) = m_giStatus s"
  "m_qualityUpdateTimer (m_sendSouthMonitoringEvent a b s) = m_qualityUpdateTimer s"
  by (simp_all add: m_sendSouthMonitoringEvent_def Let_def)

lemma fledge_only_updateGiStatus [simp]: "fledge_only s (updateGiStatus st s)"
proof -
  have "fledge_only s (s\<lparr>m_giStatus := st\<rparr>)" by (simp add: fledge_only_def)
  then show ?thesis
    using fledge_only_trans fledge_only_monitoring unfolding updateGiStatus_def by auto
qed

lemma fledge_only_updateConnectionStatus [simp]: "fledge_only s (updateConnectionStatus st s)"
proof -
  have "fledge_only s (s\<lparr>m_connStatus := st', m_qualityUpdateTimer := t\<rparr>)" for st' t
    by (simp add: fledge_only_def)
  then have "fledge_only s (emit x (m_sendSouthMonitoringEvent True False
               (s\<lparr>m_connStatus := st', m_qualityUpdateTimer := t\<rparr>)))" for x st' t
    by (blast intro: fledge_only_trans fledge_only_monitoring fledge_only_emit)
  then show ?thesis by (simp add: updateConnectionStatus_def Let_def audit_defs)
qed

lemma updateConnectionStatus_status [simp]:
  "m_connStatus (updateConnectionStatus st s) = st"
  "m_giStatus (updateConnectionStatus st s) = m_giStatus s"
  by (simp_all add: updateConnectionStatus_def Let_def audit_defs emit_def)

lemma updateGiStatus_status [simp]:
  "m_giStatus (updateGiStatus st s) = st"
  "m_connStatus (updateGiStatus st s) = m_connStatus s"
  "m_qualityUpdateTimer (updateGiStatus st s) = m_qualityUpdateTimer s"
  by (simp_all add: updateGiStatus_def)

end
