(* ===== verification/HNZ_Link.thy ===== *)
theory HNZ_Link
  imports HNZ_Fledge
begin

text \<open>
  The link layer of one path (\<open>src/hnzpath.cpp\<close>): frames and their numbering, the window of
  sent messages and the queue of waiting ones, acknowledgement, repetition, and the
  messages the plugin composes (date, time, TC, TVC, BULLE).  What \<open>HNZPath\<close> does through
  \<open>HNZConnection\<close> is in \<open>HNZ_Automaton\<close> and \<open>HNZ_GI\<close>.
\<close>

section \<open>Sending frames\<close>

definition m_sendFrame :: "env \<Rightarrow> path_id \<Rightarrow> byte list \<Rightarrow> bool \<Rightarrow> sys \<Rightarrow> sys" where
  "m_sendFrame E p msg usePAAddr s =
     (let pa = paths s p;
          s1 = emit (SendFrame p (if usePAAddr then m_address_PA pa else m_address_ARP pa) msg) s
      in upd_path p (\<lambda>x. x\<lparr>m_last_msg_sent_time := now_ms E s1\<rparr>) (asked s1))"

definition m_sendSARM :: "env \<Rightarrow> path_id \<Rightarrow> sys \<Rightarrow> sys" where
  "m_sendSARM E p s =
     (let s1 = m_sendFrame E p [SARM_CODE E] False s
      in upd_path p (\<lambda>x. x\<lparr>m_nbr_sarm_sent := m_nbr_sarm_sent x + 1,
                           m_last_sarm_sent_time := now_ms E s1\<rparr>) (asked s1))"

definition m_sendUA :: "env \<Rightarrow> path_id \<Rightarrow> sys \<Rightarrow> sys" where
  "m_sendUA E p s = m_sendFrame E p [UA_CODE E] True s"

definition stopTCP :: "path_id \<Rightarrow> sys \<Rightarrow> sys" where
  "stopTCP p s = emit (StopClient p) s"

definition isTCPConnected :: "env \<Rightarrow> sys \<Rightarrow> bool" where
  "isTCPConnected E s = now_connected E s"

definition isBULLE :: "HNZPath \<Rightarrow> byte list \<Rightarrow> bool" where
  "isBULLE pa msg \<longleftrightarrow>
     length msg = 2 \<and> msg ! 0 = first (m_test_msg_send pa) \<and> msg ! 1 = second (m_test_msg_send pa)"

text \<open>The condition under which both senders discard a message.\<close>

definition discarded :: "HNZPath \<Rightarrow> byte list \<Rightarrow> bool" where
  "discarded pa msg \<longleftrightarrow>
     m_protocol_state pa \<noteq> CONNECTED \<and>
     \<not> (m_protocol_state pa = OUTPUT_CONNECTED \<and> isBULLE pa msg)"

text \<open>\<open>msg_sent.size() < m_anticipation_ratio\<close>, a comparison of unsigned numbers.\<close>

definition window_open :: "HNZPath \<Rightarrow> bool" where
  "window_open pa \<longleftrightarrow> int (length (msg_sent pa)) < u64 (m_anticipation_ratio pa)"

definition m_sendInfoImmediately :: "env \<Rightarrow> path_id \<Rightarrow> Message \<Rightarrow> sys \<Rightarrow> bool \<times> sys" where
  "m_sendInfoImmediately E p message s =
     (let pa = paths s p; msg = payload message in
      if discarded pa msg then (False, s)
      else
        let s1 = m_sendFrame E p (u8 (m_nr pa * 0x20 + m_ns pa * 0x2) # msg) False s;
            s2 = (if msg_sent pa = []
                  then upd_path p (\<lambda>x. x\<lparr>last_sent_time := now_ms E s1\<rparr>) (asked s1) else s1)
        in (True, upd_path p (\<lambda>x. x\<lparr>msg_sent := msg_sent x @ [message\<lparr>ns := m_ns x\<rparr>],
                                    m_ns := (m_ns x + 1) mod 8\<rparr>) s2))"

definition m_sendInfo :: "env \<Rightarrow> path_id \<Rightarrow> byte list \<Rightarrow> sys \<Rightarrow> bool \<times> sys" where
  "m_sendInfo E p msg s =
     (let pa = paths s p; message = \<lparr>ns = 0, payload = msg\<rparr> in
      if discarded pa msg then (False, s)
      else if window_open pa then m_sendInfoImmediately E p message s
      else (False, upd_path p (\<lambda>x. x\<lparr>msg_waiting := msg_waiting x @ [message]\<rparr>) s))"

definition sendBackInfo :: "env \<Rightarrow> path_id \<Rightarrow> Message \<Rightarrow> sys \<Rightarrow> sys" where
  "sendBackInfo E p message s =
     (let s0 = upd_path p (\<lambda>x. x\<lparr>m_repeat := m_repeat x + 1\<rparr>) s;
          pa = paths s0 p;
          s1 = m_sendFrame E p (u8 (m_nr pa * 0x20 + 0x10 + ns message * 0x2) # payload message) False s0
      in upd_path p (\<lambda>x. x\<lparr>last_sent_time := now_ms E s1\<rparr>) (asked s1))"

section \<open>Acknowledgement\<close>

definition m_isNRValid :: "HNZPath \<Rightarrow> int \<Rightarrow> bool" where
  "m_isNRValid pa nr =
     (if nr \<noteq> m_NRR pa
      then let frameOk = (m_NRR pa < nr \<and> nr \<le> m_ns pa)
           in if m_ns pa < m_NRR pa
              then (if m_NRR pa < nr then True else if nr \<le> m_ns pa then True else frameOk)
              else frameOk
      else True)"

text \<open>
  The loop that sends waiting messages while the window is open.  A message that
  \<open>m_sendInfoImmediately\<close> discards stays at the front of the queue and the loop goes on, so
  the loop may not end: its model is \<open>None\<close> then.
\<close>

partial_function (option) send_waiting :: "env \<Rightarrow> path_id \<Rightarrow> sys \<Rightarrow> sys option" where
  "send_waiting E p s =
     (if msg_waiting (paths s p) \<noteq> [] \<and> window_open (paths s p)
      then let r = m_sendInfoImmediately E p (hd (msg_waiting (paths s p))) s
           in send_waiting E p
                (if fst r then upd_path p (\<lambda>x. x\<lparr>msg_waiting := tl (msg_waiting x)\<rparr>) (snd r)
                 else snd r)
      else Some s)"

definition m_NRAccepted :: "env \<Rightarrow> path_id \<Rightarrow> int \<Rightarrow> sys \<Rightarrow> sys res" where
  "m_NRAccepted E p nr s =
     (let nrOffset = ((nr - m_NRR (paths s p)) smod 8 + 8) smod 8;
          s1 = upd_path p (\<lambda>x. x\<lparr>msg_sent := (tl ^^ nat nrOffset) (msg_sent x),
                                 m_NRR := nr, m_repeat := 0\<rparr>) s;
          s2 = (if msg_sent (paths s1 p) \<noteq> []
                then upd_path p (\<lambda>x. x\<lparr>last_sent_time := now_ms E s1\<rparr>) (asked s1) else s1)
      in case send_waiting E p s2 of None \<Rightarrow> Inl No_return | Some s3 \<Rightarrow> Inr s3)"

definition m_receivedRR :: "env \<Rightarrow> path_id \<Rightarrow> int \<Rightarrow> bool \<Rightarrow> sys \<Rightarrow> (bool \<times> sys) res" where
  "m_receivedRR E p nr repetition s =
     (let pa = paths s p in
      if nr \<noteq> m_NRR pa
      then (if m_isNRValid pa nr
            then (if \<not> repetition \<or> m_repeat pa > 0
                  then ebind (m_NRAccepted E p nr s) (\<lambda>s1. Inr (True, s1))
                  else Inr (False, s))
            else Inr (False, s))
      else Inr (True, s))"

text \<open>
  \<open>m_sendRR\<close> once the acknowledgement number has been accepted: number the answer, send it,
  note the time.
\<close>

definition answer_info :: "env \<Rightarrow> path_id \<Rightarrow> bool \<Rightarrow> int \<Rightarrow> sys \<Rightarrow> sys" where
  "answer_info E p repetition ns_rcv s1 =
     (let s2 = (if ns_rcv = m_nr (paths s1 p)
                then let s' = upd_path p (\<lambda>x. x\<lparr>m_nr := (m_nr x + 1) mod 8\<rparr>) s1;
                         n = m_nr (paths s' p)
                     in m_sendFrame E p [if repetition then u8 (0x01 + n * 0x20 + 0x10)
                                         else u8 (0x01 + n * 0x20)] True s'
                else if repetition
                     then m_sendFrame E p [u8 (0x01 + m_nr (paths s1 p) * 0x20 + 0x10)] True s1
                     else s1)
      in upd_path p (\<lambda>x. x\<lparr>m_last_msg_time := now_ms E s2\<rparr>) (asked s2))"

definition m_sendRR :: "env \<Rightarrow> path_id \<Rightarrow> bool \<Rightarrow> int \<Rightarrow> int \<Rightarrow> sys \<Rightarrow> (bool \<times> sys) res" where
  "m_sendRR E p repetition ns_rcv nr s =
     ebind (m_receivedRR E p nr False s) (\<lambda>(ok, s1).
       if \<not> ok then Inr (False, s1) else Inr (True, answer_info E p repetition ns_rcv s1))"

section \<open>Resetting\<close>

definition resetSarmCounters :: "env \<Rightarrow> path_id \<Rightarrow> sys \<Rightarrow> sys" where
  "resetSarmCounters E p s =
     upd_path p (\<lambda>x. x\<lparr>m_nbr_sarm_sent := 0, m_last_msg_time := now_ms E s\<rparr>) (asked s)"

definition resetOutputVariables :: "path_id \<Rightarrow> sys \<Rightarrow> sys" where
  "resetOutputVariables p s = upd_path p (\<lambda>x. x\<lparr>m_ns := 0, m_NRR := 0, m_repeat := 0\<rparr>) s"

definition resetInputVariables :: "env \<Rightarrow> path_id \<Rightarrow> sys \<Rightarrow> sys" where
  "resetInputVariables E p s =
     upd_path p (\<lambda>x. x\<lparr>m_nr := 0, m_last_msg_time := now_ms E s\<rparr>) (asked s)"

definition discardMessages :: "path_id \<Rightarrow> sys \<Rightarrow> sys" where
  "discardMessages p s = upd_path p (\<lambda>x. x\<lparr>msg_sent := [], msg_waiting := []\<rparr>) s"

definition m_receivedBULLE :: "env \<Rightarrow> path_id \<Rightarrow> sys \<Rightarrow> sys" where
  "m_receivedBULLE E p s = upd_path p (\<lambda>x. x\<lparr>m_last_msg_time := now_ms E s\<rparr>) (asked s)"

section \<open>Messages the plugin composes\<close>

definition m_sendBULLE :: "env \<Rightarrow> path_id \<Rightarrow> sys \<Rightarrow> sys" where
  "m_sendBULLE E p s =
     (let pa = paths s p
      in snd (m_sendInfo E p [first (m_test_msg_send pa), second (m_test_msg_send pa)] s))"

text \<open>The date and the time of the reference clock (UTC or local) as the messages carry them.\<close>

definition reference_tm :: "env \<Rightarrow> HNZPath \<Rightarrow> int \<Rightarrow> tm" where
  "reference_tm E pa t = (if m_use_utc pa then gmtime t else localtime (tz_offset E) t)"

definition date_message :: "env \<Rightarrow> tm \<Rightarrow> byte list" where
  "date_message E x =
     [SETDATE_CODE E, u8 (tm_mday x), u8 (tm_mon x + 1), u8 (tm_year x smod 100)]"

definition m_send_date_setting :: "env \<Rightarrow> path_id \<Rightarrow> sys \<Rightarrow> sys" where
  "m_send_date_setting E p s =
     (let now = now_ms E s div 1000
      in snd (m_sendInfo E p (date_message E (reference_tm E (paths s p) now)) (asked s)))"

definition mod10m_of :: "tm \<Rightarrow> int" where
  "mod10m_of x = tm_hour x * 6 + tm_min x div 10"

definition time_message :: "env \<Rightarrow> int \<Rightarrow> int \<Rightarrow> byte list" where
  "time_message E mod10m frac =
     [SETTIME_CODE E, u8 (mod10m AND 0xFF), u8 (drop_bit 8 frac), u8 (frac AND 0xFF), 0]"

definition m_send_time_setting :: "env \<Rightarrow> path_id \<Rightarrow> sys \<Rightarrow> sys" where
  "m_send_time_setting E p s =
     (let ms_since_epoch = now_ms E s;
          x = reference_tm E (paths s p) (ms_since_epoch div 1000);
          mod10m = mod10m_of x;
          frac = (ms_since_epoch mod 600000) div 10
      in setDaySection (u8 mod10m) (snd (m_sendInfo E p (time_message E mod10m frac) (asked s))))"

definition m_registerCommandIfSent ::
  "env \<Rightarrow> path_id \<Rightarrow> string \<Rightarrow> bool \<Rightarrow> int \<Rightarrow> sys \<Rightarrow> sys" where
  "m_registerCommandIfSent E p typ sent address s =
     (if \<not> sent then s
      else upd_path p (\<lambda>x. x\<lparr>command_sent :=
             \<lparr>cmd_type = typ, cmd_addr = address,
              timestamp_max = u64 (now_ms E s + c_ack_time_max x)\<rparr> # command_sent x\<rparr>) (asked s))"

definition tvc_message :: "env \<Rightarrow> byte \<Rightarrow> int \<Rightarrow> byte list" where
  "tvc_message E address value =
     [TVC_CODE E, u8 (uint address AND 0x1F),
      u8 ((if value \<ge> 0 then value else - value) AND 0x7F),
      (if value \<ge> 0 then 0 else 0x80)]"

definition sendTVCCommand :: "env \<Rightarrow> path_id \<Rightarrow> byte \<Rightarrow> int \<Rightarrow> sys \<Rightarrow> bool \<times> sys" where
  "sendTVCCommand E p address value s =
     (let (sent, s1) = m_sendInfo E p (tvc_message E address value) s
      in (sent, m_registerCommandIfSent E p ''TVC'' sent (uint address) s1))"

definition tc_message :: "env \<Rightarrow> int \<Rightarrow> byte \<Rightarrow> byte list res" where
  "tc_message E address value =
     (let address_str = ''0'' @ to_string address in
      ebind (stoi (butlast address_str)) (\<lambda>ado.
      Inr [TC_CODE E, u8 ado,
           u8 (push_bit 3 (uint value AND 0x3)
               OR push_bit 5 (int (of_char (last address_str)) - 48))]))"

definition sendTCCommand :: "env \<Rightarrow> path_id \<Rightarrow> int \<Rightarrow> byte \<Rightarrow> sys \<Rightarrow> (bool \<times> sys) res" where
  "sendTCCommand E p address value s =
     ebind (tc_message E address value) (\<lambda>msg.
     (let (sent, s1) = m_sendInfo E p msg s
      in Inr (sent, m_registerCommandIfSent E p ''TC'' sent address s1)))"

definition receivedCommandACK :: "path_id \<Rightarrow> string \<Rightarrow> int \<Rightarrow> sys \<Rightarrow> sys" where
  "receivedCommandACK p typ addr s =
     upd_path p (\<lambda>x. x\<lparr>command_sent :=
        filter (\<lambda>c. \<not> (cmd_type c = typ \<and> cmd_addr c = addr)) (command_sent x)\<rparr>) s"

section \<open>What the operations leave alone\<close>

text \<open>
  Every operation of this theory changes one path only, and of it neither the settings nor
  the two states.
\<close>

definition same_states :: "HNZPath \<Rightarrow> HNZPath \<Rightarrow> bool" where
  "same_states x y \<longleftrightarrow>
     path_settings.truncate x = path_settings.truncate y \<and>
     m_protocol_state x = m_protocol_state y \<and> m_connection_state x = m_connection_state y \<and>
     m_nbr_sarm_sent x = m_nbr_sarm_sent y \<and> m_last_connected x = m_last_connected y \<and>
     path_running x = path_running y"

definition link_step :: "path_id \<Rightarrow> sys \<Rightarrow> sys \<Rightarrow> bool" where
  "link_step p s t \<longleftrightarrow> path_only p s t \<and> same_states (paths s p) (paths t p)"

lemma same_states_refl [simp]: "same_states x x"
  by (simp add: same_states_def)

lemma same_states_settings:
  assumes "same_states x y"
  shows "m_anticipation_ratio y = m_anticipation_ratio x"
    "m_test_msg_send y = m_test_msg_send x" "m_protocol_state y = m_protocol_state x"
    "m_connection_state y = m_connection_state x" "m_max_sarm y = m_max_sarm x"
    "m_path_letter y = m_path_letter x" "m_remote_address y = m_remote_address x"
    "m_address_PA y = m_address_PA x" "m_address_ARP y = m_address_ARP x"
    "m_repeat_timeout y = m_repeat_timeout x" "repeat_max y = repeat_max x"
    "m_nbr_sarm_sent y = m_nbr_sarm_sent x" "m_last_connected y = m_last_connected x"
    "path_running y = path_running x"
  using assms unfolding same_states_def path_settings.truncate_def by simp_all

lemma link_step_refl [simp]: "link_step p s s"
  by (simp add: link_step_def)

lemma link_step_trans: "link_step p s t \<Longrightarrow> link_step p t u \<Longrightarrow> link_step p s u"
  by (auto simp: link_step_def same_states_def intro: path_only_trans)

lemma link_step_asked [simp]: "link_step p s (asked s)"
  by (simp add: link_step_def) (simp add: asked_def)

lemma link_step_emit [simp]: "link_step p s (emit x s)"
  by (simp add: link_step_def) (simp add: emit_def)

lemma link_step_upd_path: "(\<And>x. same_states x (f x)) \<Longrightarrow> link_step p s (upd_path p f s)"
  by (simp add: link_step_def) (simp add: upd_path_def)

lemma upd_path_same: "paths (upd_path p f s) p = f (paths s p)"
  by (simp add: upd_path_def)

lemma paths_asked [simp]: "paths (asked s) = paths s"
  by (simp add: asked_def)

lemma paths_emit [simp]: "paths (emit x s) = paths s"
  by (simp add: emit_def)

lemma outs_asked [simp]: "outs (asked s) = outs s"
  by (simp add: asked_def)

lemma outs_upd_path [simp]: "outs (upd_path p f s) = outs s"
  by (simp add: upd_path_def)

lemma outs_emit [simp]: "outs (emit x s) = outs s @ [x]"
  by (simp add: emit_def)

lemma paths_upd_path [simp]: "paths (upd_path p f s) = (paths s)(p := f (paths s p))"
  by (simp add: upd_path_def)

lemma link_step_asked_upd:
  "(\<And>x. same_states x (f x)) \<Longrightarrow> link_step p s (upd_path p f (asked s))"
  by (rule link_step_trans [OF link_step_asked link_step_upd_path])

lemma link_step_sendFrame [simp]: "link_step p s (m_sendFrame E p msg pa s)"
  unfolding m_sendFrame_def Let_def
  by (rule link_step_trans [OF link_step_emit link_step_asked_upd])
    (simp add: same_states_def path_settings.truncate_def)

text \<open>The paths after a frame has been sent.\<close>

lemma paths_sendFrame:
  "paths (m_sendFrame E p msg pa s) p
     = (paths s p)\<lparr>m_last_msg_sent_time := now_ms E (emit (SendFrame p
          (if pa then m_address_PA (paths s p) else m_address_ARP (paths s p)) msg) s)\<rparr>"
  by (simp add: m_sendFrame_def Let_def)

lemma outs_sendFrame:
  "outs (m_sendFrame E p msg pa s)
     = outs s @ [SendFrame p (if pa then m_address_PA (paths s p) else m_address_ARP (paths s p)) msg]"
  by (simp add: m_sendFrame_def Let_def)

text \<open>Everything an immediate send does to its path, in one equation.\<close>

lemma sendInfoImmediately_cases:
  assumes "m_sendInfoImmediately E p m s = (ok, t)"
  obtains (discarded) "discarded (paths s p) (payload m)" "\<not> ok" "t = s"
  | (sent) time time' where "\<not> discarded (paths s p) (payload m)" "ok"
      "paths t p = (paths s p)\<lparr>m_last_msg_sent_time := time, last_sent_time := time',
         msg_sent := msg_sent (paths s p) @ [m\<lparr>ns := m_ns (paths s p)\<rparr>],
         m_ns := (m_ns (paths s p) + 1) mod 8\<rparr>"
      "outs t = outs s @ [SendFrame p (m_address_ARP (paths s p))
         (u8 (m_nr (paths s p) * 0x20 + m_ns (paths s p) * 0x2) # payload m)]"
proof (cases "discarded (paths s p) (payload m)")
  case True
  with assms have "(ok, t) = (False, s)" by (simp add: m_sendInfoImmediately_def Let_def)
  then show ?thesis by (intro that(1) True) simp_all
next
  case False
  define s1 where "s1 = m_sendFrame E p
    (u8 (m_nr (paths s p) * 0x20 + m_ns (paths s p) * 0x2) # payload m) False s"
  obtain time where s1: "paths s1 p = (paths s p)\<lparr>m_last_msg_sent_time := time\<rparr>"
    using paths_sendFrame unfolding s1_def by blast
  have outs1: "outs s1 = outs s @ [SendFrame p (m_address_ARP (paths s p))
         (u8 (m_nr (paths s p) * 0x20 + m_ns (paths s p) * 0x2) # payload m)]"
    unfolding s1_def by (simp add: outs_sendFrame)
  have *: "(ok, t) = (True, upd_path p (\<lambda>x. x\<lparr>msg_sent := msg_sent x @ [m\<lparr>ns := m_ns x\<rparr>],
      m_ns := (m_ns x + 1) mod 8\<rparr>)
      (if msg_sent (paths s p) = []
       then upd_path p (\<lambda>x. x\<lparr>last_sent_time := now_ms E s1\<rparr>) (asked s1) else s1))"
    using False unfolding assms [symmetric] m_sendInfoImmediately_def Let_def s1_def [symmetric]
    by simp
  show ?thesis
  proof (rule that(2) [of "if msg_sent (paths s p) = [] then now_ms E s1
        else last_sent_time (paths s p)" time])
    show "paths t p = (paths s p)\<lparr>m_last_msg_sent_time := time,
       last_sent_time := (if msg_sent (paths s p) = [] then now_ms E s1
          else last_sent_time (paths s p)),
       msg_sent := msg_sent (paths s p) @ [m\<lparr>ns := m_ns (paths s p)\<rparr>],
       m_ns := (m_ns (paths s p) + 1) mod 8\<rparr>"
      using * s1 by (cases "msg_sent (paths s p) = []") simp_all
  qed (use * outs1 False in simp_all)
qed

lemma link_step_sendInfoImmediately: "link_step p s (snd (m_sendInfoImmediately E p m s))"
proof -
  let ?s1 = "m_sendFrame E p (u8 (m_nr (paths s p) * 0x20 + m_ns (paths s p) * 0x2) # payload m) False s"
  have a: "link_step p ?s1 (upd_path p (\<lambda>x. x\<lparr>last_sent_time := k\<rparr>) (asked ?s1))" for k
    by (rule link_step_asked_upd) (simp add: same_states_def path_settings.truncate_def)
  have b: "link_step p u (upd_path p (\<lambda>x. x\<lparr>msg_sent := msg_sent x @ [m\<lparr>ns := m_ns x\<rparr>],
        m_ns := (m_ns x + 1) mod 8\<rparr>) u)" for u
    by (rule link_step_upd_path) (simp add: same_states_def path_settings.truncate_def)
  note link_step_trans [OF link_step_sendFrame b] link_step_trans [OF link_step_sendFrame link_step_trans [OF a b]]
  then show ?thesis by (simp add: m_sendInfoImmediately_def Let_def)
qed

lemma link_step_sendInfo: "link_step p s (snd (m_sendInfo E p msg s))"
  by (auto simp: m_sendInfo_def Let_def same_states_def path_settings.truncate_def
      intro: link_step_sendInfoImmediately link_step_upd_path)

end
