(* ===== verification/HNZ_Window.thy ===== *)
theory HNZ_Window
  imports HNZ_Link
begin

text \<open>
  Correctness of the window of one path: the check of an acknowledgement number against
  its specification modulo 8, the invariant of a path's queues, the loop that sends waiting
  messages (it ends, and it sends in order), and the numbering of the messages kept for
  repetition.
\<close>

section \<open>Sequence numbers\<close>

text \<open>
  Numbers modulo \<open>M\<close>.  An interval of the circle is given by its ends; the locale relates
  the description by distances with the one by comparisons that code uses.
\<close>

locale seq_space =
  fixes M :: int
  assumes M_pos: "1 < M"
begin

lemma dist_less:
  assumes "0 \<le> a" "a < M" "0 \<le> x" "x < M"
  shows "(x - a) mod M = (if a \<le> x then x - a else x - a + M)"
proof (cases "a \<le> x")
  case True
  then show ?thesis using assms by simp
next
  case False
  then have "(x - a) mod M = (x - a + M) mod M" by simp
  also have "\<dots> = x - a + M" using False assms by (intro mod_pos_pos_trivial) auto
  finally show ?thesis using False by simp
qed

lemma in_interval:
  assumes "0 \<le> a" "a < M" "0 \<le> b" "b < M" "0 \<le> x" "x < M"
  shows "(x - a) mod M \<le> (b - a) mod M
    \<longleftrightarrow> (if a \<le> b then a \<le> x \<and> x \<le> b else a \<le> x \<or> x \<le> b)"
  using assms by (auto simp: dist_less)

lemma add_dist:
  assumes "0 \<le> x" "x < M"
  shows "(a + (x - a) mod M) mod M = x"
  using assms by (simp add: mod_add_right_eq)

end

interpretation seq8: seq_space 8
  by unfold_locales simp

definition numbers_ok :: "HNZPath \<Rightarrow> bool" where
  "numbers_ok pa \<longleftrightarrow> m_nr pa \<in> {0..7} \<and> m_ns pa \<in> {0..7} \<and> m_NRR pa \<in> {0..7}"

lemma isNRValid_iff:
  assumes "numbers_ok pa" and "nr \<in> {0..7}"
  shows "m_isNRValid pa nr \<longleftrightarrow> (nr - m_NRR pa) mod 8 \<le> (m_ns pa - m_NRR pa) mod 8"
  using assms seq8.in_interval [of "m_NRR pa" "m_ns pa" nr]
  by (auto simp: numbers_ok_def m_isNRValid_def Let_def)

section \<open>The invariant of the queues\<close>

text \<open>
  Without an output connection nothing is kept; with an output connection alone, only
  BULLE messages are kept or wait; the window is never exceeded.
\<close>

definition queue_ok :: "HNZPath \<Rightarrow> bool" where
  "queue_ok pa \<longleftrightarrow>
     (m_protocol_state pa \<in> {CONNECTION, INPUT_CONNECTED} \<longrightarrow> msg_sent pa = [] \<and> msg_waiting pa = []) \<and>
     (m_protocol_state pa = OUTPUT_CONNECTED \<longrightarrow>
        (\<forall>m \<in> set (msg_sent pa) \<union> set (msg_waiting pa). isBULLE pa (payload m)))"

definition window_ok :: "HNZPath \<Rightarrow> bool" where
  "window_ok pa \<longleftrightarrow> int (length (msg_sent pa)) \<le> u64 (m_anticipation_ratio pa)"

definition path_ok :: "HNZPath \<Rightarrow> bool" where
  "path_ok pa \<longleftrightarrow> numbers_ok pa \<and> queue_ok pa \<and> window_ok pa"

lemmas path_ok_defs = path_ok_def numbers_ok_def queue_ok_def window_ok_def

lemma isBULLE_cong: "m_test_msg_send x = m_test_msg_send y \<Longrightarrow> isBULLE x m = isBULLE y m"
  by (simp add: isBULLE_def)

lemma path_ok_sent:
  assumes "path_ok pa" and "window_open pa" and "\<not> discarded pa (payload m)"
  shows "path_ok (pa\<lparr>m_last_msg_sent_time := time, last_sent_time := time',
           msg_sent := msg_sent pa @ [m\<lparr>ns := m_ns pa\<rparr>], m_ns := (m_ns pa + 1) mod 8\<rparr>)"
  using assms unfolding path_ok_defs window_open_def discarded_def isBULLE_def
  by (cases "m_protocol_state pa") auto

lemma sendInfoImmediately_path_ok:
  assumes "m_sendInfoImmediately E p m s = (ok, t)" "path_ok (paths s p)" "window_open (paths s p)"
  shows "path_ok (paths t p)"
  using assms(1)
  by (cases rule: sendInfoImmediately_cases) (use assms(2,3) in \<open>simp_all add: path_ok_sent\<close>)

lemma sendInfo_path_ok:
  assumes "m_sendInfo E p msg s = (ok, t)" "path_ok (paths s p)"
  shows "path_ok (paths t p)"
proof -
  consider "t = s" | "window_open (paths s p)" "m_sendInfoImmediately E p \<lparr>ns = 0, payload = msg\<rparr> s = (ok, t)"
    | "\<not> discarded (paths s p) msg"
      "t = upd_path p (\<lambda>x. x\<lparr>msg_waiting := msg_waiting x @ [\<lparr>ns = 0, payload = msg\<rparr>]\<rparr>) s"
    using assms(1) unfolding m_sendInfo_def Let_def by (auto split: if_splits)
  then show ?thesis
  proof cases
    case 3
    with assms(2) show ?thesis
      unfolding path_ok_defs discarded_def by (auto simp: isBULLE_def)
  qed (use assms(2) sendInfoImmediately_path_ok in blast)+
qed

section \<open>The loop over the waiting messages\<close>

lemma waiting_not_discarded:
  assumes "queue_ok pa" and "m \<in> set (msg_waiting pa)"
  shows "\<not> discarded pa (payload m)"
  using assms unfolding queue_ok_def discarded_def by (cases "m_protocol_state pa") auto

definition pop_waiting :: "path_id \<Rightarrow> sys \<Rightarrow> sys" where
  "pop_waiting p = upd_path p (\<lambda>x. x\<lparr>msg_waiting := tl (msg_waiting x)\<rparr>)"

lemma send_waiting_stop:
  "\<not> (msg_waiting (paths s p) \<noteq> [] \<and> window_open (paths s p)) \<Longrightarrow> send_waiting E p s = Some s"
  by (subst send_waiting.simps) auto

lemma send_waiting_step:
  assumes "msg_waiting (paths s p) = m # ms" and "window_open (paths s p)"
    and "\<not> discarded (paths s p) (payload m)"
  shows "send_waiting E p s = send_waiting E p (pop_waiting p (snd (m_sendInfoImmediately E p m s)))"
proof -
  have "fst (m_sendInfoImmediately E p m s)"
    using assms(3) by (simp add: m_sendInfoImmediately_def Let_def)
  with assms(1,2) show ?thesis
    by (subst send_waiting.simps) (simp add: Let_def pop_waiting_def)
qed

text \<open>One turn of the loop on its path.\<close>

lemma paths_turn:
  assumes "\<not> discarded (paths s p) (payload m)" and "msg_waiting (paths s p) = m # ms"
  obtains time time' where
    "paths (pop_waiting p (snd (m_sendInfoImmediately E p m s))) p
       = (paths s p)\<lparr>m_last_msg_sent_time := time, last_sent_time := time',
           msg_sent := msg_sent (paths s p) @ [m\<lparr>ns := m_ns (paths s p)\<rparr>],
           m_ns := (m_ns (paths s p) + 1) mod 8, msg_waiting := ms\<rparr>"
proof -
  obtain ok t where r: "m_sendInfoImmediately E p m s = (ok, t)" by fastforce
  from r show ?thesis
  proof (cases rule: sendInfoImmediately_cases)
    case (sent time time')
    show ?thesis
      by (rule that [of time' time]) (simp add: r pop_waiting_def sent(3) assms(2))
  qed (use assms(1) in simp)
qed

lemma link_step_turn:
  "link_step p s (pop_waiting p (snd (m_sendInfoImmediately E p m s)))"
  unfolding pop_waiting_def
  by (rule link_step_trans [OF link_step_sendInfoImmediately link_step_upd_path])
    (simp add: same_states_def path_settings.truncate_def)

lemma path_ok_waiting_tl:
  assumes "path_ok pa" and "msg_waiting pa = m # ms"
  shows "path_ok (pa\<lparr>msg_waiting := ms\<rparr>)"
  using assms unfolding path_ok_defs by (auto simp: isBULLE_def)

lemma path_ok_turn:
  assumes "path_ok (paths s p)" "msg_waiting (paths s p) = m # ms" "window_open (paths s p)"
  shows "path_ok (paths (pop_waiting p (snd (m_sendInfoImmediately E p m s))) p)"
proof -
  have nd: "\<not> discarded (paths s p) (payload m)"
    using assms(1,2) by (intro waiting_not_discarded) (auto simp: path_ok_def)
  obtain time time' where t: "paths (pop_waiting p (snd (m_sendInfoImmediately E p m s))) p
       = (paths s p)\<lparr>m_last_msg_sent_time := time, last_sent_time := time',
           msg_sent := msg_sent (paths s p) @ [m\<lparr>ns := m_ns (paths s p)\<rparr>],
           m_ns := (m_ns (paths s p) + 1) mod 8, msg_waiting := ms\<rparr>"
    by (rule paths_turn [OF nd assms(2)])
  show ?thesis
    unfolding t
    using path_ok_waiting_tl [OF path_ok_sent [OF assms(1,3) nd, of time' time], of m ms] assms(2)
    by simp
qed

text \<open>
  Under the invariant the loop ends.  It has then sent the first \<open>k\<close> waiting messages, in
  their order, and stopped because none is left or because the window is full.
\<close>

lemma send_waiting_total:
  assumes "path_ok (paths s p)"
  shows "\<exists>t k. send_waiting E p s = Some t \<and> link_step p s t \<and> path_ok (paths t p) \<and>
    msg_waiting (paths t p) = drop k (msg_waiting (paths s p)) \<and>
    map payload (msg_sent (paths t p))
      = map payload (msg_sent (paths s p) @ take k (msg_waiting (paths s p))) \<and>
    (msg_waiting (paths t p) = [] \<or> \<not> window_open (paths t p)) \<and>
    m_NRR (paths t p) = m_NRR (paths s p) \<and> m_nr (paths t p) = m_nr (paths s p) \<and>
    m_repeat (paths t p) = m_repeat (paths s p)"
  using assms
proof (induction "msg_waiting (paths s p)" arbitrary: s)
  case Nil
  then show ?case by (intro exI [of _ s] exI [of _ 0]) (simp add: send_waiting_stop)
next
  case (Cons m ms)
  show ?case
  proof (cases "window_open (paths s p)")
    case False
    with Cons show ?thesis by (intro exI [of _ s] exI [of _ 0]) (simp add: send_waiting_stop)
  next
    case True
    define u where "u = pop_waiting p (snd (m_sendInfoImmediately E p m s))"
    have w: "msg_waiting (paths s p) = m # ms" using Cons.hyps(2) by simp
    have nd: "\<not> discarded (paths s p) (payload m)"
      using Cons.prems w by (intro waiting_not_discarded) (auto simp: path_ok_def)
    obtain time time' where up: "paths u p
       = (paths s p)\<lparr>m_last_msg_sent_time := time, last_sent_time := time',
           msg_sent := msg_sent (paths s p) @ [m\<lparr>ns := m_ns (paths s p)\<rparr>],
           m_ns := (m_ns (paths s p) + 1) mod 8, msg_waiting := ms\<rparr>"
      unfolding u_def by (rule paths_turn [OF nd w])
    have "path_ok (paths u p)" unfolding u_def by (rule path_ok_turn [OF Cons.prems w True])
    moreover have "ms = msg_waiting (paths u p)" by (simp add: up)
    ultimately obtain t k where tk: "send_waiting E p u = Some t" "link_step p u t" "path_ok (paths t p)"
      "msg_waiting (paths t p) = drop k (msg_waiting (paths u p))"
      "map payload (msg_sent (paths t p))
         = map payload (msg_sent (paths u p) @ take k (msg_waiting (paths u p)))"
      "msg_waiting (paths t p) = [] \<or> \<not> window_open (paths t p)"
      "m_NRR (paths t p) = m_NRR (paths u p)" "m_nr (paths t p) = m_nr (paths u p)"
      "m_repeat (paths t p) = m_repeat (paths u p)"
      using Cons.hyps(1) by blast
    have "send_waiting E p s = Some t"
      using send_waiting_step [OF w True nd, of E] tk(1) by (simp add: u_def)
    moreover have "link_step p s t"
      using link_step_turn tk(2) unfolding u_def by (rule link_step_trans)
    ultimately show ?thesis
      using tk(3-) by (intro exI [of _ t] exI [of _ "Suc k"]) (simp add: up w)
  qed
qed

section \<open>Acknowledgement\<close>

lemma funpow_tl: "(tl ^^ n) xs = drop n xs"
  by (induction n arbitrary: xs) (simp_all add: drop_Suc tl_drop)

lemma nrOffset_eq: "((nr - m) smod 8 + 8) smod 8 = (nr - m) mod (8 :: int)"
  by (rule smod_smod_8)

lemma path_ok_acked:
  assumes "path_ok pa" and "nr \<in> {0..7}"
  shows "path_ok (pa\<lparr>msg_sent := drop n (msg_sent pa), m_NRR := nr, m_repeat := 0\<rparr>)"
  using assms set_drop_subset [of n "msg_sent pa"] unfolding path_ok_defs by (auto simp: isBULLE_def)

lemma path_ok_last_sent [simp]: "path_ok (pa\<lparr>last_sent_time := time\<rparr>) = path_ok pa"
  unfolding path_ok_defs by (simp add: isBULLE_def)

text \<open>
  An accepted acknowledgement always returns: the messages it covers leave the window and
  waiting messages take their place, in order.
\<close>

lemma NRAccepted_total:
  assumes "path_ok (paths s p)" and "nr \<in> {0..7}"
  shows "\<exists>t k. m_NRAccepted E p nr s = Inr t \<and> link_step p s t \<and> path_ok (paths t p) \<and>
    m_NRR (paths t p) = nr \<and> m_nr (paths t p) = m_nr (paths s p) \<and> m_repeat (paths t p) = 0 \<and>
    msg_waiting (paths t p) = drop k (msg_waiting (paths s p)) \<and>
    map payload (msg_sent (paths t p))
      = map payload (drop (nat ((nr - m_NRR (paths s p)) mod 8)) (msg_sent (paths s p))
                       @ take k (msg_waiting (paths s p))) \<and>
    (msg_waiting (paths t p) = [] \<or> \<not> window_open (paths t p))"
proof -
  define d where "d = nat ((nr - m_NRR (paths s p)) mod 8)"
  define s1 where "s1 = upd_path p (\<lambda>x. x\<lparr>msg_sent := drop d (msg_sent x), m_NRR := nr, m_repeat := 0\<rparr>) s"
  define s2 where "s2 = (if msg_sent (paths s1 p) \<noteq> []
                then upd_path p (\<lambda>x. x\<lparr>last_sent_time := now_ms E s1\<rparr>) (asked s1) else s1)"
  have eq: "m_NRAccepted E p nr s
      = (case send_waiting E p s2 of None \<Rightarrow> Inl No_return | Some s3 \<Rightarrow> Inr s3)"
    unfolding m_NRAccepted_def s2_def s1_def d_def Let_def nrOffset_eq funpow_tl ..
  obtain time where p2: "paths s2 p = (paths s p)
      \<lparr>msg_sent := drop d (msg_sent (paths s p)), m_NRR := nr, m_repeat := 0, last_sent_time := time\<rparr>"
  proof (cases "msg_sent (paths s1 p) = []")
    case True
    then have "paths s2 p = paths s1 p" by (simp add: s2_def)
    then show ?thesis by (intro that [of "last_sent_time (paths s p)"]) (simp add: s1_def)
  next
    case False
    then show ?thesis by (intro that [of "now_ms E s1"]) (simp add: s2_def, simp add: s1_def)
  qed
  have "link_step p s s1"
    unfolding s1_def by (rule link_step_upd_path) (simp add: same_states_def path_settings.truncate_def)
  moreover have "link_step p s1 s2"
    unfolding s2_def using link_step_asked_upd [of "\<lambda>x. x\<lparr>last_sent_time := now_ms E s1\<rparr>" p s1]
    by (auto simp: same_states_def path_settings.truncate_def)
  ultimately have l: "link_step p s s2" by (rule link_step_trans)
  have "path_ok (paths s2 p)"
    using path_ok_acked [OF assms] unfolding p2 by simp
  then obtain t k where tk: "send_waiting E p s2 = Some t" "link_step p s2 t" "path_ok (paths t p)"
      "msg_waiting (paths t p) = drop k (msg_waiting (paths s2 p))"
      "map payload (msg_sent (paths t p))
         = map payload (msg_sent (paths s2 p) @ take k (msg_waiting (paths s2 p)))"
      "msg_waiting (paths t p) = [] \<or> \<not> window_open (paths t p)"
      "m_NRR (paths t p) = m_NRR (paths s2 p)" "m_nr (paths t p) = m_nr (paths s2 p)"
      "m_repeat (paths t p) = m_repeat (paths s2 p)"
    using send_waiting_total by blast
  show ?thesis
    using tk eq link_step_trans [OF l tk(2)]
    by (intro exI [of _ t] exI [of _ k]) (simp add: p2 d_def)
qed

lemma receivedRR_total:
  assumes "path_ok (paths s p)" and "nr \<in> {0..7}"
  shows "\<exists>ok t. m_receivedRR E p nr repetition s = Inr (ok, t) \<and> link_step p s t \<and> path_ok (paths t p)"
proof -
  obtain t where "m_NRAccepted E p nr s = Inr t" "link_step p s t" "path_ok (paths t p)"
    using NRAccepted_total [OF assms] by blast
  then show ?thesis using assms(1) by (auto simp: m_receivedRR_def Let_def)
qed

lemma path_ok_nr:
  assumes "path_ok pa" and "n \<in> {0..7}"
  shows "path_ok (pa\<lparr>m_nr := n\<rparr>)"
  using assms unfolding path_ok_defs by (auto simp: isBULLE_def)

lemma path_ok_times [simp]:
  "path_ok (pa\<lparr>m_last_msg_sent_time := time\<rparr>) = path_ok pa"
  "path_ok (pa\<lparr>m_last_msg_time := time\<rparr>) = path_ok pa"
  "path_ok (pa\<lparr>m_repeat := n\<rparr>) = path_ok pa"
  "path_ok (pa\<lparr>m_last_sarm_sent_time := time\<rparr>) = path_ok pa"
  "path_ok (pa\<lparr>m_last_connected := time\<rparr>) = path_ok pa"
  "path_ok (pa\<lparr>m_nbr_sarm_sent := n\<rparr>) = path_ok pa"
  "path_ok (pa\<lparr>m_name_log := nm\<rparr>) = path_ok pa"
  "path_ok (pa\<lparr>m_connection_state := cs\<rparr>) = path_ok pa"
  "path_ok (pa\<lparr>command_sent := cmds\<rparr>) = path_ok pa"
  "path_ok (pa\<lparr>m_state_changed := b\<rparr>) = path_ok pa"
  "path_ok (pa\<lparr>path_running := b\<rparr>) = path_ok pa"
  "path_ok (pa\<lparr>m_connection_thread := b\<rparr>) = path_ok pa"
  unfolding path_ok_defs by (simp_all add: isBULLE_def)

lemma path_ok_sendFrame [simp]:
  "path_ok (paths (m_sendFrame E p msg pa s) p) = path_ok (paths s p)"
  by (simp add: paths_sendFrame)

lemma path_ok_answer_info:
  assumes "path_ok (paths s p)"
  shows "path_ok (paths (answer_info E p repetition ns_rcv s) p)"
  using assms path_ok_nr [OF assms, of "(m_nr (paths s p) + 1) mod 8"]
  by (auto simp: answer_info_def Let_def)

lemma link_step_answer_info: "link_step p s (answer_info E p repetition ns_rcv s)"
proof -
  have a: "link_step p u (upd_path p (\<lambda>x. x\<lparr>m_last_msg_time := k\<rparr>) (asked u))" for u k
    by (rule link_step_asked_upd) (simp add: same_states_def path_settings.truncate_def)
  have b: "link_step p s (upd_path p (\<lambda>x. x\<lparr>m_nr := (m_nr x + 1) mod 8\<rparr>) s)"
    by (rule link_step_upd_path) (simp add: same_states_def path_settings.truncate_def)
  note link_step_trans [OF b link_step_trans [OF link_step_sendFrame a]]
    link_step_trans [OF link_step_sendFrame a] a
  then show ?thesis by (simp add: answer_info_def Let_def)
qed

lemma sendRR_total:
  assumes "path_ok (paths s p)" and "nr \<in> {0..7}"
  shows "\<exists>ok t. m_sendRR E p repetition ns_rcv nr s = Inr (ok, t) \<and> link_step p s t \<and> path_ok (paths t p)"
proof -
  obtain ok t where r: "m_receivedRR E p nr False s = Inr (ok, t)" "link_step p s t" "path_ok (paths t p)"
    using receivedRR_total [OF assms] by blast
  then show ?thesis
    using path_ok_answer_info [OF r(3)] link_step_trans [OF r(2) link_step_answer_info]
    by (auto simp: m_sendRR_def)
qed

section \<open>Numbering of the messages kept for repetition\<close>

text \<open>
  As long as no message has been taken back for repetition, the messages kept carry the
  numbers from the last acknowledged one up to the next one to be used.
\<close>

definition consecutive :: "HNZPath \<Rightarrow> bool" where
  "consecutive pa \<longleftrightarrow>
     map ns (msg_sent pa) = map (\<lambda>i. (m_NRR pa + int i) mod 8) [0..<length (msg_sent pa)] \<and>
     m_ns pa = (m_NRR pa + int (length (msg_sent pa))) mod 8"

lemma consecutive_sent:
  assumes "consecutive pa"
  shows "consecutive (pa\<lparr>m_last_msg_sent_time := time, last_sent_time := time',
           msg_sent := msg_sent pa @ [m\<lparr>ns := m_ns pa\<rparr>], m_ns := (m_ns pa + 1) mod 8,
           msg_waiting := ms\<rparr>)"
  using assms by (simp add: consecutive_def mod_simps ac_simps)

lemma consecutive_acked:
  assumes "consecutive pa" and "n \<le> length (msg_sent pa)"
    and "nr = (m_NRR pa + int n) mod 8"
  shows "consecutive (pa\<lparr>msg_sent := drop n (msg_sent pa), m_NRR := nr, m_repeat := 0\<rparr>)"
proof -
  let ?len = "length (msg_sent pa)"
  have "map ns (drop n (msg_sent pa)) = drop n (map ns (msg_sent pa))"
    by (simp add: drop_map)
  also have "\<dots> = drop n (map (\<lambda>i. (m_NRR pa + int i) mod 8) [0..<?len])"
    using assms(1) unfolding consecutive_def by simp
  also have "\<dots> = map (\<lambda>i. (m_NRR pa + int (i + n)) mod 8) [0..<?len - n]"
    using assms(2) by (intro nth_equalityI) (auto simp: less_diff_conv algebra_simps)
  also have "\<dots> = map (\<lambda>i. (nr + int i) mod 8) [0..<?len - n]"
    by (simp add: assms(3) mod_simps ac_simps)
  finally have "map ns (drop n (msg_sent pa)) = map (\<lambda>i. (nr + int i) mod 8) [0..<?len - n]" .
  moreover have "m_ns pa = (nr + int (?len - n)) mod 8"
    using assms by (simp add: consecutive_def mod_add_left_eq of_nat_diff)
  ultimately show ?thesis by (simp add: consecutive_def)
qed

lemma consecutive_last_sent [simp]: "consecutive (pa\<lparr>last_sent_time := time\<rparr>) = consecutive pa"
  by (simp add: consecutive_def)

lemma consecutive_dist:
  assumes "consecutive pa" and "length (msg_sent pa) \<le> 7"
  shows "(m_ns pa - m_NRR pa) mod 8 = int (length (msg_sent pa))"
  using assms by (simp add: consecutive_def mod_diff_left_eq)

text \<open>A property that every turn of the loop keeps holds when the loop ends.\<close>

lemma send_waiting_inv:
  assumes "path_ok (paths s p)" and "send_waiting E p s = Some t" and "P (paths s p)"
    and turn: "\<And>pa m ms time time'. P pa \<Longrightarrow> window_open pa \<Longrightarrow>
      P (pa\<lparr>m_last_msg_sent_time := time, last_sent_time := time',
            msg_sent := msg_sent pa @ [m\<lparr>ns := m_ns pa\<rparr>], m_ns := (m_ns pa + 1) mod 8,
            msg_waiting := ms\<rparr>)"
  shows "P (paths t p)"
  using assms(1-3)
proof (induction "msg_waiting (paths s p)" arbitrary: s)
  case Nil
  then show ?case by (simp add: send_waiting_stop)
next
  case (Cons m ms)
  show ?case
  proof (cases "window_open (paths s p)")
    case False
    with Cons show ?thesis by (simp add: send_waiting_stop)
  next
    case True
    define u where "u = pop_waiting p (snd (m_sendInfoImmediately E p m s))"
    have w: "msg_waiting (paths s p) = m # ms" using Cons.hyps(2) by simp
    have nd: "\<not> discarded (paths s p) (payload m)"
      using Cons.prems(1) w by (intro waiting_not_discarded) (auto simp: path_ok_def)
    obtain time time' where up: "paths u p
       = (paths s p)\<lparr>m_last_msg_sent_time := time, last_sent_time := time',
           msg_sent := msg_sent (paths s p) @ [m\<lparr>ns := m_ns (paths s p)\<rparr>],
           m_ns := (m_ns (paths s p) + 1) mod 8, msg_waiting := ms\<rparr>"
      unfolding u_def by (rule paths_turn [OF nd w])
    have "ms = msg_waiting (paths u p)" by (simp add: up)
    moreover have "path_ok (paths u p)"
      unfolding u_def by (rule path_ok_turn [OF Cons.prems(1) w True])
    moreover have "send_waiting E p u = Some t"
      using Cons.prems(2) send_waiting_step [OF w True nd, of E] by (simp add: u_def)
    moreover have "P (paths u p)" unfolding up by (rule turn [OF Cons.prems(3) True])
    ultimately show ?thesis by (rule Cons.hyps(1))
  qed
qed

lemma NRAccepted_inv:
  assumes "path_ok (paths s p)" and "nr \<in> {0..7}" and t: "m_NRAccepted E p nr s = Inr t"
    and start: "\<And>time. P ((paths s p)
      \<lparr>msg_sent := drop (nat ((nr - m_NRR (paths s p)) mod 8)) (msg_sent (paths s p)),
       m_NRR := nr, m_repeat := 0, last_sent_time := time\<rparr>)"
    and turn: "\<And>pa m ms time time'. P pa \<Longrightarrow> window_open pa \<Longrightarrow>
      P (pa\<lparr>m_last_msg_sent_time := time, last_sent_time := time',
            msg_sent := msg_sent pa @ [m\<lparr>ns := m_ns pa\<rparr>], m_ns := (m_ns pa + 1) mod 8,
            msg_waiting := ms\<rparr>)"
  shows "P (paths t p)"
proof -
  define d where "d = nat ((nr - m_NRR (paths s p)) mod 8)"
  define s1 where "s1 = upd_path p (\<lambda>x. x\<lparr>msg_sent := drop d (msg_sent x), m_NRR := nr, m_repeat := 0\<rparr>) s"
  define s2 where "s2 = (if msg_sent (paths s1 p) \<noteq> []
                then upd_path p (\<lambda>x. x\<lparr>last_sent_time := now_ms E s1\<rparr>) (asked s1) else s1)"
  have "m_NRAccepted E p nr s
      = (case send_waiting E p s2 of None \<Rightarrow> Inl No_return | Some s3 \<Rightarrow> Inr s3)"
    unfolding m_NRAccepted_def s2_def s1_def d_def Let_def nrOffset_eq funpow_tl ..
  with t have w: "send_waiting E p s2 = Some t" by (simp split: option.splits)
  have s1p: "paths s1 p = (paths s p)\<lparr>msg_sent := drop d (msg_sent (paths s p)), m_NRR := nr, m_repeat := 0,
      last_sent_time := last_sent_time (paths s p)\<rparr>"
    by (simp add: s1_def)
  have "path_ok (paths s2 p) \<and> P (paths s2 p)"
  proof (cases "msg_sent (paths s1 p) = []")
    case True
    then have "paths s2 p = paths s1 p" by (simp add: s2_def)
    then show ?thesis
      using start [of "last_sent_time (paths s p)"] path_ok_acked [OF assms(1,2)]
      unfolding s1p d_def by simp
  next
    case False
    then have "paths s2 p = (paths s p)\<lparr>msg_sent := drop d (msg_sent (paths s p)), m_NRR := nr,
        m_repeat := 0, last_sent_time := now_ms E s1\<rparr>"
      unfolding s2_def by (simp add: s1p)
    then show ?thesis
      using start path_ok_acked [OF assms(1,2)] unfolding d_def by simp
  qed
  then show ?thesis using send_waiting_inv [OF _ w, of P] turn by blast
qed

lemma NRAccepted_consecutive:
  assumes "path_ok (paths s p)" and "nr \<in> {0..7}" and "consecutive (paths s p)"
    and "length (msg_sent (paths s p)) \<le> 7" and "m_isNRValid (paths s p) nr"
    and t: "m_NRAccepted E p nr s = Inr t"
  shows "consecutive (paths t p)"
    and "nat ((nr - m_NRR (paths s p)) mod 8) \<le> length (msg_sent (paths s p))"
proof -
  define pa where "pa = paths s p"
  define d where "d = nat ((nr - m_NRR pa) mod 8)"
  have n: "numbers_ok pa" using assms(1) by (simp add: path_ok_def pa_def)
  have "(nr - m_NRR pa) mod 8 \<le> int (length (msg_sent pa))"
    using isNRValid_iff [OF n assms(2)] assms(3-5) consecutive_dist [of pa] by (simp add: pa_def)
  then have d: "d \<le> length (msg_sent pa)" by (simp add: d_def nat_le_iff)
  then show "nat ((nr - m_NRR (paths s p)) mod 8) \<le> length (msg_sent (paths s p))"
    by (simp add: d_def pa_def)
  have nr: "nr = (m_NRR pa + int d) mod 8"
    using seq8.add_dist [of nr "m_NRR pa"] assms(2) by (simp add: d_def)
  have "consecutive (pa\<lparr>msg_sent := drop d (msg_sent pa), m_NRR := nr, m_repeat := 0\<rparr>)"
    by (rule consecutive_acked [OF _ d nr]) (use assms(3) in \<open>simp add: pa_def\<close>)
  then have start: "consecutive ((paths s p)
      \<lparr>msg_sent := drop (nat ((nr - m_NRR (paths s p)) mod 8)) (msg_sent (paths s p)),
       m_NRR := nr, m_repeat := 0, last_sent_time := time\<rparr>)" for time
    by (simp add: pa_def d_def)
  show "consecutive (paths t p)"
    by (rule NRAccepted_inv [OF assms(1,2) t, of consecutive]) (use start consecutive_sent in blast)+
qed

end
