(* ===== verification/HNZ_Switch.thy ===== *)
theory HNZ_Switch
  imports HNZ_Window
begin

text \<open>
  Which path is active (\<open>src/hnzconnection.cpp\<close>, from \<open>requestConnectionState\<close> on, and the
  setters of \<open>src/hnzpath.cpp\<close> it calls): a path asks for a connection state, the connection
  decides between active and passive, and hands the activity over when the active path is
  lost.
\<close>

section \<open>Names and audits of a path\<close>

definition connectionState2str :: "ConnectionState \<Rightarrow> string" where
  "connectionState2str st =
     (case st of DISCONNECTED \<Rightarrow> ''disconnected'' | PENDING_HNZ \<Rightarrow> ''pending-hnz''
      | PASSIVE \<Rightarrow> ''passive'' | ACTIVE \<Rightarrow> ''active'')"

definition protocolState2str :: "ProtocolState \<Rightarrow> string" where
  "protocolState2str st =
     (case st of CONNECTION \<Rightarrow> ''CONNECTION'' | INPUT_CONNECTED \<Rightarrow> ''INPUT_CONNECTED''
      | OUTPUT_CONNECTED \<Rightarrow> ''OUTPUT_CONNECTED'' | CONNECTED \<Rightarrow> ''CONNECTED'')"

text \<open>The names of the events, for the log; the map of the code has all of them.\<close>

definition connectionEvent2str :: "ConnectionEvent \<Rightarrow> string" where
  "connectionEvent2str ev =
     (case ev of
        TCP_CNX_ESTABLISHED \<Rightarrow> ''TCP_CNX_ESTABLISHED'' | RECEIVED_SARM \<Rightarrow> ''RECEIVED_SARM''
      | RECEIVED_UA \<Rightarrow> ''RECEIVED_UA'' | TO_RECV \<Rightarrow> ''TO_RECV'' | MAX_SEND \<Rightarrow> ''MAX_SEND''
      | TCP_CNX_LOST \<Rightarrow> ''TCP_CNX_LOST'' | TO_SEND \<Rightarrow> ''TO_SEND'' | RECEIVED_INFO \<Rightarrow> ''RECEIVED_INFO''
      | SEND_TC \<Rightarrow> ''SEND_TC'' | TO_UA \<Rightarrow> ''TO_UA'' | MAX_SARM_SENT \<Rightarrow> ''MAX_SARM_SENT''
      | TO_LASTCG \<Rightarrow> ''TO_LASTCG'' | TO_TCACK \<Rightarrow> ''TO_TCACK'')"

definition isHNZConnected :: "env \<Rightarrow> path_id \<Rightarrow> sys \<Rightarrow> bool" where
  "isHNZConnected E p s \<longleftrightarrow> m_protocol_state (paths s p) = CONNECTED \<and> isTCPConnected E s"

definition m_refreshNameLog :: "path_id \<Rightarrow> sys \<Rightarrow> sys" where
  "m_refreshNameLog p s =
     upd_path p (\<lambda>x. x\<lparr>m_name_log :=
        ''['' @ m_path_name x @ '' - '' @ connectionState2str (m_connection_state x) @ '']''\<rparr>) s"

definition sendAuditSuccess :: "path_id \<Rightarrow> sys \<Rightarrow> sys" where
  "sendAuditSuccess p s =
     (let pa = paths s p;
          activePassive = (if m_connection_state pa = ACTIVE then ''active'' else ''passive'')
      in audit_success ''SRVFL''
           (m_service_name s @ ''-'' @ m_path_letter pa @ ''-'' @ activePassive) True s)"

definition sendAuditFail :: "path_id \<Rightarrow> sys \<Rightarrow> sys" where
  "sendAuditFail p s =
     audit_fail ''SRVFL''
       (m_service_name s @ ''-'' @ m_path_letter (paths s p) @ ''-disconnected'') True s"

definition setConnectionState :: "path_id \<Rightarrow> ConnectionState \<Rightarrow> sys \<Rightarrow> sys" where
  "setConnectionState p newState s =
     (let oldState = m_connection_state (paths s p) in
      if newState \<noteq> oldState
      then
        let s1 = m_refreshNameLog p (upd_path p (\<lambda>x. x\<lparr>m_connection_state := newState\<rparr>) s)
        in if newState = PASSIVE \<or> newState = ACTIVE then sendAuditSuccess p s1
           else if (oldState \<noteq> PENDING_HNZ \<and> newState = DISCONNECTED)
                 \<or> (oldState \<noteq> DISCONNECTED \<and> newState = PENDING_HNZ)
                then sendAuditFail p s1
                else s1
      else s)"

section \<open>The connection's side\<close>

definition getActivePath :: "sys \<Rightarrow> path_id option" where
  "getActivePath s = m_active_path s"

definition path_order :: "path_id list" where
  "path_order = [Path_A, Path_B]"

definition getPassivePath :: "sys \<Rightarrow> path_id option" where
  "getPassivePath s = find (\<lambda>q. m_paths s q \<and> Some q \<noteq> m_active_path s) path_order"

definition conn_updateConnectionStatus :: "ConnectionStatus \<Rightarrow> sys \<Rightarrow> sys" where
  "conn_updateConnectionStatus newState s =
     (let s1 = updateConnectionStatus newState s
      in if newState = CS_NOT_CONNECTED then s1\<lparr>m_sendInitNexConnection := True\<rparr> else s1)"

definition tryActivateOtherPath :: "path_id \<Rightarrow> sys \<Rightarrow> bool \<times> sys" where
  "tryActivateOtherPath p s =
     (if \<not> conn_running s then (False, s)
      else case find (\<lambda>q. m_paths s q \<and> q \<noteq> p \<and> m_connection_state (paths s q) = PASSIVE) path_order of
             None \<Rightarrow> (False, s)
           | Some q \<Rightarrow>
               (True, conn_updateConnectionStatus CS_STARTED
                        (setConnectionState q ACTIVE (s\<lparr>m_active_path := Some q\<rparr>))))"

definition note_first_input :: "path_id \<Rightarrow> sys \<Rightarrow> sys" where
  "note_first_input p s =
     (let st = m_protocol_state (paths s p) in
      if m_first_input_connected s = None \<and> (st = INPUT_CONNECTED \<or> st = CONNECTED)
      then s\<lparr>m_first_input_connected := Some p\<rparr>
      else if m_first_input_connected s = Some p \<and> (st = CONNECTION \<or> st = OUTPUT_CONNECTED)
      then s\<lparr>m_first_input_connected := None\<rparr>
      else s)"

definition requestConnectionState :: "path_id \<Rightarrow> ConnectionState \<Rightarrow> sys \<Rightarrow> sys" where
  "requestConnectionState p newState s =
     (let s1 = note_first_input p s in
      if newState = ACTIVE
      then (if m_active_path s1 = None
            then conn_updateConnectionStatus CS_STARTED
                   (setConnectionState p ACTIVE (s1\<lparr>m_active_path := Some p\<rparr>))
            else setConnectionState p PASSIVE s1)
      else
        let s2 = setConnectionState p newState s1 in
        if m_active_path s2 = Some p
        then let (ok, s4) = tryActivateOtherPath p (s2\<lparr>m_active_path := None, m_gi_repeat := 0\<rparr>)
             in if \<not> ok then conn_updateConnectionStatus CS_NOT_CONNECTED s4 else s4
        else s2)"

definition setConnectionPending :: "path_id \<Rightarrow> sys \<Rightarrow> sys" where
  "setConnectionPending p s = requestConnectionState p PENDING_HNZ s"

definition canPathExtractMessage :: "path_id \<Rightarrow> sys \<Rightarrow> bool" where
  "canPathExtractMessage p s \<longleftrightarrow>
     (if m_active_path s = Some p then True
      else m_first_input_connected s = Some p \<and> m_active_path s = None)"

section \<open>Frame facts\<close>

text \<open>What a change of connection state leaves of a path.\<close>

definition same_link :: "HNZPath \<Rightarrow> HNZPath \<Rightarrow> bool" where
  "same_link x y \<longleftrightarrow>
     y = x\<lparr>m_connection_state := m_connection_state y, m_name_log := m_name_log y\<rparr>"

lemma same_link_refl [simp]: "same_link x x"
  by (simp add: same_link_def)

lemma same_link_fields:
  assumes "same_link x y"
  shows "m_protocol_state y = m_protocol_state x" "msg_sent y = msg_sent x"
    "msg_waiting y = msg_waiting x" "m_nr y = m_nr x" "m_ns y = m_ns x" "m_NRR y = m_NRR x"
    "m_repeat y = m_repeat x" "m_nbr_sarm_sent y = m_nbr_sarm_sent x"
    "m_last_connected y = m_last_connected x" "command_sent y = command_sent x"
    "m_max_sarm y = m_max_sarm x" "path_running y = path_running x"
  by (subst assms [unfolded same_link_def], simp)+

lemma same_link_settings:
  assumes "same_link x y"
  shows "m_anticipation_ratio y = m_anticipation_ratio x" "m_test_msg_send y = m_test_msg_send x"
    "m_path_letter y = m_path_letter x" "m_test_msg_receive y = m_test_msg_receive x"
    "m_remote_address y = m_remote_address x" "m_use_utc y = m_use_utc x"
  by (subst assms [unfolded same_link_def], simp)+

lemma same_link_path_ok: "same_link x y \<Longrightarrow> path_ok y = path_ok x"
proof -
  assume "same_link x y"
  then have "path_ok y = path_ok (x\<lparr>m_connection_state := m_connection_state y, m_name_log := m_name_log y\<rparr>)"
    by (simp add: same_link_def)
  then show ?thesis by simp
qed

lemma setConnectionState_path_only [simp]: "path_only p s (setConnectionState p st s)"
proof -
  have "path_only p s (m_refreshNameLog p (upd_path p f s))" for f
    unfolding m_refreshNameLog_def
    by (rule path_only_trans [OF path_only_upd_path path_only_upd_path])
  then have "path_only p s (emit x (m_refreshNameLog p (upd_path p f s)))"
    and "path_only p s (m_refreshNameLog p (upd_path p f s))" for x f
    by (blast intro: path_only_trans path_only_emit)+
  then show ?thesis
    by (simp add: setConnectionState_def Let_def sendAuditSuccess_def sendAuditFail_def audit_defs)
qed

lemma setConnectionState_state [simp]:
  "m_connection_state (paths (setConnectionState p st s) q)
     = (if q = p then st else m_connection_state (paths s q))"
  by (simp add: setConnectionState_def Let_def sendAuditSuccess_def sendAuditFail_def audit_defs
      m_refreshNameLog_def)

lemma setConnectionState_same_link [simp]: "same_link (paths s q) (paths (setConnectionState p st s) q)"
  by (simp add: setConnectionState_def Let_def sendAuditSuccess_def sendAuditFail_def audit_defs
      m_refreshNameLog_def same_link_def)

lemmas setConnectionState_fields [simp] = path_only_fields [OF setConnectionState_path_only]

lemmas updateConnectionStatus_fields [simp] =
  fledge_only_fields [OF fledge_only_updateConnectionStatus]

lemma conn_updateConnectionStatus_fields [simp]:
  "paths (conn_updateConnectionStatus st s) = paths s"
  "m_paths (conn_updateConnectionStatus st s) = m_paths s"
  "m_active_path (conn_updateConnectionStatus st s) = m_active_path s"
  "m_first_input_connected (conn_updateConnectionStatus st s) = m_first_input_connected s"
  "conn_running (conn_updateConnectionStatus st s) = conn_running s"
  "m_gi_repeat (conn_updateConnectionStatus st s) = m_gi_repeat s"
  "m_connStatus (conn_updateConnectionStatus st s) = st"
  "m_giStatus (conn_updateConnectionStatus st s) = m_giStatus s"
  "m_giInQueue (conn_updateConnectionStatus st s) = m_giInQueue s"
  "m_hnz_conf (conn_updateConnectionStatus st s) = m_hnz_conf s"
  "hnz_remote_address (conn_updateConnectionStatus st s) = hnz_remote_address s"
  "m_daySection (conn_updateConnectionStatus st s) = m_daySection s"
  "hnz_running (conn_updateConnectionStatus st s) = hnz_running s"
  "m_hnz_connection (conn_updateConnectionStatus st s) = m_hnz_connection s"
  "m_gi_repeat_count_max (conn_updateConnectionStatus st s) = m_gi_repeat_count_max s"
  by (simp_all add: conn_updateConnectionStatus_def Let_def fledge_only_fields)

section \<open>Arbitration\<close>

text \<open>
  The path in state \<open>ACTIVE\<close> is the active path; while the connection runs, no path stays
  passive when there is no active one; the status reported to Fledge says whether there is
  an active path.
\<close>

definition exclusive :: "sys \<Rightarrow> bool" where
  "exclusive s \<longleftrightarrow> (\<forall>q. m_connection_state (paths s q) = ACTIVE \<longleftrightarrow> m_active_path s = Some q)"

definition standby_ok :: "sys \<Rightarrow> bool" where
  "standby_ok s \<longleftrightarrow>
     (conn_running s \<longrightarrow> m_active_path s = None \<longrightarrow>
        (\<forall>q. m_paths s q \<longrightarrow> m_connection_state (paths s q) \<noteq> PASSIVE))"

definition status_ok :: "sys \<Rightarrow> bool" where
  "status_ok s \<longleftrightarrow> (m_connStatus s = CS_STARTED \<longleftrightarrow> m_active_path s \<noteq> None)"

definition arbitration_ok :: "sys \<Rightarrow> bool" where
  "arbitration_ok s \<longleftrightarrow> exclusive s \<and> standby_ok s \<and> status_ok s"

lemmas arbitration_defs = arbitration_ok_def exclusive_def standby_ok_def status_ok_def

text \<open>The part of the state arbitration depends on.\<close>

lemma arbitration_cong:
  assumes "\<And>q. m_connection_state (paths t q) = m_connection_state (paths s q)"
    and "m_active_path t = m_active_path s" "m_paths t = m_paths s"
    and "conn_running t = conn_running s" "m_connStatus t = m_connStatus s"
  shows "arbitration_ok t = arbitration_ok s"
  using assms by (simp add: arbitration_defs)

lemma find_path_order_None: "find P path_order = None \<longleftrightarrow> (\<forall>q. \<not> P q)"
proof
  assume "find P path_order = None"
  then have "\<not> P Path_A" "\<not> P Path_B" by (auto simp: path_order_def split: if_splits)
  then show "\<forall>q. \<not> P q" by (metis path_id.exhaust)
qed (simp add: path_order_def)

lemma find_path_order_Some: "find P path_order = Some q \<Longrightarrow> P q"
  by (auto simp: path_order_def split: if_splits)

lemma note_first_input_fields [simp]:
  "paths (note_first_input p s) = paths s" "m_paths (note_first_input p s) = m_paths s"
  "m_active_path (note_first_input p s) = m_active_path s"
  "conn_running (note_first_input p s) = conn_running s"
  "m_connStatus (note_first_input p s) = m_connStatus s"
  "m_giStatus (note_first_input p s) = m_giStatus s"
  "m_gi_repeat (note_first_input p s) = m_gi_repeat s"
  "m_giInQueue (note_first_input p s) = m_giInQueue s"
  "m_hnz_conf (note_first_input p s) = m_hnz_conf s"
  "hnz_remote_address (note_first_input p s) = hnz_remote_address s"
  "m_daySection (note_first_input p s) = m_daySection s"
  "hnz_running (note_first_input p s) = hnz_running s"
  "m_hnz_connection (note_first_input p s) = m_hnz_connection s"
  "m_gi_repeat_count_max (note_first_input p s) = m_gi_repeat_count_max s"
  "m_gi_addresses_received (note_first_input p s) = m_gi_addresses_received s"
  by (simp_all add: note_first_input_def Let_def)

lemma setConnectionState_arbitration:
  assumes "arbitration_ok s" and "st \<noteq> ACTIVE" and "m_active_path s \<noteq> Some p"
    and "st = PASSIVE \<Longrightarrow> m_active_path s \<noteq> None"
  shows "arbitration_ok (setConnectionState p st s)"
  using assms unfolding arbitration_defs by auto

lemma activate_arbitration:
  assumes "\<And>q. m_connection_state (paths s q) \<noteq> ACTIVE"
  shows "arbitration_ok (conn_updateConnectionStatus CS_STARTED
           (setConnectionState p ACTIVE (s\<lparr>m_active_path := Some p\<rparr>)))"
  using assms unfolding arbitration_defs by auto

lemma lost_path_arbitration:
  assumes "\<And>q. m_connection_state (paths s q) \<noteq> ACTIVE"
    and "m_connection_state (paths s p) \<noteq> PASSIVE" and "m_active_path s = None"
    and "tryActivateOtherPath p s = (ok, t)"
  shows "arbitration_ok (if \<not> ok then conn_updateConnectionStatus CS_NOT_CONNECTED t else t)"
proof (cases ok)
  case True
  then obtain q where "t = conn_updateConnectionStatus CS_STARTED
      (setConnectionState q ACTIVE (s\<lparr>m_active_path := Some q\<rparr>))"
    using assms(4) by (auto simp: tryActivateOtherPath_def split: if_splits option.splits)
  with True activate_arbitration [OF assms(1)] show ?thesis by simp
next
  case False
  then have "t = s" and "conn_running s \<Longrightarrow>
      \<forall>q. \<not> (m_paths s q \<and> q \<noteq> p \<and> m_connection_state (paths s q) = PASSIVE)"
    using assms(4)
    by (auto simp: tryActivateOtherPath_def find_path_order_None split: if_splits option.splits)
  with False assms(1-3) show ?thesis unfolding arbitration_defs by auto
qed

text \<open>
  A path that is not active asks to be active, or a path asks for one of the two states
  below: arbitration is kept.
\<close>

lemma request_arbitration:
  assumes "arbitration_ok s" and "st \<noteq> PASSIVE" and "st = ACTIVE \<Longrightarrow> m_active_path s \<noteq> Some p"
  shows "arbitration_ok (requestConnectionState p st s)"
proof -
  define s1 where "s1 = note_first_input p s"
  have s1: "arbitration_ok s1" "m_active_path s1 = m_active_path s"
    using assms(1) arbitration_cong [of s1 s] by (simp_all add: s1_def)
  consider (grant) "st = ACTIVE" "m_active_path s1 = None"
    | (refuse) "st = ACTIVE" "m_active_path s1 \<noteq> None"
    | (lose) "st \<noteq> ACTIVE" "m_active_path s1 = Some p"
    | (other) "st \<noteq> ACTIVE" "m_active_path s1 \<noteq> Some p" by blast
  then show ?thesis
  proof cases
    case grant
    then have "m_connection_state (paths s1 q) \<noteq> ACTIVE" for q
      using s1(1) unfolding arbitration_defs by auto
    from activate_arbitration [OF this] grant show ?thesis
      by (simp add: requestConnectionState_def Let_def s1_def)
  next
    case refuse
    with assms(3) s1(2) have "m_active_path s1 \<noteq> Some p" by simp
    with refuse setConnectionState_arbitration [OF s1(1), of PASSIVE p] show ?thesis
      by (auto simp: requestConnectionState_def Let_def s1_def)
  next
    case lose
    define u where "u = (setConnectionState p st s1)\<lparr>m_active_path := None, m_gi_repeat := 0\<rparr>"
    obtain ok t where r: "tryActivateOtherPath p u = (ok, t)" by fastforce
    have "m_connection_state (paths u q) \<noteq> ACTIVE" for q
      using s1(1) lose unfolding arbitration_defs u_def by auto
    moreover have "m_connection_state (paths u p) \<noteq> PASSIVE" "m_active_path u = None"
      using assms(2) by (simp_all add: u_def)
    ultimately have a: "arbitration_ok (if \<not> ok then conn_updateConnectionStatus CS_NOT_CONNECTED t else t)"
      using r by (rule lost_path_arbitration)
    have "requestConnectionState p st s
        = (if \<not> ok then conn_updateConnectionStatus CS_NOT_CONNECTED t else t)"
      using lose r unfolding requestConnectionState_def Let_def s1_def [symmetric] u_def by simp
    with a show ?thesis by simp
  next
    case other
    with assms(2) setConnectionState_arbitration [OF s1(1), of st p] show ?thesis
      by (simp add: requestConnectionState_def Let_def s1_def)
  qed
qed

section \<open>What a request changes\<close>

lemma tryActivate_cases:
  assumes "tryActivateOtherPath p s = (ok, t)"
  obtains (none) "\<not> ok" "t = s"
  | (other) q where "ok" "q \<noteq> p" "m_paths s q" "m_connection_state (paths s q) = PASSIVE" "conn_running s"
      "t = conn_updateConnectionStatus CS_STARTED
             (setConnectionState q ACTIVE (s\<lparr>m_active_path := Some q\<rparr>))"
proof (cases "conn_running s")
  case False
  with assms none show thesis by (simp add: tryActivateOtherPath_def)
next
  case True
  show thesis
  proof (cases "find (\<lambda>q. m_paths s q \<and> q \<noteq> p \<and> m_connection_state (paths s q) = PASSIVE) path_order")
    case None
    with True assms none show thesis by (simp add: tryActivateOtherPath_def)
  next
    case (Some q)
    with find_path_order_Some [OF Some] True assms show thesis
      by (intro other [of q]) (simp_all add: tryActivateOtherPath_def)
  qed
qed

text \<open>
  The five outcomes of a request: the path becomes active, passive, or takes the state it
  asked for, in which case the activity may move to the other path or be lost.
\<close>

lemma request_cases:
  assumes "t = requestConnectionState p st s"
  obtains (granted) "st = ACTIVE" "m_active_path s = None"
      "t = conn_updateConnectionStatus CS_STARTED
             (setConnectionState p ACTIVE ((note_first_input p s)\<lparr>m_active_path := Some p\<rparr>))"
  | (refused) "st = ACTIVE" "m_active_path s \<noteq> None"
      "t = setConnectionState p PASSIVE (note_first_input p s)"
  | (other) "st \<noteq> ACTIVE" "m_active_path s \<noteq> Some p"
      "t = setConnectionState p st (note_first_input p s)"
  | (lost) u where "st \<noteq> ACTIVE" "m_active_path s = Some p"
      "u = (setConnectionState p st (note_first_input p s))\<lparr>m_active_path := None, m_gi_repeat := 0\<rparr>"
      "tryActivateOtherPath p u = (False, u)"
      "t = conn_updateConnectionStatus CS_NOT_CONNECTED u"
  | (moved) u q where "st \<noteq> ACTIVE" "m_active_path s = Some p"
      "u = (setConnectionState p st (note_first_input p s))\<lparr>m_active_path := None, m_gi_repeat := 0\<rparr>"
      "q \<noteq> p" "m_paths s q" "m_connection_state (paths s q) = PASSIVE" "conn_running s"
      "t = conn_updateConnectionStatus CS_STARTED
             (setConnectionState q ACTIVE (u\<lparr>m_active_path := Some q\<rparr>))"
proof -
  define u where
    "u = (setConnectionState p st (note_first_input p s))\<lparr>m_active_path := None, m_gi_repeat := 0\<rparr>"
  obtain ok v where v: "tryActivateOtherPath p u = (ok, v)" by fastforce
  consider "st = ACTIVE" "m_active_path s = None" | "st = ACTIVE" "m_active_path s \<noteq> None"
    | "st \<noteq> ACTIVE" "m_active_path s \<noteq> Some p" | "st \<noteq> ACTIVE" "m_active_path s = Some p" by blast
  then show thesis
  proof cases
    case 4
    then have t: "t = (if \<not> ok then conn_updateConnectionStatus CS_NOT_CONNECTED v else v)"
      using assms v unfolding requestConnectionState_def Let_def u_def by simp
    from v show thesis
    proof (cases rule: tryActivate_cases)
      case none
      with 4 t v show thesis by (intro lost [OF _ _ u_def]) simp_all
    next
      case (other q)
      with 4 t show thesis by (intro moved [OF _ _ u_def, of q]) (simp_all add: u_def)
    qed
  qed (use assms granted refused other in \<open>auto simp: requestConnectionState_def Let_def\<close>)
qed

lemma same_link_trans: "same_link x y \<Longrightarrow> same_link y z \<Longrightarrow> same_link x z"
proof -
  assume a: "same_link x y" and b: "same_link y z"
  have "z = y\<lparr>m_connection_state := m_connection_state z, m_name_log := m_name_log z\<rparr>"
    using b by (simp add: same_link_def)
  also have "\<dots> = x\<lparr>m_connection_state := m_connection_state z, m_name_log := m_name_log z\<rparr>"
    by (subst a [unfolded same_link_def]) simp
  finally show ?thesis by (simp add: same_link_def)
qed

lemma request_same_link: "same_link (paths s q) (paths (requestConnectionState p st s) q)"
proof -
  define t where "t = requestConnectionState p st s"
  have act: "same_link (paths u q) (paths (setConnectionState r st' v) q)" if "paths v = paths u" for u v r st'
    using setConnectionState_same_link [of v q r st'] that by simp
  have "same_link (paths s q) (paths t q)"
    using t_def
  proof (cases rule: request_cases)
    case (moved u r)
    have "same_link (paths s q) (paths u q)" by (simp add: moved(3) act)
    moreover have "same_link (paths u q) (paths t q)" by (simp add: moved(8) act)
    ultimately show ?thesis by (rule same_link_trans)
  qed (simp_all add: act)
  then show ?thesis by (simp add: t_def)
qed

lemma request_fields [simp]:
  "m_paths (requestConnectionState p st s) = m_paths s"
  "conn_running (requestConnectionState p st s) = conn_running s"
  "m_giStatus (requestConnectionState p st s) = m_giStatus s"
  "m_giInQueue (requestConnectionState p st s) = m_giInQueue s"
  "m_hnz_conf (requestConnectionState p st s) = m_hnz_conf s"
  "hnz_remote_address (requestConnectionState p st s) = hnz_remote_address s"
  "m_daySection (requestConnectionState p st s) = m_daySection s"
  "hnz_running (requestConnectionState p st s) = hnz_running s"
  "m_hnz_connection (requestConnectionState p st s) = m_hnz_connection s"
  "m_gi_repeat_count_max (requestConnectionState p st s) = m_gi_repeat_count_max s"
  by (cases rule: request_cases [OF refl, where p = p and st = st and s = s]; simp)+

lemma request_own_state:
  "m_connection_state (paths (requestConnectionState p st s) p)
     = (if st = ACTIVE then (if m_active_path s = None then ACTIVE else PASSIVE) else st)"
  by (cases rule: request_cases [OF refl, where p = p and st = st and s = s]) simp_all

lemma request_other_state:
  "q \<noteq> p \<Longrightarrow> m_connection_state (paths (requestConnectionState p st s) q) = m_connection_state (paths s q) \<or>
     m_connection_state (paths s q) = PASSIVE \<and>
     m_connection_state (paths (requestConnectionState p st s) q) = ACTIVE"
  by (cases rule: request_cases [OF refl, where p = p and st = st and s = s]) simp_all

lemma request_first_input:
  "m_first_input_connected (requestConnectionState p st s) = m_first_input_connected (note_first_input p s)"
  by (cases rule: request_cases [OF refl, where p = p and st = st and s = s]) simp_all

lemma request_gi_repeat:
  "m_gi_repeat (requestConnectionState p st s)
     = (if st \<noteq> ACTIVE \<and> m_active_path s = Some p then 0 else m_gi_repeat s)"
  by (cases rule: request_cases [OF refl, where p = p and st = st and s = s]) simp_all

end
