(* ===== verification/HNZ_Automaton.thy ===== *)
theory HNZ_Automaton
  imports HNZ_Switch
begin

text \<open>
  The protocol automaton of a path: the transition map of \<open>include/hnzpath.h\<close>, the actions
  its entries run, the events that trigger it (\<open>src/hnzpath.cpp\<close>) and one turn of the thread
  that maintains the connection.  The invariant \<open>sys_ok\<close> joins the queues of every path, the
  agreement of its two states and the arbitration between the paths.
\<close>

section \<open>The automaton\<close>

datatype action =
  Do_setConnectionPending | Do_resetInputVariables | Do_resetOutputVariables | Do_stopTCP
| Do_resolveProtocolStateConnection | Do_resolveProtocolStateConnected
| Do_resetSarmCounters | Do_discardMessages

definition m_protocolStateTransitionMap ::
  "((ProtocolState \<times> ConnectionEvent) \<times> (ProtocolState \<times> action list)) list" where
  "m_protocolStateTransitionMap =
    [((CONNECTION, RECEIVED_SARM),
        (INPUT_CONNECTED, [Do_setConnectionPending, Do_resetInputVariables])),
     ((CONNECTION, RECEIVED_UA),
        (OUTPUT_CONNECTED, [Do_setConnectionPending, Do_resetOutputVariables])),
     ((CONNECTION, MAX_SARM_SENT),
        (CONNECTION, [Do_stopTCP, Do_resolveProtocolStateConnection])),
     ((CONNECTION, TO_RECV),
        (CONNECTION, [Do_stopTCP, Do_resolveProtocolStateConnection])),
     ((INPUT_CONNECTED, RECEIVED_SARM),
        (INPUT_CONNECTED, [Do_setConnectionPending, Do_resetInputVariables])),
     ((INPUT_CONNECTED, TO_RECV),
        (CONNECTION, [Do_resolveProtocolStateConnection])),
     ((INPUT_CONNECTED, RECEIVED_UA),
        (CONNECTED, [Do_resetOutputVariables, Do_resolveProtocolStateConnected])),
     ((INPUT_CONNECTED, MAX_SARM_SENT),
        (CONNECTION, [Do_stopTCP, Do_resolveProtocolStateConnection])),
     ((OUTPUT_CONNECTED, RECEIVED_SARM),
        (CONNECTED, [Do_resetInputVariables, Do_resolveProtocolStateConnected])),
     ((OUTPUT_CONNECTED, MAX_SEND),
        (CONNECTION, [Do_resetSarmCounters, Do_discardMessages, Do_resolveProtocolStateConnection])),
     ((CONNECTED, MAX_SEND),
        (INPUT_CONNECTED, [Do_setConnectionPending, Do_resetSarmCounters, Do_discardMessages,
                           Do_resetInputVariables])),
     ((CONNECTED, TO_TCACK),
        (INPUT_CONNECTED, [Do_setConnectionPending, Do_resetSarmCounters, Do_discardMessages,
                           Do_resetInputVariables])),
     ((CONNECTED, RECEIVED_SARM),
        (INPUT_CONNECTED, [Do_setConnectionPending, Do_resetSarmCounters, Do_discardMessages,
                           Do_resetInputVariables])),
     ((CONNECTED, TO_RECV),
        (OUTPUT_CONNECTED, [Do_setConnectionPending, Do_discardMessages, Do_resetOutputVariables])),
     ((CONNECTION, TCP_CNX_LOST),
        (CONNECTION, [Do_resolveProtocolStateConnection])),
     ((INPUT_CONNECTED, TCP_CNX_LOST),
        (CONNECTION, [Do_resolveProtocolStateConnection])),
     ((OUTPUT_CONNECTED, TCP_CNX_LOST),
        (CONNECTION, [Do_discardMessages, Do_resolveProtocolStateConnection])),
     ((CONNECTED, TCP_CNX_LOST),
        (CONNECTION, [Do_resolveProtocolStateConnection, Do_discardMessages]))]"

definition resolveProtocolStateConnected :: "env \<Rightarrow> path_id \<Rightarrow> sys \<Rightarrow> sys" where
  "resolveProtocolStateConnected E p s =
     (let s1 = requestConnectionState p ACTIVE s
      in upd_path p (\<lambda>x. x\<lparr>m_last_connected := now_ms E s1\<rparr>) (asked s1))"

definition resolveProtocolStateConnection :: "env \<Rightarrow> path_id \<Rightarrow> sys \<Rightarrow> sys" where
  "resolveProtocolStateConnection E p s =
     upd_path p (\<lambda>x. x\<lparr>m_last_sarm_sent_time := 0\<rparr>)
       (resetSarmCounters E p (resetOutputVariables p (resetInputVariables E p
          (requestConnectionState p DISCONNECTED s))))"

definition run_action :: "env \<Rightarrow> path_id \<Rightarrow> action \<Rightarrow> sys \<Rightarrow> sys" where
  "run_action E p a s =
     (case a of
        Do_setConnectionPending \<Rightarrow> setConnectionPending p s
      | Do_resetInputVariables \<Rightarrow> resetInputVariables E p s
      | Do_resetOutputVariables \<Rightarrow> resetOutputVariables p s
      | Do_stopTCP \<Rightarrow> stopTCP p s
      | Do_resolveProtocolStateConnection \<Rightarrow> resolveProtocolStateConnection E p s
      | Do_resolveProtocolStateConnected \<Rightarrow> resolveProtocolStateConnected E p s
      | Do_resetSarmCounters \<Rightarrow> resetSarmCounters E p s
      | Do_discardMessages \<Rightarrow> discardMessages p s)"

definition protocolStateTransition :: "env \<Rightarrow> path_id \<Rightarrow> ConnectionEvent \<Rightarrow> sys \<Rightarrow> sys" where
  "protocolStateTransition E p event s =
     (case map_of m_protocolStateTransitionMap (m_protocol_state (paths s p), event) of
        None \<Rightarrow> s
      | Some (target, actions) \<Rightarrow>
          let state_changed = (m_protocol_state (paths s p) \<noteq> target);
              s1 = fold (run_action E p) actions (upd_path p (\<lambda>x. x\<lparr>m_protocol_state := target\<rparr>) s)
          in if state_changed then upd_path p (\<lambda>x. x\<lparr>m_state_changed := True\<rparr>) s1 else s1)"

section \<open>Events\<close>

definition m_receivedSARM :: "env \<Rightarrow> path_id \<Rightarrow> sys \<Rightarrow> sys" where
  "m_receivedSARM E p s =
     (let s1 = m_sendUA E p s; now = now_ms E s1; s2 = asked s1
      in if now - m_last_connected (paths s2 p) > m_repeat_timeout (paths s2 p)
         then protocolStateTransition E p RECEIVED_SARM s2 else s2)"

definition m_receivedUA :: "env \<Rightarrow> path_id \<Rightarrow> sys \<Rightarrow> sys" where
  "m_receivedUA E p s = protocolStateTransition E p RECEIVED_UA s"

text \<open>
  One turn of the thread of the path; the first component is the time it waits afterwards.
  The products are computed in 32 bits, \<open>m_inacc_timeout\<close> signed and \<open>m_bulle_time\<close>
  unsigned.
\<close>

definition inacc_ms :: "HNZPath \<Rightarrow> int" where
  "inacc_ms pa = s32 (m_inacc_timeout pa * 1000)"

definition bulle_ms :: "HNZPath \<Rightarrow> int" where
  "bulle_ms pa = u32 (m_bulle_time pa * 1000)"

definition manage_unconnected :: "env \<Rightarrow> path_id \<Rightarrow> int \<Rightarrow> sys \<Rightarrow> int \<times> sys" where
  "manage_unconnected E p now s =
     (let pa = paths s p in
      if now - m_last_msg_time pa \<le> inacc_ms pa
      then let since = now - m_last_sarm_sent_time pa;
               pause = (if since \<ge> m_repeat_timeout pa then m_repeat_timeout pa
                        else m_repeat_timeout pa - since)
           in if since < m_repeat_timeout pa then (pause, s)
              else (pause, m_sendSARM E p
                      (if m_nbr_sarm_sent pa = m_max_sarm pa
                       then protocolStateTransition E p MAX_SARM_SENT s else s))
      else (1000, protocolStateTransition E p TO_RECV s))"

definition manage_connected :: "env \<Rightarrow> path_id \<Rightarrow> int \<Rightarrow> sys \<Rightarrow> int \<times> sys" where
  "manage_connected E p now s =
     (let pa = paths s p;
          since_msg = now - m_last_msg_time pa;
          since_sent = now - m_last_msg_sent_time pa;
          (pause, s1) = (if since_sent \<ge> bulle_ms pa then (bulle_ms pa, m_sendBULLE E p s)
                         else (bulle_ms pa - since_sent, s))
      in if since_msg > inacc_ms pa \<and> m_protocol_state (paths s1 p) = CONNECTED
         then (10, protocolStateTransition E p TO_RECV s1) else (pause, s1))"

definition m_manageHNZProtocolState :: "env \<Rightarrow> path_id \<Rightarrow> int \<Rightarrow> sys \<Rightarrow> int \<times> sys" where
  "m_manageHNZProtocolState E p now s =
     (if m_protocol_state (paths s p) \<in> {CONNECTION, INPUT_CONNECTED}
      then manage_unconnected E p now s
      else manage_connected E p now s)"

definition manage_protocol_turn :: "env \<Rightarrow> path_id \<Rightarrow> sys \<Rightarrow> sys" where
  "manage_protocol_turn E p s =
     (let now = now_ms E s; (pause, s1) = m_manageHNZProtocolState E p now (asked s)
      in upd_path p (\<lambda>x. x\<lparr>m_state_changed := False\<rparr>) s1)"

section \<open>Effect of an action\<close>

text \<open>
  The fields of the path after an action, and what an action leaves of the other path and of
  the connection.
\<close>

lemma paths_request:
  "paths (requestConnectionState p st s) p
     = (paths s p)\<lparr>m_connection_state := m_connection_state (paths (requestConnectionState p st s) p),
                    m_name_log := m_name_log (paths (requestConnectionState p st s) p)\<rparr>"
  using request_same_link [of s p p st] by (simp add: same_link_def)

lemma request_settings [simp]:
  "m_anticipation_ratio (paths (requestConnectionState p st s) q) = m_anticipation_ratio (paths s q)"
  "m_test_msg_send (paths (requestConnectionState p st s) q) = m_test_msg_send (paths s q)"
  "m_protocol_state (paths (requestConnectionState p st s) q) = m_protocol_state (paths s q)"
  "msg_sent (paths (requestConnectionState p st s) q) = msg_sent (paths s q)"
  "msg_waiting (paths (requestConnectionState p st s) q) = msg_waiting (paths s q)"
  "m_nr (paths (requestConnectionState p st s) q) = m_nr (paths s q)"
  "m_ns (paths (requestConnectionState p st s) q) = m_ns (paths s q)"
  "m_NRR (paths (requestConnectionState p st s) q) = m_NRR (paths s q)"
  "m_nbr_sarm_sent (paths (requestConnectionState p st s) q) = m_nbr_sarm_sent (paths s q)"
  "m_max_sarm (paths (requestConnectionState p st s) q) = m_max_sarm (paths s q)"
  using same_link_fields [OF request_same_link [of s q p st]]
  by (simp_all add: same_link_settings [OF request_same_link])

lemmas action_defs = run_action_def setConnectionPending_def resolveProtocolStateConnection_def
  resolveProtocolStateConnected_def Let_def resetSarmCounters_def resetInputVariables_def
  resetOutputVariables_def discardMessages_def stopTCP_def

lemma action_path [simp]:
  "m_protocol_state (paths (run_action E p a s) p) = m_protocol_state (paths s p)"
  "m_anticipation_ratio (paths (run_action E p a s) p) = m_anticipation_ratio (paths s p)"
  "m_test_msg_send (paths (run_action E p a s) p) = m_test_msg_send (paths s p)"
  "m_max_sarm (paths (run_action E p a s) p) = m_max_sarm (paths s p)"
  "msg_sent (paths (run_action E p a s) p)
     = (if a = Do_discardMessages then [] else msg_sent (paths s p))"
  "msg_waiting (paths (run_action E p a s) p)
     = (if a = Do_discardMessages then [] else msg_waiting (paths s p))"
  "m_nr (paths (run_action E p a s) p)
     = (if a \<in> {Do_resetInputVariables, Do_resolveProtocolStateConnection} then 0
        else m_nr (paths s p))"
  "m_ns (paths (run_action E p a s) p)
     = (if a \<in> {Do_resetOutputVariables, Do_resolveProtocolStateConnection} then 0
        else m_ns (paths s p))"
  "m_NRR (paths (run_action E p a s) p)
     = (if a \<in> {Do_resetOutputVariables, Do_resolveProtocolStateConnection} then 0
        else m_NRR (paths s p))"
  "m_nbr_sarm_sent (paths (run_action E p a s) p)
     = (if a \<in> {Do_resetSarmCounters, Do_resolveProtocolStateConnection} then 0
        else m_nbr_sarm_sent (paths s p))"
  "m_connection_state (paths (run_action E p a s) p)
     = (case a of Do_setConnectionPending \<Rightarrow> PENDING_HNZ
        | Do_resolveProtocolStateConnection \<Rightarrow> DISCONNECTED
        | Do_resolveProtocolStateConnected \<Rightarrow> if m_active_path s = None then ACTIVE else PASSIVE
        | _ \<Rightarrow> m_connection_state (paths s p))"
  by (cases a; simp add: action_defs request_own_state)+

section \<open>The invariant\<close>

text \<open>
  The connection state of a path follows its protocol state; the number of SARM sent stays
  within the maximum, when there is one; the path noted as the first with an input
  connection has one; the active path exists.
\<close>

definition agree :: "HNZPath \<Rightarrow> bool" where
  "agree pa \<longleftrightarrow>
     (case m_protocol_state pa of
        CONNECTION \<Rightarrow> m_connection_state pa = DISCONNECTED
      | INPUT_CONNECTED \<Rightarrow> m_connection_state pa = PENDING_HNZ
      | OUTPUT_CONNECTED \<Rightarrow> m_connection_state pa = PENDING_HNZ
      | CONNECTED \<Rightarrow> m_connection_state pa \<in> {ACTIVE, PASSIVE})"

lemma agree_cong:
  "m_protocol_state y = m_protocol_state x \<Longrightarrow> m_connection_state y = m_connection_state x \<Longrightarrow>
   agree y = agree x"
  by (cases "m_protocol_state x") (simp_all add: agree_def)

definition sarm_ok :: "HNZPath \<Rightarrow> bool" where
  "sarm_ok pa \<longleftrightarrow>
     (m_max_sarm pa \<ge> 1 \<longrightarrow> 0 \<le> m_nbr_sarm_sent pa \<and> m_nbr_sarm_sent pa \<le> m_max_sarm pa)"

definition link_ok :: "HNZPath \<Rightarrow> bool" where
  "link_ok pa \<longleftrightarrow> path_ok pa \<and> agree pa \<and> sarm_ok pa"

definition first_input_ok :: "path_id \<Rightarrow> sys \<Rightarrow> bool" where
  "first_input_ok p s \<longleftrightarrow>
     (m_first_input_connected s = Some p \<longrightarrow>
        m_protocol_state (paths s p) \<in> {INPUT_CONNECTED, CONNECTED})"

definition present_ok :: "sys \<Rightarrow> bool" where
  "present_ok s \<longleftrightarrow> (\<forall>p. m_active_path s = Some p \<longrightarrow> m_paths s p)"

definition sys_ok :: "sys \<Rightarrow> bool" where
  "sys_ok s \<longleftrightarrow>
     (\<forall>p. link_ok (paths s p) \<and> first_input_ok p s) \<and> arbitration_ok s \<and> present_ok s"

lemma sys_ok_cong:
  assumes "paths t = paths s" "m_paths t = m_paths s" "m_active_path t = m_active_path s"
    "m_first_input_connected t = m_first_input_connected s" "conn_running t = conn_running s"
    "m_connStatus t = m_connStatus s"
  shows "sys_ok t = sys_ok s"
  using assms arbitration_cong [of t s] by (simp add: sys_ok_def first_input_ok_def present_ok_def)

lemma sys_okD:
  assumes "sys_ok s"
  shows "link_ok (paths s p)" "path_ok (paths s p)" "agree (paths s p)" "sarm_ok (paths s p)"
    "first_input_ok p s" "arbitration_ok s" "present_ok s"
  using assms by (simp_all add: sys_ok_def link_ok_def)

lemma active_is_connected:
  assumes "sys_ok s" and "m_active_path s = Some p"
  shows "m_protocol_state (paths s p) = CONNECTED" "m_connection_state (paths s p) = ACTIVE"
proof -
  show st: "m_connection_state (paths s p) = ACTIVE"
    using sys_okD(6) [OF assms(1)] assms(2) by (simp add: arbitration_defs)
  then show "m_protocol_state (paths s p) = CONNECTED"
    using sys_okD(3) [OF assms(1), of p] by (simp add: agree_def split: ProtocolState.splits)
qed

section \<open>Transitions keep the invariant\<close>

definition is_request :: "action \<Rightarrow> bool" where
  "is_request a \<longleftrightarrow> a \<in> {Do_setConnectionPending, Do_resolveProtocolStateConnection,
     Do_resolveProtocolStateConnected}"

definition requested :: "action \<Rightarrow> ConnectionState" where
  "requested a = (case a of Do_setConnectionPending \<Rightarrow> PENDING_HNZ
     | Do_resolveProtocolStateConnected \<Rightarrow> ACTIVE | _ \<Rightarrow> DISCONNECTED)"

text \<open>An action is a request to the connection, or it stays within its path.\<close>

lemma action_effect:
  obtains (request) r where "is_request a" "r = requestConnectionState p (requested a) s"
      "path_only p r (run_action E p a s)"
      "m_connection_state (paths (run_action E p a s) p) = m_connection_state (paths r p)"
      "m_protocol_state (paths r p) = m_protocol_state (paths s p)"
  | (local) "\<not> is_request a" "path_only p s (run_action E p a s)"
      "m_connection_state (paths (run_action E p a s) p) = m_connection_state (paths s p)"
proof (cases "is_request a")
  case True
  have conn: "path_only p r (upd_path p (\<lambda>x. x\<lparr>m_last_sarm_sent_time := 0\<rparr>)
       (resetSarmCounters E p (resetOutputVariables p (resetInputVariables E p r))))" for r
    unfolding resetSarmCounters_def resetOutputVariables_def resetInputVariables_def
    by (intro path_only_trans [OF _ path_only_upd_path] path_only_asked
        path_only_trans [OF _ path_only_asked])
  have up: "path_only p r (upd_path p (\<lambda>x. x\<lparr>m_last_connected := k\<rparr>) (asked r))" for r k
    by (rule path_only_trans [OF path_only_asked path_only_upd_path])
  have "path_only p (requestConnectionState p (requested a) s) (run_action E p a s)"
    using True conn up by (cases a) (simp_all add: is_request_def requested_def run_action_def
        setConnectionPending_def resolveProtocolStateConnection_def
        resolveProtocolStateConnected_def Let_def)
  moreover have "m_connection_state (paths (run_action E p a s) p)
      = m_connection_state (paths (requestConnectionState p (requested a) s) p)"
    using True by (cases a) (simp_all add: is_request_def requested_def request_own_state)
  ultimately show ?thesis by (rule request [OF True refl]) simp
next
  case False
  have "path_only p s (run_action E p a s)"
    using False path_only_trans [OF path_only_asked path_only_upd_path]
    by (cases a) (simp_all add: is_request_def run_action_def resetSarmCounters_def
        resetOutputVariables_def resetInputVariables_def discardMessages_def stopTCP_def)
  moreover have "m_connection_state (paths (run_action E p a s) p) = m_connection_state (paths s p)"
    using False by (cases a) (simp_all add: is_request_def)
  ultimately show ?thesis using False by (intro local)
qed

lemma action_arbitration:
  assumes "arbitration_ok s" and "a = Do_resolveProtocolStateConnected \<Longrightarrow> m_active_path s \<noteq> Some p"
  shows "arbitration_ok (run_action E p a s)"
proof (cases rule: action_effect [of a p s E])
  case (request r)
  have "requested a = ACTIVE \<Longrightarrow> a = Do_resolveProtocolStateConnected" "requested a \<noteq> PASSIVE"
    by (simp_all add: requested_def split: action.splits)
  with assms have "arbitration_ok r"
    unfolding request(2) by (intro request_arbitration) auto
  moreover have "m_connection_state (paths (run_action E p a s) q) = m_connection_state (paths r q)" for q
    using request(4) path_only_paths [OF request(3), of q] by (cases "q = p") simp_all
  ultimately show ?thesis
    using arbitration_cong [of "run_action E p a s" r] path_only_fields [OF request(3)] by simp
next
  case local
  have "m_connection_state (paths (run_action E p a s) q) = m_connection_state (paths s q)" for q
    using local(3) path_only_paths [OF local(2), of q] by (cases "q = p") simp_all
  then show ?thesis
    using assms(1) arbitration_cong [of "run_action E p a s" s] path_only_fields [OF local(2)] by simp
qed

lemma request_present: "present_ok s \<Longrightarrow> m_paths s p \<Longrightarrow> present_ok (requestConnectionState p st s)"
  by (cases rule: request_cases [OF refl, where p = p and st = st and s = s])
    (simp_all add: present_ok_def)

lemma action_present:
  assumes "present_ok s" and "m_paths s p"
  shows "present_ok (run_action E p a s)" and "m_paths (run_action E p a s) = m_paths s"
proof -
  have "present_ok (run_action E p a s) \<and> m_paths (run_action E p a s) = m_paths s"
  proof (cases rule: action_effect [of a p s E])
    case (request r)
    then show ?thesis
      using request_present [OF assms, of "requested a"] path_only_fields [OF request(3)]
      by (simp add: present_ok_def)
  next
    case local
    then show ?thesis
      using assms path_only_fields [OF local(2)] by (simp add: present_ok_def)
  qed
  then show "present_ok (run_action E p a s)" and "m_paths (run_action E p a s) = m_paths s"
    by simp_all
qed

lemma note_first_input_ok:
  "first_input_ok p (note_first_input p s)"
  "q \<noteq> p \<Longrightarrow> first_input_ok q s \<Longrightarrow> first_input_ok q (note_first_input p s)"
  by (cases "m_protocol_state (paths s p)";
      auto simp: first_input_ok_def note_first_input_def Let_def)+

lemma action_first_input:
  "is_request a \<or> first_input_ok p s \<Longrightarrow> first_input_ok p (run_action E p a s)"
  "q \<noteq> p \<Longrightarrow> first_input_ok q s \<Longrightarrow> first_input_ok q (run_action E p a s)"
proof -
  have "(is_request a \<or> first_input_ok p s \<longrightarrow> first_input_ok p (run_action E p a s)) \<and>
    (q \<noteq> p \<longrightarrow> first_input_ok q s \<longrightarrow> first_input_ok q (run_action E p a s))"
  proof (cases rule: action_effect [of a p s E])
    case (request r)
    show ?thesis
      using note_first_input_ok(1) [of p s] note_first_input_ok(2) [of q p s]
        path_only_fields(3) [OF request(3)] path_only_paths [OF request(3), of q]
        same_link_fields(1) [OF request_same_link [of s q p "requested a"]]
      by (auto simp: first_input_ok_def request(2) request_first_input)
  next
    case local
    then show ?thesis
      using path_only_fields(3) [OF local(2)] path_only_paths [OF local(2), of q]
      by (simp add: first_input_ok_def)
  qed
  then show "is_request a \<or> first_input_ok p s \<Longrightarrow> first_input_ok p (run_action E p a s)"
    and "q \<noteq> p \<Longrightarrow> first_input_ok q s \<Longrightarrow> first_input_ok q (run_action E p a s)" by blast+
qed

text \<open>The other path at most goes from passive to active.\<close>

lemma promoted_link_ok:
  assumes "link_ok x" and "same_link x y"
    and "m_connection_state y = m_connection_state x \<or>
         m_connection_state x = PASSIVE \<and> m_connection_state y = ACTIVE"
  shows "link_ok y"
  using assms same_link_path_ok [OF assms(2)] same_link_fields [OF assms(2)]
  by (auto simp: link_ok_def agree_def sarm_ok_def split: ProtocolState.splits)

lemma action_other:
  assumes "q \<noteq> p" and "link_ok (paths s q)"
  shows "link_ok (paths (run_action E p a s) q)"
proof (cases rule: action_effect [of a p s E])
  case (request r)
  then show ?thesis
    using path_only_paths [OF request(3) assms(1)] promoted_link_ok [OF assms(2) request_same_link]
      request_other_state [OF assms(1)] by metis
next
  case local
  then show ?thesis using assms path_only_paths [OF local(2) assms(1)] by simp
qed

text \<open>What a list of actions keeps for the rest of the system.\<close>

lemma actions_rest:
  assumes "present_ok s" and "m_paths s p" and "\<And>q. q \<noteq> p \<Longrightarrow> link_ok (paths s q) \<and> first_input_ok q s"
  shows "present_ok (fold (run_action E p) acts s) \<and>
    (\<forall>q. q \<noteq> p \<longrightarrow> link_ok (paths (fold (run_action E p) acts s) q) \<and>
                   first_input_ok q (fold (run_action E p) acts s))"
  using assms
proof (induction acts arbitrary: s)
  case (Cons a acts)
  show ?case unfolding fold_simps
    by (rule Cons.IH)
      (use Cons.prems action_present [OF Cons.prems(1,2)] action_other action_first_input(2) in auto)
qed simp

lemma actions_first_input:
  "(\<exists>a \<in> set acts. is_request a) \<or> first_input_ok p s \<Longrightarrow>
   first_input_ok p (fold (run_action E p) acts s)"
proof (induction acts arbitrary: s)
  case (Cons a acts)
  then show ?case using action_first_input(1) [of a p s E] by auto
qed simp

lemma actions_arbitration:
  assumes "arbitration_ok s" and "Do_resolveProtocolStateConnected \<in> set acts \<Longrightarrow>
    (\<exists>a. \<not> is_request a \<and> acts = [a, Do_resolveProtocolStateConnected]) \<and> m_active_path s \<noteq> Some p"
  shows "arbitration_ok (fold (run_action E p) acts s)"
proof (cases "Do_resolveProtocolStateConnected \<in> set acts")
  case True
  then obtain a where a: "\<not> is_request a" "acts = [a, Do_resolveProtocolStateConnected]"
      "m_active_path s \<noteq> Some p" using assms(2) by blast
  have "m_active_path (run_action E p a s) = m_active_path s"
    by (cases rule: action_effect [of a p s E]) (use a(1) path_only_fields(2) in auto)
  then show ?thesis using a assms(1) by (auto simp: is_request_def intro!: action_arbitration)
next
  case False
  then show ?thesis using assms(1)
  proof (induction acts arbitrary: s)
    case (Cons a acts)
    have "arbitration_ok (run_action E p a s)"
      using Cons.prems by (intro action_arbitration) auto
    with Cons show ?case by simp
  qed simp
qed

text \<open>The entries of the map, and the path they leave.\<close>

lemma map_entries:
  assumes "map_of m_protocolStateTransitionMap (st, ev) = Some (target, acts)"
  shows "\<exists>a \<in> set acts. is_request a"
    and "Do_resolveProtocolStateConnected \<in> set acts \<Longrightarrow>
      (\<exists>a. \<not> is_request a \<and> acts = [a, Do_resolveProtocolStateConnected]) \<and> st \<noteq> CONNECTED"
proof -
  have "list_all (\<lambda>((st, ev), (target, acts)). list_ex is_request acts \<and>
      (Do_resolveProtocolStateConnected \<in> set acts \<longrightarrow>
         length acts = 2 \<and> \<not> is_request (hd acts) \<and>
         last acts = Do_resolveProtocolStateConnected \<and> st \<noteq> CONNECTED))
      m_protocolStateTransitionMap"
    by (simp add: m_protocolStateTransitionMap_def is_request_def)
  then have *: "list_ex is_request acts \<and>
      (Do_resolveProtocolStateConnected \<in> set acts \<longrightarrow>
         length acts = 2 \<and> \<not> is_request (hd acts) \<and>
         last acts = Do_resolveProtocolStateConnected \<and> st \<noteq> CONNECTED)"
    using map_of_SomeD [OF assms] unfolding list_all_iff by blast
  then show "\<exists>a \<in> set acts. is_request a" by (simp add: list_ex_iff)
  assume "Do_resolveProtocolStateConnected \<in> set acts"
  with * obtain a b where "acts = [a, b]" "\<not> is_request a" "b = Do_resolveProtocolStateConnected"
    "st \<noteq> CONNECTED" by (cases acts; cases "tl acts") auto
  then show "(\<exists>a. \<not> is_request a \<and> acts = [a, Do_resolveProtocolStateConnected]) \<and> st \<noteq> CONNECTED"
    by simp
qed

lemma transition_path_ok:
  assumes "map_of m_protocolStateTransitionMap (m_protocol_state (paths s p), ev) = Some (target, acts)"
    and "link_ok (paths s p)"
  shows "link_ok (paths (fold (run_action E p) acts
           (upd_path p (\<lambda>x. x\<lparr>m_protocol_state := target\<rparr>) s)) p)"
  using map_of_SomeD [OF assms(1)] assms(2)
  unfolding m_protocolStateTransitionMap_def link_ok_def agree_def sarm_ok_def path_ok_defs isBULLE_def
  apply (simp only: list.set insert_iff empty_iff prod.inject simp_thms)
  apply (elim disjE conjE)
  apply (simp_all)
  done

lemma state_changed_ok:
  "sys_ok (upd_path p (\<lambda>x. x\<lparr>m_state_changed := b\<rparr>) s) = sys_ok s"
proof -
  define t where "t = upd_path p (\<lambda>x. x\<lparr>m_state_changed := b\<rparr>) s"
  have "link_ok (paths t q) = link_ok (paths s q)" for q
    by (cases "q = p"; cases "m_protocol_state (paths s p)")
      (simp_all add: t_def link_ok_def agree_def sarm_ok_def)
  moreover have "arbitration_ok t = arbitration_ok s"
    by (rule arbitration_cong) (simp_all add: t_def upd_path_def)
  moreover have "first_input_ok q t = first_input_ok q s" "present_ok t = present_ok s" for q
    by (simp_all add: t_def first_input_ok_def present_ok_def upd_path_def)
  ultimately show ?thesis by (simp add: sys_ok_def t_def)
qed

lemma transition_sys_ok:
  assumes "sys_ok s" and "m_paths s p"
  shows "sys_ok (protocolStateTransition E p ev s)"
proof (cases "map_of m_protocolStateTransitionMap (m_protocol_state (paths s p), ev)")
  case None
  with assms show ?thesis by (simp add: protocolStateTransition_def)
next
  case (Some entry)
  obtain target acts where e: "entry = (target, acts)" by (cases entry)
  note entry = Some [unfolded e]
  define s0 where "s0 = upd_path p (\<lambda>x. x\<lparr>m_protocol_state := target\<rparr>) s"
  have s0: "present_ok s0" "m_paths s0 p" "arbitration_ok s0"
    "\<And>q. q \<noteq> p \<Longrightarrow> link_ok (paths s0 q) \<and> first_input_ok q s0"
    "m_active_path s0 = m_active_path s"
    using sys_okD [OF assms(1)] assms(2) arbitration_cong [of s0 s]
    by (simp_all add: s0_def present_ok_def first_input_ok_def upd_path_def)
  have "m_protocol_state (paths s p) \<noteq> CONNECTED \<Longrightarrow> m_active_path s \<noteq> Some p"
    using active_is_connected(1) [OF assms(1)] by auto
  then have "arbitration_ok (fold (run_action E p) acts s0)"
    using map_entries(2) [OF entry] s0(3,5) by (intro actions_arbitration) auto
  moreover have "link_ok (paths (fold (run_action E p) acts s0) p)"
    unfolding s0_def by (rule transition_path_ok [OF entry sys_okD(1) [OF assms(1)]])
  moreover have "first_input_ok p (fold (run_action E p) acts s0)"
    using map_entries(1) [OF entry] by (intro actions_first_input) blast
  ultimately have "sys_ok (fold (run_action E p) acts s0)"
    using actions_rest [OF s0(1,2,4)] unfolding sys_ok_def by metis
  then show ?thesis
    using Some e by (simp add: protocolStateTransition_def Let_def state_changed_ok s0_def)
qed

section \<open>Operations of one path\<close>

text \<open>
  An operation that stays within one path and keeps the invariant of its queues keeps the
  invariant of the system.
\<close>

lemma link_step_sys_ok:
  assumes "sys_ok s" and "link_step p s t" and "path_ok (paths t p)"
  shows "sys_ok t"
proof -
  have po: "path_only p s t" and ss: "same_states (paths s p) (paths t p)"
    using assms(2) by (simp_all add: link_step_def)
  have q: "q \<noteq> p \<Longrightarrow> paths t q = paths s q" for q by (rule path_only_paths [OF po])
  have st: "m_protocol_state (paths t q) = m_protocol_state (paths s q)"
    "m_connection_state (paths t q) = m_connection_state (paths s q)" for q
    using q [of q] same_states_settings [OF ss] by (cases "q = p"; simp)+
  have "link_ok (paths t q)" for q
    using sys_okD(1) [OF assms(1), of q] assms(3) q [of q] st same_states_settings [OF ss]
      agree_cong [of "paths t q" "paths s q"]
    by (cases "q = p") (simp_all add: link_ok_def sarm_ok_def)
  moreover have "arbitration_ok t"
    using sys_okD(6) [OF assms(1)] arbitration_cong [of t s] st path_only_fields [OF po] by simp
  ultimately show ?thesis
    using sys_okD(5,7) [OF assms(1)] st path_only_fields [OF po]
    by (simp add: sys_ok_def first_input_ok_def present_ok_def)
qed

locale link_operation =
  fixes op :: "env \<Rightarrow> path_id \<Rightarrow> sys \<Rightarrow> sys"
  assumes frame: "link_step p s (op E p s)"
    and keeps: "path_ok (paths s p) \<Longrightarrow> path_ok (paths (op E p s) p)"
begin

lemma sys_ok: "sys_ok s \<Longrightarrow> sys_ok (op E p s)"
  using link_step_sys_ok frame keeps sys_okD(2) by blast

lemma states:
  "m_protocol_state (paths (op E p s) q) = m_protocol_state (paths s q)"
  "m_connection_state (paths (op E p s) q) = m_connection_state (paths s q)"
  "m_nbr_sarm_sent (paths (op E p s) q) = m_nbr_sarm_sent (paths s q)"
  "m_max_sarm (paths (op E p s) q) = m_max_sarm (paths s q)"
  using frame [of p s E] path_only_paths [of p s "op E p s" q]
  by (cases "q = p"; simp add: link_step_def same_states_settings)+

lemma others: "q \<noteq> p \<Longrightarrow> paths (op E p s) q = paths s q"
  using frame [of p s E] path_only_paths [of p s "op E p s"] by (simp add: link_step_def)

lemma connection:
  "m_paths (op E p s) = m_paths s" "m_active_path (op E p s) = m_active_path s"
  "m_first_input_connected (op E p s) = m_first_input_connected s"
  "conn_running (op E p s) = conn_running s" "m_connStatus (op E p s) = m_connStatus s"
  "m_giStatus (op E p s) = m_giStatus s" "m_gi_repeat (op E p s) = m_gi_repeat s"
  "m_hnz_conf (op E p s) = m_hnz_conf s" "m_giInQueue (op E p s) = m_giInQueue s"
  using path_only_fields [of p s "op E p s"] frame [of p s E] by (simp_all add: link_step_def)

end

lemma sendInfo_path_ok_snd: "path_ok (paths s p) \<Longrightarrow> path_ok (paths (snd (m_sendInfo E p msg s)) p)"
  using sendInfo_path_ok [of E p msg s "fst (m_sendInfo E p msg s)"] by simp

lemma link_step_asked_sendInfo: "link_step p s (snd (m_sendInfo E p msg (asked s)))"
  by (rule link_step_trans [OF link_step_asked link_step_sendInfo])

interpretation bulle: link_operation m_sendBULLE
  by unfold_locales
    (simp_all add: m_sendBULLE_def Let_def link_step_sendInfo sendInfo_path_ok_snd)

interpretation date_setting: link_operation m_send_date_setting
  by unfold_locales
    (simp_all add: m_send_date_setting_def Let_def link_step_asked_sendInfo sendInfo_path_ok_snd)

interpretation send_ua: link_operation m_sendUA
  by unfold_locales (simp_all add: m_sendUA_def)

interpretation received_bulle: link_operation m_receivedBULLE
  by unfold_locales (simp_all add: m_receivedBULLE_def link_step_asked_upd same_states_def
      path_settings.truncate_def)

interpretation ask: link_operation "\<lambda>E p. asked"
  by unfold_locales simp_all

interpretation discard: link_operation "\<lambda>E. discardMessages"
proof unfold_locales
  show "link_step p s (discardMessages p s)" for p s
    unfolding discardMessages_def
    by (rule link_step_upd_path) (simp add: same_states_def path_settings.truncate_def)
  show "path_ok (paths s p) \<Longrightarrow> path_ok (paths (discardMessages p s) p)" for p s
    unfolding path_ok_defs discardMessages_def by simp
qed

interpretation state_seen: link_operation "\<lambda>E p. upd_path p (\<lambda>x. x\<lparr>m_state_changed := False\<rparr>)"
  by unfold_locales (simp_all add: link_step_upd_path same_states_def path_settings.truncate_def)

section \<open>The thread of the path\<close>

lemma transition_state:
  assumes "map_of m_protocolStateTransitionMap (m_protocol_state (paths s p), ev) = Some (target, acts)"
  shows "m_protocol_state (paths (protocolStateTransition E p ev s) p) = target"
proof -
  have "m_protocol_state (paths (fold (run_action E p) acts t) p) = m_protocol_state (paths t p)" for t
    by (induction acts arbitrary: t) simp_all
  then show ?thesis using assms by (simp add: protocolStateTransition_def Let_def)
qed

lemma receivedSARM_sys_ok: "sys_ok s \<Longrightarrow> m_paths s p \<Longrightarrow> sys_ok (m_receivedSARM E p s)"
  by (simp add: m_receivedSARM_def Let_def transition_sys_ok send_ua.sys_ok ask.sys_ok
      send_ua.connection ask.connection)

lemma receivedUA_sys_ok: "sys_ok s \<Longrightarrow> m_paths s p \<Longrightarrow> sys_ok (m_receivedUA E p s)"
  by (simp add: m_receivedUA_def transition_sys_ok)

text \<open>A SARM may be sent while the counter is below the maximum.\<close>

lemma sendSARM_sys_ok:
  assumes "sys_ok s" and "m_max_sarm (paths s p) \<ge> 1 \<Longrightarrow> m_nbr_sarm_sent (paths s p) < m_max_sarm (paths s p)"
  shows "sys_ok (m_sendSARM E p s)"
proof -
  define s1 where "s1 = m_sendFrame E p [SARM_CODE E] False s"
  have l: "link_step p s s1" by (simp add: s1_def)
  have s1: "sys_ok s1" by (rule link_step_sys_ok [OF assms(1) l]) (simp add: s1_def sys_okD(2) [OF assms(1)])
  have n: "m_max_sarm (paths s1 p) \<ge> 1 \<longrightarrow> m_nbr_sarm_sent (paths s1 p) < m_max_sarm (paths s1 p)"
    using assms(2) l same_states_settings [of "paths s p" "paths s1 p"] by (simp add: link_step_def)
  define t where "t = m_sendSARM E p s"
  have t: "t = upd_path p (\<lambda>x. x\<lparr>m_nbr_sarm_sent := m_nbr_sarm_sent x + 1,
                             m_last_sarm_sent_time := now_ms E s1\<rparr>) (asked s1)"
    by (simp add: t_def m_sendSARM_def Let_def s1_def)
  have "link_ok (paths t q)" for q
    using sys_okD(1) [OF s1, of q] n
    by (cases "q = p"; cases "m_protocol_state (paths s1 q)")
      (auto simp: t link_ok_def agree_def sarm_ok_def)
  moreover have "arbitration_ok t"
    using sys_okD(6) [OF s1] arbitration_cong [of t s1] by (simp add: t upd_path_def asked_def)
  moreover have "first_input_ok q t" "present_ok t" for q
    using sys_okD(5,7) [OF s1] by (simp_all add: t first_input_ok_def present_ok_def upd_path_def asked_def)
  ultimately show ?thesis by (simp add: sys_ok_def t_def)
qed

lemma max_sarm_resets:
  assumes "m_protocol_state (paths s p) \<in> {CONNECTION, INPUT_CONNECTED}"
  shows "m_nbr_sarm_sent (paths (protocolStateTransition E p MAX_SARM_SENT s) p) = 0"
    and "m_max_sarm (paths (protocolStateTransition E p MAX_SARM_SENT s) p) = m_max_sarm (paths s p)"
  using assms by (auto simp: protocolStateTransition_def m_protocolStateTransitionMap_def Let_def)

lemma manage_protocol_sys_ok:
  assumes "sys_ok s" and "m_paths s p"
  shows "sys_ok (snd (m_manageHNZProtocolState E p now s))"
proof (cases "m_protocol_state (paths s p) \<in> {CONNECTION, INPUT_CONNECTED}")
  case True
  note sarm = sys_okD(4) [OF assms(1), of p]
  have "sys_ok (m_sendSARM E p (if m_nbr_sarm_sent (paths s p) = m_max_sarm (paths s p)
          then protocolStateTransition E p MAX_SARM_SENT s else s))"
    using sarm max_sarm_resets [OF True, of E] transition_sys_ok [OF assms] assms(1)
    by (intro sendSARM_sys_ok) (auto simp: sarm_ok_def)
  with True assms transition_sys_ok [OF assms] show ?thesis
    by (simp add: m_manageHNZProtocolState_def manage_unconnected_def Let_def)
next
  case False
  have "sys_ok (m_sendBULLE E p s)" "m_paths (m_sendBULLE E p s) p"
    using assms by (simp_all add: bulle.sys_ok bulle.connection)
  with assms False show ?thesis
    by (auto simp: m_manageHNZProtocolState_def manage_connected_def Let_def transition_sys_ok)
qed

lemma manage_turn_sys_ok:
  assumes "sys_ok s" and "m_paths s p"
  shows "sys_ok (manage_protocol_turn E p s)"
proof -
  have "sys_ok (snd (m_manageHNZProtocolState E p (now_ms E s) (asked s)))"
    using assms by (intro manage_protocol_sys_ok) (simp_all add: ask.sys_ok ask.connection)
  then show ?thesis
    by (simp add: manage_protocol_turn_def Let_def case_prod_beta state_changed_ok)
qed

end
