(* ===== verification/HNZ_GI.thy ===== *)
theory HNZ_GI
  imports HNZ_Automaton
begin

text \<open>
  The general interrogation (GI): sending a request, counting and timing it, its repetition
  and its end, the scheduled GI of the day and the messages of a new connection
  (\<open>sendGeneralInterrogation\<close>, \<open>m_send_time_setting\<close>, \<open>sendInitMessages\<close> of
  \<open>src/hnzpath.cpp\<close>; \<open>notifyGIsent\<close>, \<open>onGICompleted\<close>, \<open>checkGICompleted\<close>, \<open>m_check_GI\<close> of
  \<open>src/hnzconnection.cpp\<close>; \<open>GICompleted\<close> of \<open>src/hnz.cpp\<close>).
\<close>

section \<open>Operations\<close>

definition notifyGIsent :: "env \<Rightarrow> sys \<Rightarrow> sys" where
  "notifyGIsent E s =
     (let s1 = (if m_gi_repeat s = 0 \<or> getGiStatus s \<noteq> GI_IN_PROGRESS
                then updateGiStatus GI_STARTED s else s)
      in (asked s1)\<lparr>m_gi_repeat := m_gi_repeat s1 + 1, m_gi_start_time := now_ms E s1\<rparr>)"

definition gi_message :: "byte list" where
  "gi_message = [0x13, 0x01]"

definition sendGeneralInterrogation :: "env \<Rightarrow> path_id \<Rightarrow> sys \<Rightarrow> sys" where
  "sendGeneralInterrogation E p s =
     (let (sent, s1) = m_sendInfo E p gi_message s in if sent then notifyGIsent E s1 else s1)"

definition sendInitMessages :: "env \<Rightarrow> path_id \<Rightarrow> sys \<Rightarrow> sys" where
  "sendInitMessages E p s =
     upd_path p (\<lambda>x. x\<lparr>m_last_connected := 0\<rparr>)
       (sendGeneralInterrogation E p (m_send_time_setting E p (m_send_date_setting E p s)))"

definition onGICompleted :: "sys \<Rightarrow> sys" where
  "onGICompleted s = s\<lparr>m_gi_repeat := 0\<rparr>"

text \<open>The end of \<open>GICompleted\<close>: the delayed GI starts, on an active path that must be there.\<close>

definition start_delayed_GI :: "env \<Rightarrow> sys \<Rightarrow> sys res" where
  "start_delayed_GI E s =
     (if m_giInQueue s
      then case getActivePath s of
             None \<Rightarrow> Inl Null_deref
           | Some p \<Rightarrow> Inr ((sendGeneralInterrogation E p s)\<lparr>m_giInQueue := False\<rparr>)
      else Inr s)"

definition GICompleted :: "env \<Rightarrow> bool \<Rightarrow> sys \<Rightarrow> sys res" where
  "GICompleted E success s =
     (let s1 = onGICompleted s in
      ebind (m_sendAllTSQualityReadings E True False (m_gi_addresses_received s1) s1) (\<lambda>s2.
      start_delayed_GI E
        (resetGIQueue (updateGiStatus (if success then GI_FINISHED else GI_FAILED) s2))))"

definition checkGICompleted :: "env \<Rightarrow> bool \<Rightarrow> sys \<Rightarrow> sys res" where
  "checkGICompleted E success s =
     (if success then GICompleted E True s
      else if m_gi_repeat s > m_gi_repeat_count_max s then GICompleted E False s
      else
        let s1 = resetGIQueue s in
        case m_active_path s1 of
          None \<Rightarrow> Inr s1
        | Some p \<Rightarrow> Inr (sendGeneralInterrogation E p s1))"

text \<open>The GI that unit tests ask for: \<open>HNZConnection::sendInitialGI\<close>, and the same of \<open>HNZ\<close>.\<close>

definition connection_sendInitialGI :: "env \<Rightarrow> sys \<Rightarrow> sys" where
  "connection_sendInitialGI E s =
     (case m_active_path s of
        None \<Rightarrow> s
      | Some p \<Rightarrow> sendGeneralInterrogation E p (s\<lparr>m_gi_repeat := 0\<rparr>))"

definition sendInitialGI :: "env \<Rightarrow> sys \<Rightarrow> sys res" where
  "sendInitialGI E s =
     (if \<not> m_hnz_connection s then Inl Null_deref else Inr (connection_sendInitialGI E s))"

text \<open>
  The scheduled time of the day, in milliseconds since 1970: a sum of \<open>uint64_t\<close>, which
  wraps, and an \<open>int\<close> product.
\<close>

definition day_ms :: int where "day_ms = 86400000"

definition schedule_ms :: "GIScheduleFormat \<Rightarrow> int" where
  "schedule_ms g = s32 ((hour g * 60 + minute g) * 60000)"

definition gi_time_of_day :: "sys \<Rightarrow> int" where
  "gi_time_of_day s =
     s64 (u64 (m_current s - m_current s mod day_ms + schedule_ms (m_gi_schedule s)))"

definition gi_timed_out :: "sys \<Rightarrow> bool" where
  "gi_timed_out s \<longleftrightarrow> m_gi_repeat s \<noteq> 0 \<and> u64 (m_gi_start_time s + m_gi_time_max s) < m_current s"

definition new_day :: "sys \<Rightarrow> sys" where
  "new_day s =
     (if m_days_since_epoch s \<noteq> m_current s div day_ms
      then s\<lparr>m_gi_schedule_already_sent := False, m_gi_scheduled_time := gi_time_of_day s,
             m_days_since_epoch := m_current s div day_ms\<rparr>
      else s)"

definition scheduled_GI :: "env \<Rightarrow> sys \<Rightarrow> sys" where
  "scheduled_GI E s =
     (if activate (m_gi_schedule s) \<and> \<not> m_gi_schedule_already_sent s \<and>
         u64 (m_gi_scheduled_time s) \<le> m_current s
      then (case m_active_path s of
              None \<Rightarrow> s | Some p \<Rightarrow> sendGeneralInterrogation E p s)\<lparr>m_gi_schedule_already_sent := True\<rparr>
      else s)"

definition m_check_GI :: "env \<Rightarrow> sys \<Rightarrow> sys res" where
  "m_check_GI E s =
     ebind (if gi_timed_out s then checkGICompleted E False s else Inr s) (\<lambda>s1.
     Inr (scheduled_GI E (new_day s1)))"

section \<open>The invariant of the GI\<close>

text \<open>
  While a GI is counted its status says so and there is an active path, on which it was
  sent.  The converse does not hold: the counter is reset, but not the status, when the
  active path is lost.
\<close>

lemmas updateGiStatus_fields [simp] = fledge_only_fields [OF fledge_only_updateGiStatus]

definition gi_ok :: "sys \<Rightarrow> bool" where
  "gi_ok s \<longleftrightarrow>
     0 \<le> m_gi_repeat s \<and>
     (m_gi_repeat s \<noteq> 0 \<longrightarrow> m_giStatus s \<in> {GI_STARTED, GI_IN_PROGRESS} \<and> m_active_path s \<noteq> None)"

definition plugin_ok :: "sys \<Rightarrow> bool" where
  "plugin_ok s \<longleftrightarrow> sys_ok s \<and> gi_ok s"

text \<open>The fields the invariant depends on.\<close>

lemma inv_cong:
  assumes "paths t = paths s" "m_paths t = m_paths s" "m_active_path t = m_active_path s"
    "m_first_input_connected t = m_first_input_connected s" "conn_running t = conn_running s"
    "m_connStatus t = m_connStatus s" "m_gi_repeat t = m_gi_repeat s" "m_giStatus t = m_giStatus s"
  shows "plugin_ok t = plugin_ok s"
  using assms sys_ok_cong [of t s] by (simp add: plugin_ok_def gi_ok_def)

lemma inv_active_present: "plugin_ok s \<Longrightarrow> m_active_path s = Some p \<Longrightarrow> m_paths s p"
  using sys_okD(7) by (simp add: plugin_ok_def present_ok_def)

lemma updateGiStatus_inv:
  assumes "sys_ok s" and "gi_ok (s\<lparr>m_giStatus := st\<rparr>)"
  shows "plugin_ok (updateGiStatus st s)"
proof -
  note f = fledge_only_fields [OF fledge_only_updateGiStatus [of s st]]
  have "sys_ok (updateGiStatus st s)"
    using assms(1) sys_ok_cong [of "updateGiStatus st s" s] f by simp
  with assms(2) show ?thesis by (simp add: plugin_ok_def gi_ok_def f)
qed

text \<open>An operation of one path keeps the whole invariant.\<close>

lemma link_step_inv:
  assumes "plugin_ok s" and "link_step p s t" and "path_ok (paths t p)"
  shows "plugin_ok t"
proof -
  have "path_only p s t" using assms(2) by (simp add: link_step_def)
  then show ?thesis
    using assms link_step_sys_ok [OF _ assms(2,3)] path_only_fields [of p s t]
    by (simp add: plugin_ok_def gi_ok_def)
qed

lemma sendInfo_inv: "plugin_ok s \<Longrightarrow> plugin_ok (snd (m_sendInfo E p msg s))"
  using link_step_inv link_step_sendInfo sendInfo_path_ok_snd sys_okD(2)
  unfolding plugin_ok_def by blast

lemma notifyGIsent_inv:
  assumes "plugin_ok s" and "m_active_path s \<noteq> None"
  shows "plugin_ok (notifyGIsent E s)"
proof -
  define s1 where "s1 = (if m_gi_repeat s = 0 \<or> getGiStatus s \<noteq> GI_IN_PROGRESS
                then updateGiStatus GI_STARTED s else s)"
  note f = fledge_only_fields [OF fledge_only_updateGiStatus [of s GI_STARTED]]
  have "plugin_ok (updateGiStatus GI_STARTED s)"
    by (rule updateGiStatus_inv) (use assms in \<open>simp_all add: plugin_ok_def gi_ok_def\<close>)
  with assms(1) have 1: "plugin_ok s1" by (simp add: s1_def)
  have 2: "m_giStatus s1 \<in> {GI_STARTED, GI_IN_PROGRESS}" "m_active_path s1 \<noteq> None"
    using assms f by (auto simp: s1_def plugin_ok_def gi_ok_def getGiStatus_def)
  define t where "t = notifyGIsent E s"
  have t: "t = (asked s1)\<lparr>m_gi_repeat := m_gi_repeat s1 + 1, m_gi_start_time := now_ms E s1\<rparr>"
    by (simp add: t_def notifyGIsent_def Let_def s1_def)
  have "sys_ok t" using 1 sys_ok_cong [of t s1] by (simp add: t plugin_ok_def asked_def)
  moreover have "gi_ok t" using 1 2 by (simp add: t plugin_ok_def gi_ok_def asked_def)
  ultimately show ?thesis by (simp add: plugin_ok_def t_def)
qed

text \<open>A message is only accepted on a connected path; for the active path that is always so.\<close>

lemma sendInfo_connection:
  "m_active_path (snd (m_sendInfo E p msg s)) = m_active_path s"
  "m_paths (snd (m_sendInfo E p msg s)) = m_paths s"
  "m_hnz_conf (snd (m_sendInfo E p msg s)) = m_hnz_conf s"
  "m_giInQueue (snd (m_sendInfo E p msg s)) = m_giInQueue s"
  "m_gi_repeat (snd (m_sendInfo E p msg s)) = m_gi_repeat s"
  "hnz_remote_address (snd (m_sendInfo E p msg s)) = hnz_remote_address s"
  "hnz_running (snd (m_sendInfo E p msg s)) = hnz_running s"
  "m_hnz_connection (snd (m_sendInfo E p msg s)) = m_hnz_connection s"
  "m_gi_repeat_count_max (snd (m_sendInfo E p msg s)) = m_gi_repeat_count_max s"
  "m_gi_schedule (snd (m_sendInfo E p msg s)) = m_gi_schedule s"
  "m_giStatus (snd (m_sendInfo E p msg s)) = m_giStatus s"
  using link_step_sendInfo [of p s E msg] path_only_fields [of p s "snd (m_sendInfo E p msg s)"]
  by (simp_all add: link_step_def)

lemma sendGI_inv:
  assumes "plugin_ok s" and "m_active_path s \<noteq> None"
  shows "plugin_ok (sendGeneralInterrogation E p s)"
proof -
  obtain sent t where r: "m_sendInfo E p gi_message s = (sent, t)" by fastforce
  then have "plugin_ok t" "m_active_path t \<noteq> None"
    using sendInfo_inv [OF assms(1), of E p gi_message] sendInfo_connection(1) [of E p gi_message s] assms(2)
    by simp_all
  with r notifyGIsent_inv show ?thesis by (simp add: sendGeneralInterrogation_def)
qed

section \<open>Every operation of the GI keeps the invariant\<close>

text \<open>What \<open>notifyGIsent\<close> and a GI request leave of the rest of the state.\<close>

lemma notifyGIsent_fields:
  "paths (notifyGIsent E s) = paths s" "m_paths (notifyGIsent E s) = m_paths s"
  "m_active_path (notifyGIsent E s) = m_active_path s"
  "m_hnz_conf (notifyGIsent E s) = m_hnz_conf s"
  "hnz_remote_address (notifyGIsent E s) = hnz_remote_address s"
  "hnz_running (notifyGIsent E s) = hnz_running s"
  "m_hnz_connection (notifyGIsent E s) = m_hnz_connection s"
  "m_giInQueue (notifyGIsent E s) = m_giInQueue s"
  "m_gi_repeat_count_max (notifyGIsent E s) = m_gi_repeat_count_max s"
  "m_gi_schedule (notifyGIsent E s) = m_gi_schedule s"
  "m_gi_repeat (notifyGIsent E s) = m_gi_repeat s + 1"
  by (simp_all add: notifyGIsent_def Let_def asked_def
      fledge_only_fields [OF fledge_only_updateGiStatus])

lemma sendGI_fields:
  "m_active_path (sendGeneralInterrogation E p s) = m_active_path s"
  "m_paths (sendGeneralInterrogation E p s) = m_paths s"
  "m_hnz_conf (sendGeneralInterrogation E p s) = m_hnz_conf s"
  "hnz_remote_address (sendGeneralInterrogation E p s) = hnz_remote_address s"
  "hnz_running (sendGeneralInterrogation E p s) = hnz_running s"
  "m_hnz_connection (sendGeneralInterrogation E p s) = m_hnz_connection s"
  "m_giInQueue (sendGeneralInterrogation E p s) = m_giInQueue s"
  "m_gi_repeat_count_max (sendGeneralInterrogation E p s) = m_gi_repeat_count_max s"
  "m_gi_schedule (sendGeneralInterrogation E p s) = m_gi_schedule s"
  "paths (sendGeneralInterrogation E p s) = paths (snd (m_sendInfo E p gi_message s))"
  by (simp_all add: sendGeneralInterrogation_def case_prod_beta notifyGIsent_fields
      sendInfo_connection)

lemma setDaySection_inv [simp]: "plugin_ok (setDaySection b s) = plugin_ok s"
  by (rule inv_cong) (simp_all add: setDaySection_def)

lemma send_time_inv: "plugin_ok s \<Longrightarrow> plugin_ok (m_send_time_setting E p s)"
  unfolding m_send_time_setting_def Let_def setDaySection_inv
  by (rule link_step_inv [OF _ link_step_asked_sendInfo [of p]])
    (simp_all add: sendInfo_path_ok_snd plugin_ok_def sys_okD(2))

lemma send_date_inv: "plugin_ok s \<Longrightarrow> plugin_ok (m_send_date_setting E p s)"
  by (rule link_step_inv [OF _ date_setting.frame date_setting.keeps])
    (simp_all add: plugin_ok_def sys_okD(2))

lemma send_time_active: "m_active_path (m_send_time_setting E p s) = m_active_path s"
proof -
  have "path_only p s (snd (m_sendInfo E p msg (asked s)))" for msg
    using link_step_asked_sendInfo by (simp add: link_step_def)
  from path_only_fields(2) [OF this] show ?thesis
    by (simp add: m_send_time_setting_def Let_def setDaySection_def)
qed

lemma last_connected_inv: "plugin_ok s \<Longrightarrow> plugin_ok (upd_path p (\<lambda>x. x\<lparr>m_last_connected := k\<rparr>) s)"
proof -
  assume s: "plugin_ok s"
  define t where "t = upd_path p (\<lambda>x. x\<lparr>m_last_connected := k\<rparr>) s"
  have "link_ok (paths t q)" for q
    using sys_okD(1) [of s q] s
    by (cases "q = p"; cases "m_protocol_state (paths s q)")
      (auto simp: t_def plugin_ok_def link_ok_def agree_def sarm_ok_def)
  moreover have "arbitration_ok t = arbitration_ok s"
    by (rule arbitration_cong) (simp_all add: t_def upd_path_def)
  moreover have "first_input_ok q t = first_input_ok q s" "present_ok t = present_ok s" for q
    by (simp_all add: t_def first_input_ok_def present_ok_def upd_path_def)
  moreover have "gi_ok t = gi_ok s" by (simp add: t_def gi_ok_def upd_path_def)
  ultimately show ?thesis using s by (simp add: plugin_ok_def sys_ok_def t_def)
qed

lemma sendInitMessages_inv:
  assumes "plugin_ok s" and "m_active_path s = Some p"
  shows "plugin_ok (sendInitMessages E p s)"
  unfolding sendInitMessages_def using assms
  by (intro last_connected_inv sendGI_inv send_time_inv send_date_inv)
    (simp_all add: send_time_active date_setting.connection)

text \<open>
  The readings of the quality update need the configured points of the station.
\<close>

definition points_ok :: "string \<Rightarrow> sys \<Rightarrow> bool" where
  "points_ok code s \<longleftrightarrow> msg_leaf (m_hnz_conf s) code (hnz_remote_address s) \<noteq> None"

lemma sendAllTI_total:
  assumes "msg_leaf (m_hnz_conf s) (rp_msg_code par) (rp_station_addr par) \<noteq> None"
  shows "\<exists>t. m_sendAllTIQualityReadings par rej s = Inr t \<and> fledge_only s t \<and>
    m_connStatus t = m_connStatus s \<and> m_giStatus t = m_giStatus s \<and>
    m_qualityUpdateTimer t = m_qualityUpdateTimer s"
  using assms by (auto simp: m_sendAllTIQualityReadings_def Let_def)

lemma sendAllTS_total:
  assumes "points_ok ''TS'' s"
  shows "\<exists>t. m_sendAllTSQualityReadings E iv od rej s = Inr t \<and> fledge_only s t \<and>
    m_connStatus t = m_connStatus s \<and> m_giStatus t = m_giStatus s \<and>
    m_qualityUpdateTimer t = m_qualityUpdateTimer s"
proof -
  define par where "par = new_ReadingParameters\<lparr>rp_msg_code := ''TS'',
    rp_station_addr := hnz_remote_address s, rp_valid := of_bool iv, rp_outdated := od, rp_cg := False,
    rp_ts := now_ms E s, rp_qualityUpdate := True\<rparr>"
  have eq: "m_sendAllTSQualityReadings E iv od rej s = m_sendAllTIQualityReadings par rej (asked s)"
    by (simp add: m_sendAllTSQualityReadings_def Let_def par_def)
  have "msg_leaf (m_hnz_conf (asked s)) (rp_msg_code par) (rp_station_addr par) \<noteq> None"
    using assms by (simp add: points_ok_def par_def asked_def)
  from sendAllTI_total [OF this, of rej] eq show ?thesis
    using fledge_only_trans [OF fledge_only_asked] by (auto simp: asked_def)
qed

text \<open>The state in which \<open>GICompleted\<close> starts the delayed GI, if there is one.\<close>

lemma GICompleted_closes:
  assumes "plugin_ok s" and "points_ok ''TS'' s"
  obtains u s2 where
    "GICompleted E success s = start_delayed_GI E u" "plugin_ok u" "m_gi_repeat u = 0"
    "m_giStatus u = (if success then GI_FINISHED else GI_FAILED)" "m_gi_addresses_received u = []"
    "m_active_path u = m_active_path s" "m_giInQueue u = m_giInQueue s" "paths u = paths s"
    "m_hnz_conf u = m_hnz_conf s" "hnz_remote_address u = hnz_remote_address s"
    "m_gi_repeat_count_max u = m_gi_repeat_count_max s" "m_gi_schedule u = m_gi_schedule s"
    "m_paths u = m_paths s" "hnz_running u = hnz_running s" "m_hnz_connection u = m_hnz_connection s"
    "m_sendAllTSQualityReadings E True False (m_gi_addresses_received s) (onGICompleted s) = Inr s2"
    "fledge_only (onGICompleted s) s2"
    "u = resetGIQueue (updateGiStatus (if success then GI_FINISHED else GI_FAILED) s2)"
proof -
  define s1 where "s1 = onGICompleted s"
  have i1: "plugin_ok s1"
    using assms(1) sys_ok_cong [of s1 s] by (simp add: plugin_ok_def gi_ok_def s1_def onGICompleted_def)
  have "points_ok ''TS'' s1" using assms(2) by (simp add: points_ok_def s1_def onGICompleted_def)
  then obtain s2 where s2: "m_sendAllTSQualityReadings E True False (m_gi_addresses_received s1) s1 = Inr s2"
      "fledge_only s1 s2" "m_connStatus s2 = m_connStatus s1" "m_giStatus s2 = m_giStatus s1"
    using sendAllTS_total by blast
  define st where "st = (if success then GI_FINISHED else GI_FAILED)"
  define u where "u = resetGIQueue (updateGiStatus st s2)"
  note f2 = fledge_only_fields [OF s2(2)]
  note f3 = fledge_only_fields [OF fledge_only_updateGiStatus [of s2 st]]
  have i2: "plugin_ok s2" using i1 inv_cong [of s2 s1] f2 s2(3,4) by simp
  have "plugin_ok (updateGiStatus st s2)"
    by (rule updateGiStatus_inv)
      (use i2 f2 in \<open>simp_all add: plugin_ok_def gi_ok_def s1_def onGICompleted_def\<close>)
  then have "plugin_ok u" using inv_cong [of u "updateGiStatus st s2"] by (simp add: u_def resetGIQueue_def)
  moreover have "GICompleted E success s = start_delayed_GI E u"
    by (simp add: GICompleted_def Let_def s1_def [symmetric] s2(1) u_def st_def)
  moreover have "m_sendAllTSQualityReadings E True False (m_gi_addresses_received s) (onGICompleted s) = Inr s2"
    "fledge_only (onGICompleted s) s2"
    using s2(1,2) by (simp_all add: s1_def onGICompleted_def)
  moreover have "u = resetGIQueue (updateGiStatus (if success then GI_FINISHED else GI_FAILED) s2)"
    by (simp add: u_def st_def)
  ultimately show thesis
    by (intro that [of u s2]) (simp_all add: u_def resetGIQueue_def f3 f2 s1_def onGICompleted_def st_def)
qed

lemma start_delayed_inv:
  assumes "plugin_ok s" and "m_giInQueue s \<Longrightarrow> m_active_path s \<noteq> None"
  shows "\<exists>t. start_delayed_GI E s = Inr t \<and> plugin_ok t \<and> \<not> m_giInQueue t \<and>
    m_active_path t = m_active_path s \<and> m_hnz_conf t = m_hnz_conf s \<and>
    hnz_remote_address t = hnz_remote_address s \<and> m_paths t = m_paths s \<and>
    m_gi_schedule t = m_gi_schedule s \<and> hnz_running t = hnz_running s \<and>
    m_hnz_connection t = m_hnz_connection s"
proof (cases "m_giInQueue s")
  case True
  with assms(2) obtain p where p: "m_active_path s = Some p" by blast
  define t where "t = (sendGeneralInterrogation E p s)\<lparr>m_giInQueue := False\<rparr>"
  have "plugin_ok t"
    using sendGI_inv [OF assms(1)] p inv_cong [of t "sendGeneralInterrogation E p s"]
    by (simp add: t_def)
  with True p show ?thesis
    by (intro exI [of _ t]) (simp add: t_def start_delayed_GI_def getActivePath_def sendGI_fields)
qed (use assms in \<open>simp add: start_delayed_GI_def\<close>)

text \<open>
  The invariant every later operation needs: a general interrogation that is over can be
  reported, and the operation gave a state.
\<close>

definition same_conf :: "sys \<Rightarrow> sys \<Rightarrow> bool" where
  "same_conf s t \<longleftrightarrow>
     m_hnz_conf t = m_hnz_conf s \<and> hnz_remote_address t = hnz_remote_address s \<and>
     m_paths t = m_paths s \<and> hnz_running t = hnz_running s \<and>
     m_hnz_connection t = m_hnz_connection s"

lemma same_conf_points: "same_conf s t \<Longrightarrow> points_ok c t = points_ok c s"
  by (simp add: same_conf_def points_ok_def)

lemma same_conf_refl [simp]: "same_conf s s"
  by (simp add: same_conf_def)

lemma same_conf_trans: "same_conf s t \<Longrightarrow> same_conf t u \<Longrightarrow> same_conf s u"
  by (simp add: same_conf_def)

lemma GICompleted_inv:
  assumes "plugin_ok s" and "points_ok ''TS'' s" and "m_giInQueue s \<Longrightarrow> m_active_path s \<noteq> None"
  shows "\<exists>t. GICompleted E success s = Inr t \<and> plugin_ok t \<and> same_conf s t \<and> \<not> m_giInQueue t \<and>
    m_active_path t = m_active_path s"
proof -
  obtain u where u: "GICompleted E success s = start_delayed_GI E u" "plugin_ok u"
    "m_active_path u = m_active_path s" "m_giInQueue u = m_giInQueue s"
    "m_hnz_conf u = m_hnz_conf s" "hnz_remote_address u = hnz_remote_address s" "m_paths u = m_paths s"
    "hnz_running u = hnz_running s" "m_hnz_connection u = m_hnz_connection s"
    using GICompleted_closes [OF assms(1,2)] by metis
  then show ?thesis using start_delayed_inv [OF u(2), of E] assms(3) by (auto simp: same_conf_def)
qed

lemma checkGICompleted_inv:
  assumes "plugin_ok s" and "points_ok ''TS'' s" and "m_giInQueue s \<Longrightarrow> m_active_path s \<noteq> None"
  shows "\<exists>t. checkGICompleted E success s = Inr t \<and> plugin_ok t \<and> same_conf s t \<and>
    m_active_path t = m_active_path s"
proof (cases "success \<or> m_gi_repeat s > m_gi_repeat_count_max s")
  case True
  then have "checkGICompleted E success s = GICompleted E success s"
    by (auto simp: checkGICompleted_def)
  with GICompleted_inv [OF assms, of E success] show ?thesis by auto
next
  case False
  have r: "plugin_ok (resetGIQueue s)"
    using assms(1) inv_cong [of "resetGIQueue s" s] by (simp add: resetGIQueue_def)
  show ?thesis
  proof (cases "m_active_path s")
    case None
    with False r show ?thesis
      by (intro exI [of _ "resetGIQueue s"])
        (simp add: checkGICompleted_def Let_def resetGIQueue_def same_conf_def)
  next
    case (Some p)
    with False sendGI_inv [OF r, of E p] show ?thesis
      by (intro exI [of _ "sendGeneralInterrogation E p (resetGIQueue s)"])
        (simp add: checkGICompleted_def Let_def same_conf_def sendGI_fields resetGIQueue_def)
  qed
qed

lemma scheduled_GI_inv:
  assumes "plugin_ok s"
  shows "plugin_ok (scheduled_GI E s)" and "same_conf s (scheduled_GI E s)"
proof -
  have f: "plugin_ok (t\<lparr>m_gi_schedule_already_sent := True\<rparr>) = plugin_ok t" for t
    by (rule inv_cong) simp_all
  show "plugin_ok (scheduled_GI E s)"
    using assms sendGI_inv [OF assms] by (simp add: scheduled_GI_def f split: option.split)
  show "same_conf s (scheduled_GI E s)"
    by (simp add: scheduled_GI_def same_conf_def sendGI_fields split: option.split)
qed

text \<open>
  A GI that times out has an active path, so that the check of the GI always returns when the
  station has points of type TS.
\<close>

lemma check_GI_inv:
  assumes "plugin_ok s" and "points_ok ''TS'' s"
  shows "\<exists>t. m_check_GI E s = Inr t \<and> plugin_ok t \<and> same_conf s t"
proof -
  have "\<exists>u. (if gi_timed_out s then checkGICompleted E False s else Inr s) = Inr u \<and> plugin_ok u \<and> same_conf s u"
  proof (cases "gi_timed_out s")
    case True
    then have "m_active_path s \<noteq> None"
      using assms(1) by (simp add: gi_timed_out_def plugin_ok_def gi_ok_def)
    with True checkGICompleted_inv [OF assms, of E False] show ?thesis by auto
  qed (use assms(1) in simp)
  then obtain u where u: "(if gi_timed_out s then checkGICompleted E False s else Inr s) = Inr u"
    "plugin_ok u" "same_conf s u" by blast
  have "plugin_ok (new_day u)" "same_conf u (new_day u)"
    using u(2) inv_cong [of "new_day u" u] by (auto simp: new_day_def same_conf_def)
  with scheduled_GI_inv [of "new_day u" E] u show ?thesis
    by (auto simp: m_check_GI_def intro: same_conf_trans)
qed

text \<open>The GI of unit tests is counted from one, whatever GI was running.\<close>

lemma sendInitialGI_inv:
  assumes "plugin_ok s" and "sendInitialGI E s = Inr t"
  shows "plugin_ok t" and "m_gi_repeat t \<in> (if m_active_path s = None then {m_gi_repeat s} else {0, 1})"
proof -
  have z: "plugin_ok (s\<lparr>m_gi_repeat := 0\<rparr>)"
    using sys_ok_cong [of "s\<lparr>m_gi_repeat := 0\<rparr>" s] assms(1) by (simp add: plugin_ok_def gi_ok_def)
  have t: "t = connection_sendInitialGI E s" using assms(2) by (simp add: sendInitialGI_def split: if_splits)
  then show "plugin_ok t"
    using assms(1) sendGI_inv [OF z, of E] by (auto simp: connection_sendInitialGI_def split: option.split)
  show "m_gi_repeat t \<in> (if m_active_path s = None then {m_gi_repeat s} else {0, 1})"
  proof (cases "m_active_path s")
    case (Some p)
    obtain sent u where u: "m_sendInfo E p gi_message (s\<lparr>m_gi_repeat := 0\<rparr>) = (sent, u)" by fastforce
    with sendInfo_connection [of E p gi_message "s\<lparr>m_gi_repeat := 0\<rparr>"] have "m_gi_repeat u = 0" by simp
    with Some u show ?thesis
      by (simp add: t connection_sendInitialGI_def sendGeneralInterrogation_def notifyGIsent_def Let_def)
  qed (simp add: t connection_sendInitialGI_def)
qed

section \<open>Events and the thread of a path keep the invariant\<close>

lemma action_gi:
  assumes "gi_ok s" shows "gi_ok (run_action E p a s)"
proof (cases rule: action_effect [of a p s E])
  case (request r)
  have "gi_ok r"
    unfolding request(2)
    by (cases rule: request_cases [OF refl, where p = p and st = "requested a" and s = s])
      (use assms in \<open>simp_all add: gi_ok_def\<close>)
  then show ?thesis using path_only_fields [OF request(3)] by (simp add: gi_ok_def)
next
  case local
  then show ?thesis using assms path_only_fields [OF local(2)] by (simp add: gi_ok_def)
qed

lemma transition_gi:
  assumes "gi_ok s" shows "gi_ok (protocolStateTransition E p ev s)"
proof -
  have up: "gi_ok (upd_path p f t) = gi_ok t" for f t by (simp add: gi_ok_def upd_path_def)
  have "gi_ok (fold (run_action E p) acts t)" if "gi_ok t" for acts t
    using that by (induction acts arbitrary: t) (simp_all add: action_gi)
  with assms up show ?thesis
    by (auto simp: protocolStateTransition_def Let_def split: option.split)
qed

lemma transition_inv:
  "plugin_ok s \<Longrightarrow> m_paths s p \<Longrightarrow> plugin_ok (protocolStateTransition E p ev s)"
  by (simp add: plugin_ok_def transition_sys_ok transition_gi)

lemma path_only_gi: "path_only p s t \<Longrightarrow> gi_ok s \<Longrightarrow> gi_ok t"
  using path_only_fields [of p s t] by (simp add: gi_ok_def)

lemma link_step_gi: "link_step p s t \<Longrightarrow> gi_ok s \<Longrightarrow> gi_ok t"
  by (auto simp: link_step_def intro: path_only_gi)

lemma receivedSARM_inv: "plugin_ok s \<Longrightarrow> m_paths s p \<Longrightarrow> plugin_ok (m_receivedSARM E p s)"
proof -
  assume s: "plugin_ok s" "m_paths s p"
  have "gi_ok (asked (m_sendUA E p s))"
    using s(1) link_step_gi [OF send_ua.frame] link_step_gi [OF link_step_asked]
    by (auto simp: plugin_ok_def)
  then have "gi_ok (m_receivedSARM E p s)" by (simp add: m_receivedSARM_def Let_def transition_gi)
  with s receivedSARM_sys_ok show ?thesis by (simp add: plugin_ok_def)
qed

lemma receivedUA_inv: "plugin_ok s \<Longrightarrow> m_paths s p \<Longrightarrow> plugin_ok (m_receivedUA E p s)"
  by (simp add: m_receivedUA_def transition_inv)

lemma sendSARM_gi: "gi_ok s \<Longrightarrow> gi_ok (m_sendSARM E p s)"
proof -
  assume s: "gi_ok s"
  define s1 where "s1 = m_sendFrame E p [SARM_CODE E] False s"
  have "gi_ok s1" using link_step_gi [OF link_step_sendFrame s] by (simp add: s1_def)
  then show ?thesis
    by (simp add: m_sendSARM_def Let_def s1_def [symmetric] gi_ok_def upd_path_def asked_def)
qed

lemma manage_turn_inv:
  assumes "plugin_ok s" and "m_paths s p"
  shows "plugin_ok (manage_protocol_turn E p s)"
proof -
  have up: "gi_ok (upd_path p f t) = gi_ok t" for f t by (simp add: gi_ok_def upd_path_def)
  have "gi_ok (snd (m_manageHNZProtocolState E p now t))" if "gi_ok t" for now t
    using that link_step_gi [OF bulle.frame that, of E p]
    by (simp add: m_manageHNZProtocolState_def manage_unconnected_def manage_connected_def Let_def
        transition_gi sendSARM_gi)
  moreover have "gi_ok (asked s)" using assms(1) by (simp add: plugin_ok_def gi_ok_def asked_def)
  ultimately have "gi_ok (manage_protocol_turn E p s)"
    by (simp add: manage_protocol_turn_def Let_def case_prod_beta up)
  with assms manage_turn_sys_ok show ?thesis by (simp add: plugin_ok_def)
qed

section \<open>The configuration does not change\<close>

lemma path_only_conf: "path_only p s t \<Longrightarrow> same_conf s t"
  using path_only_fields [of p s t] by (simp add: same_conf_def)

lemma link_step_conf: "link_step p s t \<Longrightarrow> same_conf s t"
  using path_only_conf by (auto simp: link_step_def)

lemma fledge_only_conf: "fledge_only s t \<Longrightarrow> same_conf s t"
  using fledge_only_fields [of s t] by (simp add: same_conf_def)

lemma action_conf: "same_conf s (run_action E p a s)"
proof (cases rule: action_effect [of a p s E])
  case (request r)
  then show ?thesis using path_only_conf [OF request(3)] by (simp add: same_conf_def)
next
  case local
  show ?thesis by (rule path_only_conf [OF local(2)])
qed

lemma transition_conf: "same_conf s (protocolStateTransition E p ev s)"
proof -
  have up: "same_conf t (upd_path p f t)" for f t by (rule path_only_conf [of p]) simp
  have acts: "same_conf t (fold (run_action E p) acts t)" for acts t
  proof (induction acts arbitrary: t)
    case (Cons a acts)
    show ?case unfolding fold_simps by (rule same_conf_trans [OF action_conf Cons.IH])
  qed simp
  note same_conf_trans [OF up acts] same_conf_trans [OF same_conf_trans [OF up acts] up]
  then show ?thesis
    by (simp add: protocolStateTransition_def Let_def split: option.split)
qed

end
