(* ===== verification/HNZ_Timers.thy ===== *)
theory HNZ_Timers
  imports HNZ_GI
begin

text \<open>
  The thread of the connection (\<open>src/hnzconnection.cpp\<close>, \<open>m_manageMessages\<close>): repetition of
  unacknowledged messages, the messages of a new connection, expiry of commands, the GI and
  the timer of the quality update; one turn every 100 ms.
\<close>

section \<open>Repetition\<close>

text \<open>The loop that moves the unacknowledged messages but the first back to the waiting queue.\<close>

function take_back :: "Message list \<Rightarrow> Message list \<Rightarrow> Message list \<times> Message list" where
  "take_back sent waiting =
     (if length sent > 1 then take_back (butlast sent) (last sent # waiting) else (sent, waiting))"
  by pat_completeness auto
termination by (relation "measure (\<lambda>(sent, _). length sent)") auto

declare take_back.simps [simp del]

definition repetition_due :: "path_id \<Rightarrow> sys \<Rightarrow> bool" where
  "repetition_due p s \<longleftrightarrow>
     u64 (last_sent_time (paths s p) + conn_repeat_timeout s) < m_current s"

definition repeat_or_give_up :: "env \<Rightarrow> path_id \<Rightarrow> sys \<Rightarrow> sys" where
  "repeat_or_give_up E p s =
     (if m_repeat (paths s p) \<ge> repeat_max (paths s p)
      then protocolStateTransition E p MAX_SEND s
      else
        let s1 = sendBackInfo E p (hd (msg_sent (paths s p))) s
        in upd_path p (\<lambda>x. let (sent, waiting) = take_back (msg_sent x) (msg_waiting x)
                           in x\<lparr>msg_sent := sent, msg_waiting := waiting\<rparr>) s1)"

definition check_repetition :: "env \<Rightarrow> path_id \<Rightarrow> sys \<Rightarrow> sys" where
  "check_repetition E p s =
     (if msg_sent (paths s p) = [] then s
      else
        let tcp = isTCPConnected E s; s1 = asked s
        in if tcp \<and> repetition_due p s1 then repeat_or_give_up E p s1 else s1)"

definition resetLastConnected :: "path_id \<Rightarrow> sys \<Rightarrow> sys" where
  "resetLastConnected p s = upd_path p (\<lambda>x. x\<lparr>m_last_connected := 0\<rparr>) s"

definition check_init_messages :: "env \<Rightarrow> path_id \<Rightarrow> sys \<Rightarrow> sys" where
  "check_init_messages E p s =
     (if m_protocol_state (paths s p) = CONNECTED
      then
        let now = now_ms E s; s1 = asked s;
            ms_since_connected = now - m_last_connected (paths s1 p)
        in if m_last_connected (paths s1 p) > 0 \<and> ms_since_connected \<ge> conn_repeat_timeout s1
           then (if m_connection_state (paths s1 p) = ACTIVE \<and> m_sendInitNexConnection s1
                 then (sendInitMessages E p s1)\<lparr>m_sendInitNexConnection := False\<rparr>
                 else resetLastConnected p s1)
           else s1
      else s)"

definition m_check_timer :: "env \<Rightarrow> path_id \<Rightarrow> sys \<Rightarrow> sys" where
  "m_check_timer E p s = check_init_messages E p (check_repetition E p s)"

definition m_check_command_timer :: "path_id \<Rightarrow> sys \<Rightarrow> sys" where
  "m_check_command_timer p s =
     upd_path p (\<lambda>x. x\<lparr>command_sent :=
        filter (\<lambda>c. \<not> timestamp_max c < m_current s) (command_sent x)\<rparr>) s"

section \<open>The thread\<close>

definition m_update_current_time :: "env \<Rightarrow> sys \<Rightarrow> sys" where
  "m_update_current_time E s =
     (asked s)\<lparr>m_current := u64 (now_ms E s), m_elapsedTimeMs := u64 (u64 (now_ms E s) - m_current s)\<rparr>"

definition m_update_quality_update_timer :: "env \<Rightarrow> sys \<Rightarrow> sys res" where
  "m_update_quality_update_timer E s = updateQualityUpdateTimer E (s64 (m_elapsedTimeMs s)) s"

definition manage_messages_begin :: "env \<Rightarrow> sys \<Rightarrow> sys" where
  "manage_messages_begin E s =
     (let s1 = m_update_current_time E s;
          s2 = s1\<lparr>m_days_since_epoch := m_current s1 div day_ms,
                  m_gi_scheduled_time := gi_time_of_day s1\<rparr>
      in if activate (m_gi_schedule s2) \<and> m_current s2 \<ge> u64 (m_gi_scheduled_time s2)
         then s2\<lparr>m_gi_schedule_already_sent := True\<rparr> else s2)"

definition check_path :: "env \<Rightarrow> path_id \<Rightarrow> sys \<Rightarrow> sys" where
  "check_path E p s = (if m_paths s p then m_check_command_timer p (m_check_timer E p s) else s)"

definition manage_messages_turn :: "env \<Rightarrow> sys \<Rightarrow> sys res" where
  "manage_messages_turn E s =
     ebind (m_check_GI E (fold (check_path E) path_order (m_update_current_time E s)))
       (m_update_quality_update_timer E)"

section \<open>Repetition\<close>

text \<open>The loop keeps the first message and puts the others, in order, before the waiting ones.\<close>

lemma take_back_eq: "take_back sent waiting = (take 1 sent, tl sent @ waiting)"
proof (induction sent waiting rule: take_back.induct)
  case (1 sent waiting)
  show ?case
  proof (cases "length sent > 1")
    case True
    then obtain x y ys where s: "sent = x # y # ys" by (cases sent; cases "tl sent") auto
    with True 1 show ?thesis by (subst take_back.simps) simp
  next
    case False
    then show ?thesis by (subst take_back.simps) (cases sent; simp)
  qed
qed

lemma path_ok_taken_back:
  assumes "path_ok pa"
  shows "path_ok (pa\<lparr>msg_sent := take 1 (msg_sent pa), msg_waiting := tl (msg_sent pa) @ msg_waiting pa\<rparr>)"
  using assms set_take_subset [of 1 "msg_sent pa"] unfolding path_ok_defs
  by (cases "msg_sent pa") (auto simp: isBULLE_def)

lemma link_step_sendBackInfo: "link_step p s (sendBackInfo E p m s)"
proof -
  have a: "link_step p u (upd_path p (\<lambda>x. x\<lparr>last_sent_time := k\<rparr>) (asked u))" for u k
    by (rule link_step_asked_upd) (simp add: same_states_def path_settings.truncate_def)
  have b: "link_step p s (upd_path p (\<lambda>x. x\<lparr>m_repeat := m_repeat x + 1\<rparr>) s)"
    by (rule link_step_upd_path) (simp add: same_states_def path_settings.truncate_def)
  show ?thesis
    unfolding sendBackInfo_def Let_def
    by (rule link_step_trans [OF b link_step_trans [OF link_step_sendFrame a]])
qed

lemma sendBackInfo_path_ok: "path_ok (paths s p) \<Longrightarrow> path_ok (paths (sendBackInfo E p m s) p)"
  by (simp add: sendBackInfo_def Let_def)

definition give_back :: "path_id \<Rightarrow> sys \<Rightarrow> sys" where
  "give_back p = upd_path p (\<lambda>x. x\<lparr>msg_sent := take 1 (msg_sent x),
     msg_waiting := tl (msg_sent x) @ msg_waiting x\<rparr>)"

lemma repeat_or_give_up_eq:
  "repeat_or_give_up E p s =
     (if m_repeat (paths s p) \<ge> repeat_max (paths s p) then protocolStateTransition E p MAX_SEND s
      else give_back p (sendBackInfo E p (hd (msg_sent (paths s p))) s))"
  by (simp add: repeat_or_give_up_def Let_def take_back_eq give_back_def)

lemma repeat_or_give_up_inv:
  assumes "plugin_ok s" and "m_paths s p"
  shows "plugin_ok (repeat_or_give_up E p s)" and "same_conf s (repeat_or_give_up E p s)"
proof -
  define s1 where "s1 = sendBackInfo E p (hd (msg_sent (paths s p))) s"
  have s1: "plugin_ok s1" unfolding s1_def
    by (rule link_step_inv [OF assms(1) link_step_sendBackInfo])
      (use assms(1) in \<open>simp add: sendBackInfo_path_ok plugin_ok_def sys_okD(2)\<close>)
  have l: "link_step p s1 (give_back p s1)" unfolding give_back_def
    by (rule link_step_upd_path) (simp add: same_states_def path_settings.truncate_def)
  have "path_ok (paths (give_back p s1) p)"
    using path_ok_taken_back [of "paths s1 p"] s1
    by (simp add: give_back_def plugin_ok_def sys_okD(2))
  from link_step_inv [OF s1 l this] show "plugin_ok (repeat_or_give_up E p s)"
    using transition_inv [OF assms] by (simp add: repeat_or_give_up_eq s1_def)
  have "same_conf s (give_back p s1)"
    using link_step_conf [OF link_step_trans [OF link_step_sendBackInfo l [unfolded s1_def]]]
    by (simp add: s1_def)
  then show "same_conf s (repeat_or_give_up E p s)"
    using transition_conf by (simp add: repeat_or_give_up_eq s1_def)
qed

lemma asked_inv: "plugin_ok (asked s) = plugin_ok s" "same_conf s (asked s)"
  by (rule inv_cong) (simp_all add: asked_def same_conf_def)

lemma check_repetition_inv:
  assumes "plugin_ok s" and "m_paths s p"
  shows "plugin_ok (check_repetition E p s) \<and> same_conf s (check_repetition E p s)"
proof -
  have a: "plugin_ok (asked s)" "m_paths (asked s) p"
    using assms by (simp_all add: asked_inv) (simp add: asked_def)
  show ?thesis
    using repeat_or_give_up_inv [OF a] a assms(1) asked_inv(2) [of s]
    by (simp add: check_repetition_def Let_def same_conf_def)
qed

lemma send_time_conf: "same_conf s (m_send_time_setting E p s)"
  using link_step_conf [OF link_step_asked_sendInfo [of p s E]]
  by (simp add: m_send_time_setting_def Let_def setDaySection_def same_conf_def)

lemma sendInitMessages_conf: "same_conf s (sendInitMessages E p s)"
proof -
  have "same_conf s (m_send_time_setting E p (m_send_date_setting E p s))"
    by (rule same_conf_trans [OF link_step_conf [OF date_setting.frame] send_time_conf])
  then show ?thesis
    by (simp add: sendInitMessages_def same_conf_def sendGI_fields upd_path_def)
qed

lemma check_init_inv:
  assumes "plugin_ok s" and "m_paths s p"
  shows "plugin_ok (check_init_messages E p s) \<and> same_conf s (check_init_messages E p s)"
proof -
  have a: "plugin_ok (asked s)" using assms(1) by (simp add: asked_inv)
  have act: "m_active_path (asked s) = Some p" if "m_connection_state (paths s p) = ACTIVE"
    using sys_okD(6) [of s] assms(1) that
    by (simp add: plugin_ok_def arbitration_defs asked_def)
  have f: "plugin_ok (t\<lparr>m_sendInitNexConnection := b\<rparr>) = plugin_ok t" for t b
    by (rule inv_cong) simp_all
  have "plugin_ok (resetLastConnected p (asked s))"
    unfolding resetLastConnected_def by (rule last_connected_inv [OF a])
  moreover have "same_conf (asked s) (resetLastConnected p (asked s))"
    by (simp add: resetLastConnected_def same_conf_def upd_path_def)
  ultimately show ?thesis
    using sendInitMessages_inv [OF a act, of E] sendInitMessages_conf [of "asked s" E p]
      asked_inv(2) [of s] a assms(1)
    by (simp add: check_init_messages_def Let_def f same_conf_def)
qed

lemma check_timer_inv:
  assumes "plugin_ok s" and "m_paths s p"
  shows "plugin_ok (m_check_timer E p s) \<and> same_conf s (m_check_timer E p s)"
proof -
  have 1: "plugin_ok (check_repetition E p s)" "same_conf s (check_repetition E p s)"
    using check_repetition_inv [OF assms] by simp_all
  with check_init_inv [OF 1(1), of p E] assms(2) show ?thesis
    unfolding m_check_timer_def by (auto simp: same_conf_def)
qed

lemma command_timer_inv:
  assumes "plugin_ok s"
  shows "plugin_ok (m_check_command_timer p s)" and "same_conf s (m_check_command_timer p s)"
proof -
  have l: "link_step p s (m_check_command_timer p s)" unfolding m_check_command_timer_def
    by (rule link_step_upd_path) (simp add: same_states_def path_settings.truncate_def)
  show "plugin_ok (m_check_command_timer p s)"
    by (rule link_step_inv [OF assms l])
      (use assms in \<open>simp add: m_check_command_timer_def plugin_ok_def sys_okD(2)\<close>)
  show "same_conf s (m_check_command_timer p s)" by (rule link_step_conf [OF l])
qed

section \<open>One turn of the thread\<close>

lemma check_path_inv:
  assumes "plugin_ok s"
  shows "plugin_ok (check_path E p s) \<and> same_conf s (check_path E p s)"
proof (cases "m_paths s p")
  case True
  have t: "plugin_ok (m_check_timer E p s)" "same_conf s (m_check_timer E p s)"
    using check_timer_inv [OF assms True] by simp_all
  with True command_timer_inv [OF t(1), of p] show ?thesis
    by (auto simp: check_path_def intro: same_conf_trans)
qed (use assms in \<open>simp add: check_path_def\<close>)

lemma check_paths_inv:
  "plugin_ok s \<Longrightarrow> plugin_ok (fold (check_path E) ps s) \<and> same_conf s (fold (check_path E) ps s)"
proof (induction ps arbitrary: s)
  case (Cons p ps)
  then show ?case using check_path_inv [of s E p] same_conf_trans by fastforce
qed simp

lemma update_time_inv:
  "plugin_ok (m_update_current_time E s) = plugin_ok s" "same_conf s (m_update_current_time E s)"
  by (rule inv_cong) (simp_all add: m_update_current_time_def asked_def same_conf_def)

lemma quality_timer_inv:
  assumes "plugin_ok s" and "points_ok ''TM'' s" and "points_ok ''TS'' s"
  shows "\<exists>t. updateQualityUpdateTimer E n s = Inr t \<and> plugin_ok t \<and> same_conf s t"
proof (cases "0 < m_qualityUpdateTimer s \<and> m_qualityUpdateTimer s - n \<le> 0")
  case True
  define s1 where "s1 = s\<lparr>m_qualityUpdateTimer := 0\<rparr>"
  define par where "par = new_ReadingParameters\<lparr>rp_msg_code := ''TM'', rp_station_addr := hnz_remote_address s1,
          rp_valid := of_bool False, rp_outdated := True, rp_an := ''TMA'', rp_qualityUpdate := True\<rparr>"
  have "msg_leaf (m_hnz_conf s1) (rp_msg_code par) (rp_station_addr par) \<noteq> None"
    using assms(2) by (simp add: par_def s1_def points_ok_def)
  then obtain s2 where "m_sendAllTIQualityReadings par [] s1 = Inr s2"
    and 2: "fledge_only s1 s2" "m_connStatus s2 = m_connStatus s1" "m_giStatus s2 = m_giStatus s1"
    using sendAllTI_total by blast
  then have q2: "m_sendAllTMQualityReadings False True [] s1 = Inr s2"
    by (simp add: m_sendAllTMQualityReadings_def par_def)
  note f2 = fledge_only_fields [OF 2(1)]
  have "points_ok ''TS'' s2" using assms(3) by (simp add: points_ok_def f2 s1_def)
  then obtain s3 where q3: "m_sendAllTSQualityReadings E False True [] s2 = Inr s3"
    and 3: "fledge_only s2 s3" "m_connStatus s3 = m_connStatus s2" "m_giStatus s3 = m_giStatus s2"
    using sendAllTS_total by blast
  note f3 = fledge_only_fields [OF 3(1)]
  have eq: "updateQualityUpdateTimer E n s = Inr s3"
    using True q2 q3 by (simp add: updateQualityUpdateTimer_def Let_def s1_def)
  have "plugin_ok s1 = plugin_ok s" by (rule inv_cong) (simp_all add: s1_def)
  then have "plugin_ok s3"
    using assms(1) inv_cong [of s3 s1] by (simp add: f2 f3 2(2,3) 3(2,3))
  moreover have "same_conf s s3" by (simp add: same_conf_def f2 f3 s1_def)
  ultimately show ?thesis using eq by blast
next
  case False
  define s1 where "s1 = s\<lparr>m_qualityUpdateTimer := m_qualityUpdateTimer s - n\<rparr>"
  have "plugin_ok s1 = plugin_ok s" by (rule inv_cong) (simp_all add: s1_def)
  with False assms(1) show ?thesis
    by (auto simp: updateQualityUpdateTimer_def Let_def s1_def same_conf_def)
qed

text \<open>A turn of the thread never fails when the station has points of both types.\<close>

lemma manage_messages_inv:
  assumes "plugin_ok s" and "points_ok ''TM'' s" and "points_ok ''TS'' s"
  shows "\<exists>t. manage_messages_turn E s = Inr t \<and> plugin_ok t \<and> same_conf s t"
proof -
  define s1 where "s1 = fold (check_path E) path_order (m_update_current_time E s)"
  have s1: "plugin_ok s1" "same_conf s s1"
    using check_paths_inv [of "m_update_current_time E s" E path_order] update_time_inv(1) [of E s] update_time_inv(2) [of s E] assms(1)
    by (auto simp: s1_def intro: same_conf_trans)
  then obtain s2 where s2: "m_check_GI E s1 = Inr s2" "plugin_ok s2" "same_conf s1 s2"
    using check_GI_inv [OF s1(1)] assms(3) same_conf_points [OF s1(2)] by auto
  have "same_conf s s2" using s1(2) s2(3) by (rule same_conf_trans)
  moreover from this obtain s3 where "m_update_quality_update_timer E s2 = Inr s3" "plugin_ok s3" "same_conf s2 s3"
    using quality_timer_inv [OF s2(2)] assms(2,3) same_conf_points
    unfolding m_update_quality_update_timer_def by blast
  ultimately show ?thesis
    using s2(1) same_conf_trans by (auto simp: manage_messages_turn_def s1_def)
qed

end
