(* ===== verification/HNZ_Reception.thy ===== *)
theory HNZ_Reception
  imports HNZ_Timers
begin

text \<open>
  Reception of a frame on a path (\<open>src/hnzpath.cpp\<close>: \<open>getData\<close>, \<open>m_analyze_frame\<close>,
  \<open>m_receivedINFO\<close>, \<open>m_extract_messages\<close>): the fields of the header, what each kind of frame
  does, and the separation of the payload into messages.  A frame is what
  \<open>HNZClient::receiveFr\<close> gives: its buffer and the number of bytes received, the last two of
  which are the CRC.
\<close>

section \<open>Frames\<close>

record MSG_TRAME =
  aubTrame :: "byte list"
  usLgBuffer :: int

text \<open>The fields of the second byte, and the two parts of the first one.\<close>

definition frame_direction :: "byte \<Rightarrow> int" where
  "frame_direction b = drop_bit 1 (uint b) AND 0x01"

definition frame_address :: "byte \<Rightarrow> int" where
  "frame_address b = drop_bit 2 (uint b)"

definition frame_ns :: "byte \<Rightarrow> int" where
  "frame_ns type = drop_bit 1 (uint type) AND 0x07"

definition frame_pf :: "byte \<Rightarrow> int" where
  "frame_pf type = drop_bit 4 (uint type) AND 0x01"

definition frame_nr :: "byte \<Rightarrow> int" where
  "frame_nr type = drop_bit 5 (uint type) AND 0x07"

definition is_supervision :: "byte \<Rightarrow> bool" where
  "is_supervision type \<longleftrightarrow> uint type AND 0x01 \<noteq> 0"

definition expected_direction :: "env \<Rightarrow> byte \<Rightarrow> int" where
  "expected_direction E type =
     1 * of_bool (type = UA_CODE E)
     + 1 * of_bool (type \<noteq> SARM_CODE E \<and> type \<noteq> UA_CODE E \<and> is_supervision type)"

section \<open>Messages of an information frame\<close>

text \<open>
  \<open>convertPayloadToVector\<close> compares an unsigned index with the size: a negative size is a
  huge one, and the copy leaves the buffer.
\<close>

definition convertPayloadToVector :: "byte list \<Rightarrow> int \<Rightarrow> byte list res" where
  "convertPayloadToVector data len =
     (if u64 len \<le> int (length data) then Inr (take (nat (u64 len)) data) else Inl Out_of_bounds)"

text \<open>The length of the known messages; \<open>None\<close> is the default case of the \<open>switch\<close>.\<close>

definition known_length :: "env \<Rightarrow> byte \<Rightarrow> int option" where
  "known_length E t =
     (if t = TM4_CODE E then Some 6
      else if t = TSCE_CODE E then Some 5
      else if t = TSCG_CODE E then Some 6
      else if t = TMN_CODE E then Some 7
      else if t = MODULO_CODE E then Some 2
      else if t = TCACK_CODE E then Some 3
      else if t = TVCACK_CODE E then Some 4
      else None)"

text \<open>The length of the first message, and whether it is a BULLE.\<close>

definition first_length :: "env \<Rightarrow> BulleFormat \<Rightarrow> byte list \<Rightarrow> int \<Rightarrow> (int \<times> bool) res" where
  "first_length E bulle data payloadSize =
     ebind (rd data 0) (\<lambda>t.
     case known_length E t of
       Some len \<Rightarrow> Inr (len, False)
     | None \<Rightarrow>
         if t = first bulle
         then ebind (rd data 1) (\<lambda>b. if b = second bulle then Inr (2, True) else Inr (payloadSize, False))
         else Inr (payloadSize, False))"

lemma convert_length:
  "convertPayloadToVector data len = Inr msg \<Longrightarrow> 0 < len \<Longrightarrow> len < 2 ^ 64 \<Longrightarrow> nat len \<le> length data"
  by (auto simp: convertPayloadToVector_def split: if_splits)

lemma u64_0 [simp]: "u64 0 = 0"
  by (simp add: u64_def)

lemma first_length_cases:
  assumes "first_length E bulle data n = Inr (len, b)"
  shows "len \<in> {2..7} \<or> len = n" and "data \<noteq> []"
  using assms
  by (auto simp: first_length_def known_length_def ebind_Inr_conv rd_def split: if_splits)

lemma first_length_decreases:
  "first_length E bulle data n = Inr (len, b) \<Longrightarrow> len \<noteq> n \<Longrightarrow>
   length data - nat len < length data"
  using first_length_cases [of E bulle data n len b] by (cases data) auto

function m_extract_messages ::
  "env \<Rightarrow> path_id \<Rightarrow> byte list \<Rightarrow> int \<Rightarrow> sys \<Rightarrow> (byte list list \<times> sys) res" where
  "m_extract_messages E p data payloadSize s =
     (case first_length E (m_test_msg_receive (paths s p)) data payloadSize of
        Inl e \<Rightarrow> Inl e
      | Inr (len, bulle) \<Rightarrow>
          let s1 = (if bulle then m_receivedBULLE E p s else s) in
          if len \<noteq> 0 then
            case convertPayloadToVector data len of
              Inl e \<Rightarrow> Inl e
            | Inr msg \<Rightarrow>
                if len \<noteq> payloadSize then
                  case m_extract_messages E p (drop (nat len) data) (payloadSize - len) s1 of
                    Inl e \<Rightarrow> Inl e
                  | Inr (rest, s2) \<Rightarrow> Inr (msg # rest, s2)
                else Inr ([msg], s1)
          else Inr ([], s1))"
  by pat_completeness auto

termination
  by (relation "measure (\<lambda>(E, p, data, n, s). length data)") (auto intro: first_length_decreases)

declare m_extract_messages.simps [simp del]

section \<open>Handling a frame\<close>

definition m_receivedINFO ::
  "env \<Rightarrow> path_id \<Rightarrow> byte list \<Rightarrow> int \<Rightarrow> sys \<Rightarrow> (byte list list \<times> sys) res" where
  "m_receivedINFO E p data sz s =
     ebind (rd data 1) (\<lambda>type.
     if m_protocol_state (paths s p) = OUTPUT_CONNECTED then Inr ([], s)
     else
       ebind (if canPathExtractMessage p s
              then m_extract_messages E p (drop 2 data) (sz - 4) s else Inr ([], s)) (\<lambda>(messages, s1).
       ebind (m_sendRR E p (frame_pf type = 1) (frame_ns type) (frame_nr type) s1) (\<lambda>(ok, s2).
       Inr (if ok then messages else [], s2))))"

definition m_analyze_frame ::
  "env \<Rightarrow> path_id \<Rightarrow> MSG_TRAME \<Rightarrow> sys \<Rightarrow> (byte list list \<times> sys) res" where
  "m_analyze_frame E p fr s =
     (let data = aubTrame fr in
      ebind (rd data 0) (\<lambda>b0.
      ebind (rd data 1) (\<lambda>type.
      if m_remote_address (paths s p) \<noteq> frame_address b0 then Inr ([], s)
      else if frame_direction b0 \<noteq> expected_direction E type then Inr ([], s)
      else if type = UA_CODE E then Inr ([], m_receivedUA E p s)
      else if type = SARM_CODE E then Inr ([], m_receivedSARM E p s)
      else if m_protocol_state (paths s p) = CONNECTION then Inr ([], s)
      else if \<not> is_supervision type then m_receivedINFO E p data (usLgBuffer fr) s
      else ebind (m_receivedRR E p (frame_nr type) (frame_pf type = 1) s) (\<lambda>(ok, s1).
           Inr ([], s1)))))"

text \<open>
  \<open>receiveFr\<close> gives a frame or none, and \<open>checkCRC\<close> its verdict on the frame.
\<close>

definition getData ::
  "env \<Rightarrow> path_id \<Rightarrow> (MSG_TRAME \<Rightarrow> bool) \<Rightarrow> MSG_TRAME option \<Rightarrow> sys \<Rightarrow> (byte list list \<times> sys) res" where
  "getData E p checkCRC frReceived s =
     (case frReceived of
        None \<Rightarrow> Inr ([], s)
      | Some fr \<Rightarrow> if checkCRC fr then m_analyze_frame E p fr s else Inr ([], s))"

section \<open>Header fields\<close>

lemma frame_field_range:
  "frame_ns b \<in> {0..7}" "frame_nr b \<in> {0..7}" "frame_pf b \<in> {0..1}" "frame_address b \<in> {0..63}"
proof -
  show "frame_ns b \<in> {0..7}" "frame_nr b \<in> {0..7}" "frame_pf b \<in> {0..1}"
    by (simp_all add: frame_ns_def frame_nr_def frame_pf_def and_mask_int)
  show "frame_address b \<in> {0..63}"
    using byte_range [of b] by (auto simp: frame_address_def shr_int pos_imp_zdiv_nonneg_iff)
qed

text \<open>The fields of the control byte of an information frame the sender composes.\<close>

lemma control_byte_fields:
  assumes "n \<in> {0..7}" and "m \<in> {0..7}" and "f \<in> {0..1}"
  shows "frame_nr (u8 (n * 0x20 + f * 0x10 + m * 0x2)) = n"
    and "frame_ns (u8 (n * 0x20 + f * 0x10 + m * 0x2)) = m"
    and "frame_pf (u8 (n * 0x20 + f * 0x10 + m * 0x2)) = f"
    and "\<not> is_supervision (u8 (n * 0x20 + f * 0x10 + m * 0x2))"
proof -
  have u: "uint (u8 (n * 0x20 + f * 0x10 + m * 0x2)) = n * 0x20 + f * 0x10 + m * 0x2"
    using assms by (simp add: uint_u8)
  show "frame_nr (u8 (n * 0x20 + f * 0x10 + m * 0x2)) = n"
  proof -
    have "(n * 0x20 + (f * 0x10 + m * 0x2)) div 0x20 = n"
      using assms by (subst div_mult_self3) auto
    then show ?thesis
      using assms unfolding frame_nr_def u shr_int and_mask_int by (simp add: add.assoc)
  qed
  have "(16 * n + 8 * f + m) mod 8 = (m + 8 * (2 * n + f)) mod 8" by (simp add: algebra_simps)
  also have "\<dots> = m" unfolding mod_mult_self2 using assms by simp
  finally show "frame_ns (u8 (n * 0x20 + f * 0x10 + m * 0x2)) = m"
    unfolding frame_ns_def u shr_int and_mask_int by simp
  have "(m * 2 + (2 * n + f) * 16) div 16 = 2 * n + f"
    using assms by (subst div_mult_self1) auto
  then have "(n * 0x20 + f * 0x10 + m * 0x2) div 16 = f + 2 * n" by (simp add: algebra_simps)
  then show "frame_pf (u8 (n * 0x20 + f * 0x10 + m * 0x2)) = f"
    using assms unfolding frame_pf_def u shr_int and_mask_int by simp
  show "\<not> is_supervision (u8 (n * 0x20 + f * 0x10 + m * 0x2))"
    using assms unfolding is_supervision_def u and_mask_int by simp
qed

section \<open>Extraction\<close>

text \<open>
  A buffer is shorter than 2 GB, and a payload size is an \<open>int\<close>.  What is left of both shrinks
  together.
\<close>

definition fits :: "byte list \<Rightarrow> int \<Rightarrow> bool" where
  "fits data n \<longleftrightarrow> int (length data) < 2 ^ 31 \<and> int (length data) - n < 2 ^ 62"

lemma fits_drop: "fits data n \<Longrightarrow> 0 \<le> k \<Longrightarrow> k \<le> int (length data) \<Longrightarrow> fits (drop (nat k) data) (n - k)"
  by (auto simp: fits_def)

lemma u64_negative: "fits data n \<Longrightarrow> n < 0 \<Longrightarrow> int (length data) < u64 n"
proof -
  assume f: "fits data n" and n: "n < 0"
  have "n mod 2 ^ 64 = (n + 2 ^ 64) mod 2 ^ 64" by simp
  also have "\<dots> = n + 2 ^ 64"
    using f n by (intro mod_pos_pos_trivial) (auto simp: fits_def)
  finally show ?thesis using f by (simp add: u64_def fits_def)
qed

lemma u64_above: "fits data n \<Longrightarrow> int (length data) < n \<Longrightarrow> n < 2 ^ 63 \<Longrightarrow> int (length data) < u64 n"
  by (simp add: fits_def)

lemma convert_Inr:
  assumes "convertPayloadToVector data len = Inr msg" and "fits data len" and "len < 2 ^ 63"
  shows "0 \<le> len \<and> len \<le> int (length data) \<and> msg = take (nat len) data"
proof -
  have "\<not> int (length data) < u64 len" using assms(1) by (auto simp: convertPayloadToVector_def split: if_splits)
  then have "0 \<le> len" "len \<le> int (length data)"
    using u64_negative [OF assms(2)] u64_above [OF assms(2) _ assms(3)] by force+
  then show ?thesis using assms(1,3) by (auto simp: convertPayloadToVector_def split: if_splits)
qed

lemma convert_ok:
  "0 \<le> len \<Longrightarrow> len \<le> int (length data) \<Longrightarrow> len < 2 ^ 63 \<Longrightarrow>
   convertPayloadToVector data len = Inr (take (nat len) data)"
  by (simp add: convertPayloadToVector_def)

lemma extract_step:
  assumes "first_length E (m_test_msg_receive (paths s p)) data n = Inr (len, bulle)"
    and "convertPayloadToVector data len = Inr msg" and "len \<noteq> 0" and "len \<noteq> n"
  shows "m_extract_messages E p data n s =
    ebind (m_extract_messages E p (drop (nat len) data) (n - len)
             (if bulle then m_receivedBULLE E p s else s))
      (\<lambda>(rest, t). Inr (msg # rest, t))"
proof -
  have "(case r of Inl e \<Rightarrow> Inl e | Inr (rest, t) \<Rightarrow> Inr (msg # rest, t))
      = ebind r (\<lambda>(rest, t). Inr (msg # rest, t))" for r :: "(byte list list \<times> sys) res"
    by (cases r) auto
  then show ?thesis
    using assms by (subst m_extract_messages.simps) (simp add: Let_def)
qed

text \<open>
  When extraction returns, the size was not negative and did not exceed the buffer, and the
  messages, put end to end, are the payload.
\<close>

lemma extract_Inr:
  assumes "m_extract_messages E p data n s = Inr (msgs, t)" and "fits data n" and "n < 2 ^ 31"
  shows "0 \<le> n \<and> n \<le> int (length data) \<and> concat msgs = take (nat n) data \<and>
    link_step p s t \<and> path_ok (paths t p) = path_ok (paths s p)"
  using assms
proof (induction E p data n s arbitrary: msgs t rule: m_extract_messages.induct)
  case (1 E p data n s)
  obtain len bulle where fl: "first_length E (m_test_msg_receive (paths s p)) data n = Inr (len, bulle)"
    using "1.prems"(1) by (subst (asm) m_extract_messages.simps) (auto split: sum.splits)
  define s1 where "s1 = (if bulle then m_receivedBULLE E p s else s)"
  have s1: "link_step p s s1" "path_ok (paths s1 p) = path_ok (paths s p)"
    using received_bulle.frame by (simp_all add: s1_def) (simp add: m_receivedBULLE_def)
  have len: "len \<in> {2..7} \<or> len = n" by (rule first_length_cases [OF fl])
  show ?case
  proof (cases "len = 0")
    case True
    with len have "n = 0" by auto
    with True "1.prems"(1) fl s1 show ?thesis
      by (subst (asm) m_extract_messages.simps) (simp add: s1_def)
  next
    case False
    then obtain msg where msg: "convertPayloadToVector data len = Inr msg"
      using "1.prems"(1) fl by (subst (asm) m_extract_messages.simps) (auto simp: Let_def split: sum.splits)
    have "fits data len" using "1.prems"(2) len by (auto simp: fits_def)
    then have m: "0 \<le> len" "len \<le> int (length data)" "msg = take (nat len) data"
      using convert_Inr [OF msg] len "1.prems"(3) by auto
    show ?thesis
    proof (cases "len = n")
      case True
      with False "1.prems"(1) fl msg m s1 show ?thesis
        by (subst (asm) m_extract_messages.simps) (auto simp: s1_def)
    next
      case len_n: False
      obtain rest where r: "m_extract_messages E p (drop (nat len) data) (n - len) s1 = Inr (rest, t)"
        "msgs = msg # rest"
        using "1.prems"(1) unfolding extract_step [OF fl msg False len_n] s1_def [symmetric]
        by (auto simp: ebind_Inr_conv)
      have ih: "0 \<le> n - len \<and> n - len \<le> int (length (drop (nat len) data)) \<and>
          concat rest = take (nat (n - len)) (drop (nat len) data) \<and>
          link_step p s1 t \<and> path_ok (paths t p) = path_ok (paths s1 p)"
        using fits_drop [OF "1.prems"(2) m(1,2)] "1.prems"(3) m(1)
        by (intro "1.IH" [OF fl refl s1_def False msg len_n r(1)]) auto
      have "take (nat n) data = msg @ take (nat (n - len)) (drop (nat len) data)"
        using ih m take_add [of "nat len" "nat (n - len)" data] by (simp add: nat_add_distrib [symmetric])
      then have "concat msgs = take (nat n) data" using ih r(2) by simp
      moreover have "0 \<le> n" "n \<le> int (length data)" using ih m(1,2) by (auto simp: of_nat_diff)
      moreover have "link_step p s t" using link_step_trans [OF s1(1)] ih by blast
      ultimately show ?thesis using ih s1(2) by simp
    qed
  qed
qed

text \<open>The only failure of extraction is a read outside the buffer.\<close>

lemma first_length_error: "first_length E bulle data n = Inl e \<Longrightarrow> e = Out_of_bounds"
  by (cases data; cases "tl data")
    (auto simp: first_length_def rd_def split: option.splits if_splits)

lemma extract_error: "m_extract_messages E p data n s = Inl e \<Longrightarrow> e = Out_of_bounds"
proof (induction E p data n s arbitrary: e rule: m_extract_messages.induct)
  case (1 E p data n s)
  show ?case
  proof (cases "first_length E (m_test_msg_receive (paths s p)) data n")
    case (Inl e')
    with "1.prems" first_length_error [OF Inl] show ?thesis
      by (subst (asm) m_extract_messages.simps) simp
  next
    case (Inr r)
    obtain len bulle where r: "r = (len, bulle)" by (cases r)
    show ?thesis
      using "1.prems" "1.IH" [OF Inr r [symmetric] refl] Inr r
      by (subst (asm) m_extract_messages.simps)
        (auto simp: Let_def convertPayloadToVector_def split: sum.splits if_splits)
  qed
qed

text \<open>The messages the plugin knows: a code with its length, or a BULLE.\<close>

definition is_msg :: "env \<Rightarrow> BulleFormat \<Rightarrow> byte list \<Rightarrow> bool" where
  "is_msg E bulle m \<longleftrightarrow>
     m \<noteq> [] \<and>
     (case known_length E (hd m) of
        Some len \<Rightarrow> int (length m) = len
      | None \<Rightarrow> m = [first bulle, second bulle])"

lemma first_length_msg:
  assumes "is_msg E bulle m"
  shows "\<exists>b. first_length E bulle (m @ rest) n = Inr (int (length m), b)"
  using assms
  by (cases m) (auto simp: is_msg_def first_length_def split: option.splits)

lemma is_msg_length: "is_msg E bulle m \<Longrightarrow> 2 \<le> length m \<and> length m \<le> 7"
  by (cases m) (auto simp: is_msg_def known_length_def split: if_splits)

lemma extract_concat:
  assumes "ms \<noteq> []" and "\<forall>m \<in> set ms. is_msg E (m_test_msg_receive (paths s p)) m"
  shows "\<exists>t. m_extract_messages E p (concat ms @ rest) (int (length (concat ms))) s = Inr (ms, t)"
  using assms
proof (induction ms arbitrary: s)
  case (Cons m ms)
  define n where "n = int (length (concat (m # ms)))"
  define data where "data = concat (m # ms) @ rest"
  have m: "is_msg E (m_test_msg_receive (paths s p)) m" using Cons.prems(2) by simp
  obtain b where fl: "first_length E (m_test_msg_receive (paths s p)) data n = Inr (int (length m), b)"
    using first_length_msg [OF m, of "concat ms @ rest" n] by (auto simp: data_def)
  have l: "int (length m) \<noteq> 0" "int (length m) < 2 ^ 63" using is_msg_length [OF m] by auto
  have cv: "convertPayloadToVector data (int (length m)) = Inr m"
    using l by (subst convert_ok) (simp_all add: data_def)
  define s1 where "s1 = (if b then m_receivedBULLE E p s else s)"
  have s1: "m_test_msg_receive (paths s1 p) = m_test_msg_receive (paths s p)"
    by (simp add: s1_def m_receivedBULLE_def)
  show ?case
  proof (cases "ms = []")
    case True
    with fl cv l show ?thesis
      unfolding n_def [symmetric] data_def [symmetric]
      by (subst m_extract_messages.simps) (simp add: Let_def n_def)
  next
    case False
    have ne: "int (length m) \<noteq> n"
    proof -
      obtain m' ms' where "ms = m' # ms'" using False by (cases ms) auto
      with Cons.prems(2) is_msg_length [of E _ m'] show ?thesis by (fastforce simp: n_def)
    qed
    have "\<forall>m \<in> set ms. is_msg E (m_test_msg_receive (paths s1 p)) m" using Cons.prems(2) s1 by simp
    then obtain t where "m_extract_messages E p (concat ms @ rest) (int (length (concat ms))) s1 = Inr (ms, t)"
      using Cons.IH [OF False] by blast
    then have "m_extract_messages E p (drop (nat (int (length m))) data) (n - int (length m)) s1 = Inr (ms, t)"
      by (simp add: data_def n_def)
    with fl cv l ne show ?thesis
      unfolding n_def [symmetric] data_def [symmetric]
      by (subst m_extract_messages.simps) (simp add: Let_def s1_def)
  qed
qed simp

section \<open>Frames keep the invariant\<close>

text \<open>A frame whose buffer and size are those of a received frame.\<close>

definition frame_fits :: "MSG_TRAME \<Rightarrow> bool" where
  "frame_fits fr \<longleftrightarrow>
     0 \<le> usLgBuffer fr \<and> usLgBuffer fr < 2 ^ 16 \<and> int (length (aubTrame fr)) < 2 ^ 31"

lemma link_path_ok_inv:
  "plugin_ok s \<Longrightarrow> link_step p s t \<Longrightarrow> path_ok (paths t p) \<Longrightarrow> plugin_ok t \<and> same_conf s t"
  by (simp add: link_step_inv link_step_conf)

lemma receivedINFO_cases:
  assumes "plugin_ok s" and "frame_fits fr"
  shows "m_receivedINFO E p (aubTrame fr) (usLgBuffer fr) s = Inl Out_of_bounds \<or>
    (\<exists>ms t. m_receivedINFO E p (aubTrame fr) (usLgBuffer fr) s = Inr (ms, t) \<and> plugin_ok t \<and>
       same_conf s t \<and> m_active_path t = m_active_path s)"
proof (cases "1 < length (aubTrame fr) \<and> m_protocol_state (paths s p) \<noteq> OUTPUT_CONNECTED")
  case False
  with assms(1) show ?thesis by (auto simp: m_receivedINFO_def rd_def)
next
  case True
  define type where "type = aubTrame fr ! 1"
  have ok: "path_ok (paths s p)" using assms(1) by (simp add: plugin_ok_def sys_okD(2))
  define ex where "ex = (if canPathExtractMessage p s
     then m_extract_messages E p (drop 2 (aubTrame fr)) (usLgBuffer fr - 4) s else Inr ([], s))"
  have eq: "m_receivedINFO E p (aubTrame fr) (usLgBuffer fr) s =
       ebind ex (\<lambda>(messages, s1).
       ebind (m_sendRR E p (frame_pf type = 1) (frame_ns type) (frame_nr type) s1) (\<lambda>(ok, s2).
       Inr (if ok then messages else [], s2)))"
    using True by (simp add: m_receivedINFO_def rd_def ex_def type_def)
  show ?thesis
  proof (cases ex)
    case (Inl e)
    then have "e = Out_of_bounds"
      using extract_error by (auto simp: ex_def split: if_splits)
    with Inl eq show ?thesis by simp
  next
    case (Inr r)
    obtain ms s1 where r: "r = (ms, s1)" by (cases r)
    have "link_step p s s1 \<and> path_ok (paths s1 p) = path_ok (paths s p)"
    proof (cases "canPathExtractMessage p s")
      case True
      with Inr r have "m_extract_messages E p (drop 2 (aubTrame fr)) (usLgBuffer fr - 4) s = Inr (ms, s1)"
        by (simp add: ex_def)
      moreover have "fits (drop 2 (aubTrame fr)) (usLgBuffer fr - 4)" "usLgBuffer fr - 4 < 2 ^ 31"
        using assms(2) by (auto simp: fits_def frame_fits_def)
      ultimately show ?thesis using extract_Inr by blast
    qed (use Inr r in \<open>simp add: ex_def\<close>)
    with ok have l1: "link_step p s s1" "path_ok (paths s1 p)" by simp_all
    obtain b t where t: "m_sendRR E p (frame_pf type = 1) (frame_ns type) (frame_nr type) s1 = Inr (b, t)"
      "link_step p s1 t" "path_ok (paths t p)"
      using sendRR_total [OF l1(2) frame_field_range(2)] by blast
    have l: "link_step p s t" using l1(1) t(2) by (rule link_step_trans)
    then have "path_only p s t" by (simp add: link_step_def)
    with path_only_fields(2) have "m_active_path t = m_active_path s" .
    with link_path_ok_inv [OF assms(1) l t(3)] eq Inr r t(1) show ?thesis by simp
  qed
qed

text \<open>
  Handling a frame returns, or reads outside the buffer; it never loops, and it keeps the
  invariant.
\<close>

lemma analyze_frame_cases:
  assumes "plugin_ok s" and "m_paths s p" and "frame_fits fr"
  shows "m_analyze_frame E p fr s = Inl Out_of_bounds \<or>
    (\<exists>ms t. m_analyze_frame E p fr s = Inr (ms, t) \<and> plugin_ok t \<and> same_conf s t \<and>
       (ms \<noteq> [] \<longrightarrow> m_active_path t = m_active_path s))"
proof (cases "1 < length (aubTrame fr)")
  case False
  then have "rd (aubTrame fr) 1 = Inl Out_of_bounds" by (simp add: rd_def)
  then show ?thesis
    by (cases "aubTrame fr") (simp_all add: m_analyze_frame_def Let_def)
next
  case True
  then have rds: "rd (aubTrame fr) 0 = Inr (aubTrame fr ! 0)" "rd (aubTrame fr) 1 = Inr (aubTrame fr ! 1)"
    by (auto simp: rd_def)
  have ok: "path_ok (paths s p)" using assms(1) by (simp add: plugin_ok_def sys_okD(2))
  obtain b t where rr: "m_receivedRR E p (frame_nr (aubTrame fr ! 1)) (frame_pf (aubTrame fr ! 1) = 1) s
      = Inr (b, t)" "link_step p s t" "path_ok (paths t p)"
    using receivedRR_total [OF ok frame_field_range(2)] by blast
  have sarm: "same_conf s (m_receivedSARM E p s)"
  proof -
    have "same_conf s (asked (m_sendUA E p s))"
      using same_conf_trans [OF link_step_conf [OF send_ua.frame] link_step_conf [OF link_step_asked]] .
    with transition_conf same_conf_trans show ?thesis by (auto simp: m_receivedSARM_def Let_def)
  qed
  have ua: "same_conf s (m_receivedUA E p s)" by (simp add: m_receivedUA_def transition_conf)
  show ?thesis
    using receivedINFO_cases [OF assms(1,3), of E p] receivedSARM_inv [OF assms(1,2), of E]
      receivedUA_inv [OF assms(1,2), of E] link_path_ok_inv [OF assms(1) rr(2,3)] sarm ua rr(1) assms(1)
    unfolding m_analyze_frame_def Let_def rds ebind.simps by auto
qed

end
