(* ===== verification/HNZ_Messages.thy ===== *)
theory HNZ_Messages
  imports HNZ_Reception
begin

text \<open>
  What the plugin does with a message of an information frame (\<open>src/hnz.cpp\<close>, from
  \<open>m_handle_message\<close> to \<open>m_handleATC\<close>, and \<open>getEpochMsTimestamp\<close>): the readings it makes, the
  acknowledgement of commands, the general interrogations a message triggers or ends.
  A message is a vector of bytes; reading it outside its bounds is an error.
\<close>

section \<open>Measures\<close>

text \<open>A loop of one handler: every point that has a label adds its reading.\<close>

definition point_reading ::
  "sys \<Rightarrow> string \<Rightarrow> int \<Rightarrow> (ReadingParameters \<Rightarrow> ReadingParameters res) \<Rightarrow> Reading list \<Rightarrow> Reading list res" where
  "point_reading s msg_code msg_address fill readings =
     (let label = getLabel (m_hnz_conf s) msg_code msg_address in
      if label = [] then Inr readings
      else ebind (fill (new_ReadingParameters\<lparr>rp_label := label, rp_msg_code := msg_code,
                          rp_station_addr := hnz_remote_address s, rp_msg_address := msg_address\<rparr>))
             (\<lambda>params. Inr (readings @ [m_prepare_reading params])))"

definition m_handleModuloCode :: "byte list \<Rightarrow> sys \<Rightarrow> sys res" where
  "m_handleModuloCode data s = ebind (rd data 1) (\<lambda>b. Inr (setDaySection b s))"

text \<open>The value of a TMA: one's complement, 0xFF for an invalid one.\<close>

definition tma_value :: "byte \<Rightarrow> int" where
  "tma_value b = (if uint b AND 0x80 > 0 then - (uint b XOR 0xFF) else uint b)"

definition m_handleTM4 :: "sys \<Rightarrow> byte list \<Rightarrow> Reading list res" where
  "m_handleTM4 s data =
     efold (\<lambda>i readings.
       ebind (rd data 1) (\<lambda>adr.
       point_reading s ''TM'' (u32 (uint adr + int i)) (\<lambda>params.
         ebind (rd data (2 + i)) (\<lambda>b.
         Inr (params\<lparr>rp_value := tma_value b, rp_valid := of_bool (b = 0xFF), rp_an := ''TMA''\<rparr>)))
         readings))
       [0..<4] []"

text \<open>The value of a TM16: two bytes, the low one first, two's complement.\<close>

definition tm16_value :: "byte \<Rightarrow> byte \<Rightarrow> int" where
  "tm16_value low high =
     (let value = push_bit 8 (uint high) OR uint low
      in if value AND 0x8000 > 0 then (value AND 0x7FFF) - 32768 else value)"

definition m_handleTMN :: "sys \<Rightarrow> byte list \<Rightarrow> Reading list res" where
  "m_handleTMN s data =
     ebind (rd data 6) (\<lambda>invalid.
     let isTM8 = (drop_bit 7 (uint invalid) = 1);
         nbrTM = (if isTM8 then 4 else 2)
     in efold (\<lambda>i readings.
          ebind (rd data 1) (\<lambda>adr.
          point_reading s ''TM'' (u32 (uint adr + (if isTM8 then int i else int i * 2))) (\<lambda>params.
            if isTM8
            then ebind (rd data (2 + i)) (\<lambda>b.
                 Inr (params\<lparr>rp_value := uint b, rp_valid := drop_bit i (uint invalid) AND 0x1,
                             rp_an := ''TM8''\<rparr>))
            else ebind (rd data (2 + i * 2 + 1)) (\<lambda>high.
                 ebind (rd data (2 + i * 2)) (\<lambda>low.
                 Inr (params\<lparr>rp_value := tm16_value low high,
                             rp_valid := drop_bit (i * 2) (uint invalid) AND 0x1,
                             rp_an := ''TM16''\<rparr>))))
            readings))
          [0..<nbrTM] [])"

section \<open>Time of a TSCE\<close>

definition getEpochMsTimestamp :: "int \<Rightarrow> byte \<Rightarrow> int \<Rightarrow> int" where
  "getEpochMsTimestamp dateTime daySection ts =
     (let oneHourMs = 3600000; oneDayMs = 86400000; tenMinMs = 600000;
          epochMs0 = u64 (dateTime - dateTime smod oneDayMs);
          hours = (u64 dateTime mod oneDayMs) div oneHourMs mod 24;
          epochMs1 = (if daySection = 0 \<and> hours = 23 then u64 (epochMs0 + oneDayMs) else epochMs0);
          epochMs2 = (if daySection = 143 \<and> hours = 0 then u64 (epochMs1 - oneDayMs) else epochMs1);
          epochMs3 = u64 (epochMs2 + uint daySection * tenMinMs)
      in u64 (epochMs3 + u32 (ts * 10)))"

text \<open>The offset of the clock in use from UTC, as the code computes it from hours, minutes and seconds.\<close>

definition real_utc_offset_s :: "env \<Rightarrow> sys \<Rightarrow> int \<Rightarrow> int" where
  "real_utc_offset_s E s now =
     tm_sod (if get_use_utc (m_hnz_conf s) then gmtime now else localtime (tz_offset E) now)
     - tm_sod (gmtime now)"

definition tsce_timestamp :: "env \<Rightarrow> sys \<Rightarrow> int \<Rightarrow> int \<Rightarrow> int" where
  "tsce_timestamp E s ms_since_epoch ts =
     u64 (getEpochMsTimestamp ms_since_epoch (m_daySection s) ts
          - real_utc_offset_s E s (ms_since_epoch div 1000) * 1000)"

section \<open>Signals\<close>

text \<open>The address of a TS or TC: the first byte and the three high bits of the next, in decimal.\<close>

definition ts_address :: "byte \<Rightarrow> byte \<Rightarrow> int res" where
  "ts_address ad0 b =
     ebind (stoi (to_string (uint ad0) @ to_string (drop_bit 5 (uint b)))) (\<lambda>a. Inr (u32 a))"

text \<open>A triggering TS asks for a GI: at once, after the running one, or not at all without a path.\<close>

definition triggered_GI :: "env \<Rightarrow> int \<Rightarrow> int \<Rightarrow> sys \<Rightarrow> sys" where
  "triggered_GI E msg_address value s =
     (let isTsTriggering = isTsAddressCgTriggering (m_hnz_conf s) msg_address in
      if isTsTriggering \<noteq> -1 \<and> value = isTsTriggering
      then case getActivePath s of
             None \<Rightarrow> s
           | Some p \<Rightarrow>
               if m_giStatus s = GI_STARTED \<or> m_giStatus s = GI_IN_PROGRESS
               then s\<lparr>m_giInQueue := True\<rparr>
               else sendGeneralInterrogation E p s
      else s)"

definition tsce_params :: "env \<Rightarrow> sys \<Rightarrow> string \<Rightarrow> int \<Rightarrow> byte \<Rightarrow> byte \<Rightarrow> byte \<Rightarrow> ReadingParameters" where
  "tsce_params E s label msg_address b2 b3 b4 =
     new_ReadingParameters\<lparr>
       rp_label := label, rp_msg_code := ''TS'', rp_station_addr := hnz_remote_address s,
       rp_msg_address := msg_address,
       rp_value := drop_bit 3 (uint b2) AND 0x1,
       rp_valid := drop_bit 4 (uint b2) AND 0x1,
       rp_ts := tsce_timestamp E s (now_ms E s) (push_bit 8 (uint b3) OR uint b4),
       rp_ts_iv := drop_bit 2 (uint b2) AND 0x1,
       rp_ts_c := drop_bit 1 (uint b2) AND 0x1,
       rp_ts_s := uint b2 AND 0x1,
       rp_cg := False,
       rp_empty_timestamp :=
         (case getActivePath s of
            None \<Rightarrow> False | Some p \<Rightarrow> m_protocol_state (paths s p) = INPUT_CONNECTED)\<rparr>"

definition m_handleTSCE :: "env \<Rightarrow> byte list \<Rightarrow> sys \<Rightarrow> (Reading list \<times> sys) res" where
  "m_handleTSCE E data s =
     ebind (rd data 1) (\<lambda>b1. ebind (rd data 2) (\<lambda>b2.
     ebind (ts_address b1 b2) (\<lambda>msg_address.
     let label = getLabel (m_hnz_conf s) ''TS'' msg_address in
     if label = [] then Inr ([], s)
     else
       ebind (rd data 3) (\<lambda>b3. ebind (rd data 4) (\<lambda>b4.
       let params = tsce_params E s label msg_address b2 b3 b4
       in Inr ([m_prepare_reading params], triggered_GI E msg_address (rp_value params) (asked s)))))))"

text \<open>One of the 16 TS of a TSCG.\<close>

definition tscg_address :: "byte \<Rightarrow> nat \<Rightarrow> int res" where
  "tscg_address ad0 i =
     ebind (stoi (to_string (uint ad0 + int (i div 8)) @ to_string (int (i mod 8)))) (\<lambda>a. Inr (u32 a))"

definition tscg_point :: "byte list \<Rightarrow> nat \<Rightarrow> Reading list \<times> sys \<Rightarrow> (Reading list \<times> sys) res" where
  "tscg_point data i r =
     (let (readings, s) = r in
      ebind (rd data 1) (\<lambda>ad0.
      ebind (tscg_address ad0 i) (\<lambda>msg_address.
      let label = getLabel (m_hnz_conf s) ''TS'' msg_address in
      if label = [] then Inr (readings, s)
      else
        let dep = (3 - i mod 4) * 2 in
        ebind (rd data (2 + i div 4)) (\<lambda>b.
        let params = new_ReadingParameters\<lparr>
              rp_label := label, rp_msg_code := ''TS'', rp_station_addr := hnz_remote_address s,
              rp_msg_address := msg_address, rp_value := drop_bit dep (uint b) AND 0x1,
              rp_valid := drop_bit 1 (drop_bit dep (uint b) AND 0x2), rp_cg := True\<rparr>
        in Inr (readings @ [m_prepare_reading params],
                s\<lparr>m_gi_addresses_received := m_gi_addresses_received s @ [msg_address]\<rparr>)))))"

definition m_handleTSCG :: "byte list \<Rightarrow> sys \<Rightarrow> (Reading list \<times> sys) res" where
  "m_handleTSCG data s =
     ebind (efold (tscg_point data) [0..<16] ([], s)) (\<lambda>(readings, s1).
     Inr (readings, if getGiStatus s1 = GI_STARTED then updateGiStatus GI_IN_PROGRESS s1 else s1))"

section \<open>Acknowledgement of commands\<close>

definition acknowledge :: "string \<Rightarrow> int \<Rightarrow> sys \<Rightarrow> sys" where
  "acknowledge typ msg_address s =
     fold (\<lambda>p s. if m_paths s p then receivedCommandACK p typ (s32 msg_address) s else s) path_order s"

definition m_handleATVC :: "byte list \<Rightarrow> sys \<Rightarrow> (Reading list \<times> sys) res" where
  "m_handleATVC data s =
     ebind (rd data 1) (\<lambda>b1.
     let msg_address = uint b1 AND 0x1F; s1 = acknowledge ''TVC'' msg_address s in
     ebind (point_reading s1 ''TVC'' msg_address (\<lambda>params.
        ebind (rd data 2) (\<lambda>b2. ebind (rd data 3) (\<lambda>b3.
        let value = uint b2 AND 0x7F
        in Inr (params\<lparr>rp_value := (if drop_bit 7 (uint b3) AND 0x1 = 1 then value * -1 else value),
                       rp_valid := drop_bit 6 (uint b1) AND 0x1\<rparr>)))) [])
       (\<lambda>readings. Inr (readings, s1)))"

definition m_handleATC :: "byte list \<Rightarrow> sys \<Rightarrow> (Reading list \<times> sys) res" where
  "m_handleATC data s =
     ebind (rd data 1) (\<lambda>b1. ebind (rd data 2) (\<lambda>b2.
     ebind (ts_address b1 b2) (\<lambda>msg_address.
     let s1 = acknowledge ''TC'' msg_address s in
     ebind (point_reading s1 ''TC'' msg_address (\<lambda>params.
        let CR = uint b2 AND 0x7
        in Inr (params\<lparr>rp_value := drop_bit 3 (uint b2) AND 0x3,
                       rp_valid := (if CR = 0x1 then 0 else 1)\<rparr>)) [])
       (\<lambda>readings. Inr (readings, s1)))))"

section \<open>Handling a message\<close>

text \<open>The \<open>switch\<close> on the code; the default case only looks whether the message is a BULLE.\<close>

definition dispatch :: "env \<Rightarrow> byte \<Rightarrow> byte list \<Rightarrow> sys \<Rightarrow> (Reading list \<times> sys) res" where
  "dispatch E t data s =
     (if t = MODULO_CODE E then ebind (m_handleModuloCode data s) (\<lambda>s1. Inr ([], s1))
      else if t = TM4_CODE E then ebind (m_handleTM4 s data) (\<lambda>readings. Inr (readings, s))
      else if t = TSCE_CODE E then m_handleTSCE E data s
      else if t = TSCG_CODE E then m_handleTSCG data s
      else if t = TMN_CODE E then ebind (m_handleTMN s data) (\<lambda>readings. Inr (readings, s))
      else if t = TCACK_CODE E then m_handleATC data s
      else if t = TVCACK_CODE E then m_handleATVC data s
      else if t = first (hnz_test_msg_receive s) then ebind (rd data 1) (\<lambda>_. Inr ([], s))
      else Inr ([], s))"

definition check_last_TS :: "env \<Rightarrow> sys \<Rightarrow> sys res" where
  "check_last_TS E s =
     (if m_gi_addresses_received s \<noteq> [] \<and>
         last (m_gi_addresses_received s) = getLastTSAddress (m_hnz_conf s)
      then
        ebind (if int (length (m_gi_addresses_received s)) \<noteq> getNumberCG (m_hnz_conf s)
               then ebind (m_getMismatchingTSCGAddresses s) (\<lambda>_. Inr s) else Inr s)
          (checkGICompleted E True)
      else Inr s)"

definition m_handle_message :: "env \<Rightarrow> byte list \<Rightarrow> sys \<Rightarrow> sys res" where
  "m_handle_message E data s =
     ebind (rd data 0) (\<lambda>t.
     ebind (dispatch E t data s) (\<lambda>(readings, s1).
     let s2 = (if readings \<noteq> [] then m_sendToFledge readings s1 else s1)
     in if t = TSCG_CODE E then check_last_TS E s2 else Inr s2))"

definition handle_messages :: "env \<Rightarrow> byte list list \<Rightarrow> sys \<Rightarrow> sys res" where
  "handle_messages E messages s = efold (m_handle_message E) messages s"

section \<open>Addresses\<close>

lemma ts_address_eq: "ts_address ad0 b = Inr (10 * uint ad0 + uint b div 32)"
proof -
  have d: "0 \<le> uint b div 32" "uint b div 32 < 8" "0 \<le> uint ad0" "uint ad0 < 256"
    using byte_range [of b] byte_range [of ad0] by (auto simp: pos_imp_zdiv_nonneg_iff)
  then have "stoi (to_string (uint ad0) @ to_string (uint b div 32)) = Inr (10 * uint ad0 + uint b div 32)"
    by (intro stoi_append_digit) auto
  with d show ?thesis by (simp add: ts_address_def shr_int)
qed

lemma tscg_address_eq:
  assumes "i < 16"
  shows "tscg_address ad0 i = Inr (10 * (uint ad0 + int (i div 8)) + int (i mod 8))"
proof -
  have d: "0 \<le> uint ad0" "uint ad0 < 256" "i div 8 < 2" "i mod 8 < 8"
    using byte_range [of ad0] assms by auto
  then have "stoi (to_string (uint ad0 + int (i div 8)) @ to_string (int (i mod 8)))
      = Inr (10 * (uint ad0 + int (i div 8)) + int (i mod 8))"
    by (intro stoi_append_digit) auto
  with d show ?thesis by (simp add: tscg_address_def)
qed

section \<open>Well-formed messages are handled\<close>

lemma point_reading_total:
  assumes "\<And>params. \<exists>params'. fill params = Inr params'"
  shows "\<exists>r. point_reading s code a fill readings = Inr r"
proof -
  obtain params' where "fill (new_ReadingParameters\<lparr>rp_label := getLabel (m_hnz_conf s) code a,
      rp_msg_code := code, rp_station_addr := hnz_remote_address s, rp_msg_address := a\<rparr>) = Inr params'"
    using assms by blast
  then show ?thesis by (auto simp: point_reading_def Let_def)
qed

lemma handleTM4_total:
  assumes "length data = 6" shows "\<exists>r. m_handleTM4 s data = Inr r"
proof -
  have "\<exists>r. m_handleTM4 s data = Inr r \<and> True"
    unfolding m_handleTM4_def
  proof (rule efold_total)
    fix i :: nat and readings :: "Reading list" assume "i \<in> set [0..<4]"
    then have i: "rd data (2 + i) = Inr (data ! (2 + i))" "rd data 1 = Inr (data ! 1)"
      using assms by (simp_all add: rd_def)
    show "\<exists>t. ebind (rd data 1) (\<lambda>adr. point_reading s ''TM'' (u32 (uint adr + int i)) (\<lambda>params.
         ebind (rd data (2 + i)) (\<lambda>b.
         Inr (params\<lparr>rp_value := tma_value b, rp_valid := of_bool (b = 0xFF), rp_an := ''TMA''\<rparr>)))
         readings) = Inr t \<and> True"
      unfolding i ebind.simps by (simp add: point_reading_total)
  qed simp
  then show ?thesis by simp
qed

lemma handleTMN_total:
  assumes "length data = 7" shows "\<exists>r. m_handleTMN s data = Inr r"
proof -
  define n where "n = (if drop_bit 7 (uint (data ! 6)) = 1 then 4 else 2 :: nat)"
  have r6: "rd data 6 = Inr (data ! 6)" "rd data 1 = Inr (data ! 1)" using assms by (simp_all add: rd_def)
  have "\<exists>r. m_handleTMN s data = Inr r \<and> True"
    unfolding m_handleTMN_def r6 ebind.simps Let_def
  proof (rule efold_total)
    fix i :: nat and readings :: "Reading list"
    assume "i \<in> set [0..<if drop_bit 7 (uint (data ! 6)) = 1 then 4 else 2]"
    then have i: "i < 4" "drop_bit 7 (uint (data ! 6)) \<noteq> 1 \<Longrightarrow> i < 2" by (auto split: if_splits)
    have "rd data (2 + i) = Inr (data ! (2 + i))" using i(1) assms by (simp add: rd_def)
    moreover have "drop_bit 7 (uint (data ! 6)) \<noteq> 1 \<Longrightarrow>
        rd data (2 + i * 2 + 1) = Inr (data ! (2 + i * 2 + 1)) \<and> rd data (2 + i * 2) = Inr (data ! (2 + i * 2))"
      using i(2) assms by (simp add: rd_def)
    ultimately show "\<exists>t. point_reading s ''TM''
          (u32 (uint (data ! 1) + (if drop_bit 7 (uint (data ! 6)) = 1 then int i else int i * 2)))
          (\<lambda>params. if drop_bit 7 (uint (data ! 6)) = 1
            then ebind (rd data (2 + i)) (\<lambda>b.
                 Inr (params\<lparr>rp_value := uint b, rp_valid := drop_bit i (uint (data ! 6)) AND 0x1,
                             rp_an := ''TM8''\<rparr>))
            else ebind (rd data (2 + i * 2 + 1)) (\<lambda>high.
                 ebind (rd data (2 + i * 2)) (\<lambda>low.
                 Inr (params\<lparr>rp_value := tm16_value low high,
                             rp_valid := drop_bit (i * 2) (uint (data ! 6)) AND 0x1,
                             rp_an := ''TM16''\<rparr>))))
          readings = Inr t \<and> True"
      by (cases "drop_bit 7 (uint (data ! 6)) = 1") (simp_all add: point_reading_total)
  qed simp
  then show ?thesis by simp
qed

text \<open>What the handlers may change: the addresses received, the GI and the commands sent.\<close>

lemma triggered_GI_inv:
  assumes "plugin_ok s"
  shows "plugin_ok (triggered_GI E a v s)" "same_conf s (triggered_GI E a v s)"
    "m_active_path (triggered_GI E a v s) = m_active_path s"
proof -
  have "plugin_ok (s\<lparr>m_giInQueue := True\<rparr>) = plugin_ok s" by (rule inv_cong) simp_all
  then show "plugin_ok (triggered_GI E a v s)"
    using assms sendGI_inv [OF assms]
    by (simp add: triggered_GI_def Let_def getActivePath_def split: option.split)
  show "same_conf s (triggered_GI E a v s)" "m_active_path (triggered_GI E a v s) = m_active_path s"
    by (simp_all add: triggered_GI_def Let_def getActivePath_def same_conf_def sendGI_fields
        split: option.split)
qed

lemma handleTSCE_total:
  assumes "length data = 5" and "plugin_ok s"
  shows "\<exists>r t. m_handleTSCE E data s = Inr (r, t) \<and> plugin_ok t \<and> same_conf s t \<and>
    m_active_path t = m_active_path s"
proof -
  have rds: "rd data 1 = Inr (data ! 1)" "rd data 2 = Inr (data ! 2)"
    "rd data 3 = Inr (data ! 3)" "rd data 4 = Inr (data ! 4)"
    using assms(1) by (simp_all add: rd_def)
  have a: "plugin_ok (asked s)" using assms(2) by (simp add: asked_inv)
  note tr = triggered_GI_inv [OF a]
  show ?thesis
    using tr same_conf_trans [OF asked_inv(2) tr(2)] assms(2)
    unfolding m_handleTSCE_def rds ts_address_eq ebind.simps Let_def
    by (auto simp: asked_def)
qed

lemma tscg_point_total:
  assumes "length data = 6" and "i < 16"
  shows "\<exists>r'. tscg_point data i r = Inr r' \<and>
    (\<exists>l. snd r' = (snd r)\<lparr>m_gi_addresses_received := l\<rparr>)"
proof -
  obtain readings s where r: "r = (readings, s)" by (cases r)
  have rds: "rd data 1 = Inr (data ! 1)" "rd data (2 + i div 4) = Inr (data ! (2 + i div 4))"
    using assms by (auto simp: rd_def)
  have "\<exists>l. s = s\<lparr>m_gi_addresses_received := l\<rparr>"
    by (rule exI [of _ "m_gi_addresses_received s"]) simp
  then show ?thesis
    unfolding tscg_point_def r rds tscg_address_eq [OF assms(2)] ebind.simps Let_def by auto
qed

lemma handleTSCG_total:
  assumes "length data = 6" and "plugin_ok s"
  shows "\<exists>r t. m_handleTSCG data s = Inr (r, t) \<and> plugin_ok t \<and> same_conf s t \<and>
    m_active_path t = m_active_path s \<and> m_giInQueue t = m_giInQueue s"
proof -
  have "\<exists>r. efold (tscg_point data) [0..<16] ([], s) = Inr r \<and>
      (\<exists>l. snd r = s\<lparr>m_gi_addresses_received := l\<rparr>)"
  proof (rule efold_total)
    show "\<exists>l. snd ([], s) = s\<lparr>m_gi_addresses_received := l\<rparr>"
      by (rule exI [of _ "m_gi_addresses_received s"]) simp
    show "\<exists>t. tscg_point data i r = Inr t \<and> (\<exists>l. snd t = s\<lparr>m_gi_addresses_received := l\<rparr>)"
      if "i \<in> set [0..<16]" "\<exists>l. snd r = s\<lparr>m_gi_addresses_received := l\<rparr>" for i r
      using tscg_point_total [OF assms(1), of i r] that by auto
  qed
  then obtain rs l where ef: "efold (tscg_point data) [0..<16] ([], s) = Inr (rs, s\<lparr>m_gi_addresses_received := l\<rparr>)"
    by (metis prod.collapse)
  define s1 where "s1 = s\<lparr>m_gi_addresses_received := l\<rparr>"
  have s1: "plugin_ok s1" using assms(2) inv_cong [of s1 s] by (simp add: s1_def)
  have "plugin_ok (updateGiStatus GI_IN_PROGRESS s1)" if "getGiStatus s1 = GI_STARTED"
    by (rule updateGiStatus_inv) (use s1 that in \<open>auto simp: plugin_ok_def gi_ok_def\<close>)
  with s1 ef show ?thesis
    by (auto simp: m_handleTSCG_def s1_def same_conf_def)
qed

lemma receivedCommandACK_link: "link_step p s (receivedCommandACK p typ a s)"
  unfolding receivedCommandACK_def
  by (rule link_step_upd_path) (simp add: same_states_def path_settings.truncate_def)

lemma receivedCommandACK_inv:
  assumes "plugin_ok s"
  shows "plugin_ok (receivedCommandACK p typ a s)" "same_conf s (receivedCommandACK p typ a s)"
    "m_active_path (receivedCommandACK p typ a s) = m_active_path s"
    "m_giInQueue (receivedCommandACK p typ a s) = m_giInQueue s"
proof -
  have "path_ok (paths (receivedCommandACK p typ a s) p)"
    using assms by (simp add: receivedCommandACK_def plugin_ok_def sys_okD(2))
  from link_path_ok_inv [OF assms receivedCommandACK_link this]
  show "plugin_ok (receivedCommandACK p typ a s)" "same_conf s (receivedCommandACK p typ a s)"
    by simp_all
  show "m_active_path (receivedCommandACK p typ a s) = m_active_path s"
    "m_giInQueue (receivedCommandACK p typ a s) = m_giInQueue s"
    by (simp_all add: receivedCommandACK_def upd_path_def)
qed

lemma acknowledge_inv:
  assumes "plugin_ok s"
  shows "plugin_ok (acknowledge typ a s) \<and> same_conf s (acknowledge typ a s) \<and>
    m_active_path (acknowledge typ a s) = m_active_path s \<and>
    m_giInQueue (acknowledge typ a s) = m_giInQueue s"
proof -
  define f where "f p u = (if m_paths u p then receivedCommandACK p typ (s32 a) u else u)" for p u
  have f: "plugin_ok (f p u) \<and> same_conf u (f p u) \<and> m_active_path (f p u) = m_active_path u \<and>
      m_giInQueue (f p u) = m_giInQueue u" if "plugin_ok u" for p u
    using that receivedCommandACK_inv [OF that] by (simp add: f_def)
  have "acknowledge typ a s = f Path_B (f Path_A s)"
    by (simp add: acknowledge_def path_order_def f_def)
  then show ?thesis
    using f [OF assms, of Path_A] f [of "f Path_A s" Path_B] by (auto intro: same_conf_trans)
qed

lemma handleATVC_total:
  assumes "length data = 4" and "plugin_ok s"
  shows "\<exists>r t. m_handleATVC data s = Inr (r, t) \<and> plugin_ok t \<and> same_conf s t \<and>
    m_active_path t = m_active_path s"
proof -
  have rds: "rd data 1 = Inr (data ! 1)" "rd data 2 = Inr (data ! 2)" "rd data 3 = Inr (data ! 3)"
    using assms(1) by (simp_all add: rd_def)
  define s1 where "s1 = acknowledge ''TVC'' (uint (data ! 1) AND 0x1F) s"
  define fill where "fill params = (let value = uint (data ! 2) AND 0x7F
        in Inr (params\<lparr>rp_value := (if drop_bit 7 (uint (data ! 3)) AND 0x1 = 1 then value * -1 else value),
                       rp_valid := drop_bit 6 (uint (data ! 1)) AND 0x1\<rparr>) :: ReadingParameters res)" for params
  obtain r where "point_reading s1 ''TVC'' (uint (data ! 1) AND 0x1F) fill [] = Inr r"
    using point_reading_total [of fill s1 "''TVC''" "uint (data ! 1) AND 0x1F" "[]"]
    by (auto simp: fill_def Let_def)
  then have "m_handleATVC data s = Inr (r, s1)"
    unfolding m_handleATVC_def rds ebind.simps Let_def s1_def fill_def by simp
  with acknowledge_inv [OF assms(2)] show ?thesis unfolding s1_def by blast
qed

lemma handleATC_total:
  assumes "length data = 3" and "plugin_ok s"
  shows "\<exists>r t. m_handleATC data s = Inr (r, t) \<and> plugin_ok t \<and> same_conf s t \<and>
    m_active_path t = m_active_path s"
proof -
  have rds: "rd data 1 = Inr (data ! 1)" "rd data 2 = Inr (data ! 2)"
    using assms(1) by (simp_all add: rd_def)
  define a where "a = 10 * uint (data ! 1) + uint (data ! 2) div 32"
  define s1 where "s1 = acknowledge ''TC'' a s"
  define fill where "fill params = (let CR = uint (data ! 2) AND 0x7
        in Inr (params\<lparr>rp_value := drop_bit 3 (uint (data ! 2)) AND 0x3,
                       rp_valid := (if CR = 0x1 then 0 else 1)\<rparr>) :: ReadingParameters res)" for params
  obtain r where "point_reading s1 ''TC'' a fill [] = Inr r"
    using point_reading_total [of fill s1 "''TC''" a "[]"]
    by (auto simp: fill_def Let_def)
  then have "m_handleATC data s = Inr (r, s1)"
    unfolding m_handleATC_def rds ebind.simps ts_address_eq Let_def s1_def fill_def a_def by simp
  with acknowledge_inv [OF assms(2)] show ?thesis unfolding s1_def by blast
qed

lemma handleModulo_total:
  assumes "length data = 2" and "plugin_ok s"
  shows "\<exists>t. m_handleModuloCode data s = Inr t \<and> plugin_ok t \<and> same_conf s t \<and>
    m_active_path t = m_active_path s"
  using assms by (simp add: m_handleModuloCode_def rd_def)
    (simp add: setDaySection_def same_conf_def)

text \<open>A message the extraction produces is dispatched without error.\<close>

lemma dispatch_total:
  assumes "codes_distinct E" and "is_msg E (hnz_test_msg_receive s) data" and "plugin_ok s"
  shows "\<exists>r t. dispatch E (hd data) data s = Inr (r, t) \<and> plugin_ok t \<and> same_conf s t \<and>
    m_active_path t = m_active_path s"
proof -
  define t where "t = hd data"
  have len: "case known_length E t of Some n \<Rightarrow> int (length data) = n
      | None \<Rightarrow> data = [first (hnz_test_msg_receive s), second (hnz_test_msg_receive s)]"
    using assms(2) by (simp add: is_msg_def t_def)
  note dist = assms(1) [unfolded codes_distinct_def, simplified]
  show ?thesis
  proof (cases "known_length E t")
    case None
    then have "t \<notin> {MODULO_CODE E, TM4_CODE E, TSCE_CODE E, TSCG_CODE E, TMN_CODE E, TCACK_CODE E, TVCACK_CODE E}"
      by (auto simp: known_length_def split: if_splits)
    then have "dispatch E t data s = (if t = first (hnz_test_msg_receive s)
        then ebind (rd data 1) (\<lambda>_. Inr ([], s)) else Inr ([], s))"
      by (auto simp: dispatch_def)
    moreover have "rd data 1 = Inr (second (hnz_test_msg_receive s))" using len None by simp
    ultimately show ?thesis using assms(3) by (simp add: t_def)
  next
    case (Some n)
    with len have n: "n = int (length data)" by simp
    consider "t = TM4_CODE E" "length data = 6" | "t = TSCE_CODE E" "length data = 5"
      | "t = TSCG_CODE E" "length data = 6" | "t = TMN_CODE E" "length data = 7"
      | "t = MODULO_CODE E" "length data = 2" | "t = TCACK_CODE E" "length data = 3"
      | "t = TVCACK_CODE E" "length data = 4"
      using Some n by (auto simp: known_length_def split: if_splits)
    then show ?thesis
    proof cases
      case 1 with handleTM4_total [of data s] dist assms(3) show ?thesis
        by (auto simp: dispatch_def t_def [symmetric])
    next
      case 2 with handleTSCE_total [of data s E] dist assms(3) show ?thesis
        by (auto simp: dispatch_def t_def [symmetric])
    next
      case 3 with handleTSCG_total [of data s] dist assms(3) show ?thesis
        by (fastforce simp: dispatch_def t_def [symmetric])
    next
      case 4 with handleTMN_total [of data s] dist assms(3) show ?thesis
        by (auto simp: dispatch_def t_def [symmetric])
    next
      case 5 with handleModulo_total [of data s] dist assms(3) show ?thesis
        by (auto simp: dispatch_def t_def [symmetric])
    next
      case 6 with handleATC_total [of data s] dist assms(3) show ?thesis
        by (auto simp: dispatch_def t_def [symmetric])
    next
      case 7 with handleATVC_total [of data s] dist assms(3) show ?thesis
        by (auto simp: dispatch_def t_def [symmetric])
    qed
  qed
qed

lemma sendToFledge_inv:
  assumes "plugin_ok s"
  shows "plugin_ok (m_sendToFledge rs s) \<and> same_conf s (m_sendToFledge rs s) \<and>
    m_active_path (m_sendToFledge rs s) = m_active_path s"
proof -
  note f = fledge_only_fields [OF fledge_only_sendToFledge [of s rs]]
  have "plugin_ok (m_sendToFledge rs s) = plugin_ok s" by (rule inv_cong) (simp_all add: f)
  with assms show ?thesis by (simp add: f same_conf_def)
qed

lemma check_last_TS_inv:
  assumes "plugin_ok s" and "points_ok ''TS'' s" and "m_giInQueue s \<Longrightarrow> m_active_path s \<noteq> None"
  shows "\<exists>t. check_last_TS E s = Inr t \<and> plugin_ok t \<and> same_conf s t \<and> m_active_path t = m_active_path s"
proof -
  have "\<exists>m. m_getMismatchingTSCGAddresses s = Inr m"
    using assms(2) by (auto simp: m_getMismatchingTSCGAddresses_def points_ok_def)
  then obtain m where m: "m_getMismatchingTSCGAddresses s = Inr m" by blast
  show ?thesis
    using checkGICompleted_inv [OF assms, of E True] assms(1) by (auto simp: check_last_TS_def m)
qed

text \<open>
  A well-formed message is handled without error while there is an active path: then a
  delayed GI has a path to start on.
\<close>

lemma handle_message_total:
  assumes "codes_distinct E" and "is_msg E (hnz_test_msg_receive s) data" and "plugin_ok s"
    and "points_ok ''TS'' s" and "m_active_path s \<noteq> None"
  shows "\<exists>t. m_handle_message E data s = Inr t \<and> plugin_ok t \<and> same_conf s t \<and>
    m_active_path t = m_active_path s"
proof -
  have rd0: "rd data 0 = Inr (hd data)"
    using assms(2) by (cases data) (auto simp: is_msg_def)
  obtain r u where u: "dispatch E (hd data) data s = Inr (r, u)" "plugin_ok u" "same_conf s u"
    "m_active_path u = m_active_path s"
    using dispatch_total [OF assms(1-3)] by blast
  define v where "v = (if r \<noteq> [] then m_sendToFledge r u else u)"
  have v: "plugin_ok v" "same_conf u v" "m_active_path v = m_active_path s"
    using sendToFledge_inv [OF u(2), of r] u(2,4) by (auto simp: v_def)
  have sv: "same_conf s v" using u(3) v(2) by (rule same_conf_trans)
  then have "points_ok ''TS'' v" using assms(4) by (simp add: same_conf_points)
  then obtain w where "check_last_TS E v = Inr w" "plugin_ok w" "same_conf v w" "m_active_path w = m_active_path v"
    using check_last_TS_inv [OF v(1)] v(3) assms(5) by metis
  then show ?thesis
    using u(1) v sv same_conf_trans [OF sv]
    by (simp add: m_handle_message_def rd0 v_def [symmetric] Let_def)
qed

section \<open>Any message keeps the invariant\<close>

text \<open>
  Whatever the bytes are: when handling a message returns, the invariant holds.
\<close>

lemma handleTSCE_keeps:
  assumes "plugin_ok s" and "m_handleTSCE E data s = Inr (r, t)"
  shows "plugin_ok t \<and> same_conf s t"
proof -
  have "t = s \<or> (\<exists>a v. t = triggered_GI E a v (asked s))"
    using assms(2) by (auto simp: m_handleTSCE_def Let_def ebind_Inr_conv split: if_splits)
  moreover have "plugin_ok (asked s)" using assms(1) by (simp add: asked_inv)
  ultimately show ?thesis
    using triggered_GI_inv [of "asked s" E] assms(1) same_conf_trans [OF asked_inv(2)] by auto
qed

lemma tscg_point_keeps:
  assumes "tscg_point data i r = Inr r'"
  shows "\<exists>l. snd r' = (snd r)\<lparr>m_gi_addresses_received := l\<rparr>"
proof -
  obtain readings s where r: "r = (readings, s)" by (cases r)
  have "\<exists>l. s = s\<lparr>m_gi_addresses_received := l\<rparr>"
    by (rule exI [of _ "m_gi_addresses_received s"]) simp
  with assms show ?thesis
    by (auto simp: tscg_point_def r Let_def ebind_Inr_conv split: if_splits)
qed

lemma handleTSCG_keeps:
  assumes "plugin_ok s" and "m_handleTSCG data s = Inr (r, t)"
  shows "plugin_ok t \<and> same_conf s t"
proof -
  obtain rs u where u: "efold (tscg_point data) [0..<16] ([], s) = Inr (rs, u)"
    and t: "t = (if getGiStatus u = GI_STARTED then updateGiStatus GI_IN_PROGRESS u else u)"
    using assms(2) by (auto simp: m_handleTSCG_def ebind_Inr_conv)
  have "\<exists>l. snd (rs, u) = s\<lparr>m_gi_addresses_received := l\<rparr>"
  proof (rule efold_inv [OF u])
    show "\<exists>l. snd ([], s) = s\<lparr>m_gi_addresses_received := l\<rparr>"
      by (rule exI [of _ "m_gi_addresses_received s"]) simp
    show "\<exists>l. snd b = s\<lparr>m_gi_addresses_received := l\<rparr>"
      if "\<exists>l. snd a = s\<lparr>m_gi_addresses_received := l\<rparr>" "tscg_point data i a = Inr b" for i a b
      using that tscg_point_keeps by fastforce
  qed
  then obtain l where l: "u = s\<lparr>m_gi_addresses_received := l\<rparr>" by auto
  have s1: "plugin_ok u" using assms(1) inv_cong [of u s] by (simp add: l)
  have "plugin_ok (updateGiStatus GI_IN_PROGRESS u)" if "getGiStatus u = GI_STARTED"
    by (rule updateGiStatus_inv) (use s1 that in \<open>auto simp: plugin_ok_def gi_ok_def\<close>)
  with s1 show ?thesis by (simp add: t same_conf_def) (simp add: l)
qed

lemma handleATVC_keeps:
  "plugin_ok s \<Longrightarrow> m_handleATVC data s = Inr (r, t) \<Longrightarrow> plugin_ok t \<and> same_conf s t"
  using acknowledge_inv by (auto simp: m_handleATVC_def Let_def ebind_Inr_conv)

lemma handleATC_keeps:
  "plugin_ok s \<Longrightarrow> m_handleATC data s = Inr (r, t) \<Longrightarrow> plugin_ok t \<and> same_conf s t"
  using acknowledge_inv by (auto simp: m_handleATC_def Let_def ebind_Inr_conv)

lemma dispatch_keeps:
  assumes "plugin_ok s" and "dispatch E c data s = Inr (r, t)"
  shows "plugin_ok t \<and> same_conf s t"
proof -
  have "(\<exists>b. t = setDaySection b s) \<or> t = s \<or> m_handleTSCE E data s = Inr (r, t) \<or>
      m_handleTSCG data s = Inr (r, t) \<or> m_handleATC data s = Inr (r, t) \<or> m_handleATVC data s = Inr (r, t)"
    using assms(2)
    by (auto simp: dispatch_def m_handleModuloCode_def ebind_Inr_conv split: if_splits)
  moreover have "plugin_ok (setDaySection b s)" "same_conf s (setDaySection b s)" for b
    using assms(1) by simp (simp add: setDaySection_def same_conf_def)
  ultimately show ?thesis
    using assms(1) handleTSCE_keeps [OF assms(1)] handleTSCG_keeps [OF assms(1)]
      handleATC_keeps [OF assms(1)] handleATVC_keeps [OF assms(1)] same_conf_refl by metis
qed

lemma GICompleted_keeps:
  assumes "plugin_ok s" and "GICompleted E success s = Inr t"
  shows "plugin_ok t \<and> same_conf s t"
proof -
  have p: "points_ok ''TS'' s"
    using assms(2)
    by (auto simp: GICompleted_def Let_def ebind_Inr_conv m_sendAllTSQualityReadings_def
        m_sendAllTIQualityReadings_def points_ok_def onGICompleted_def asked_def split: option.splits)
  obtain u where u: "GICompleted E success s = start_delayed_GI E u" "plugin_ok u"
    "m_active_path u = m_active_path s" "m_giInQueue u = m_giInQueue s" "m_hnz_conf u = m_hnz_conf s"
    "hnz_remote_address u = hnz_remote_address s" "m_paths u = m_paths s"
    "hnz_running u = hnz_running s" "m_hnz_connection u = m_hnz_connection s"
    using GICompleted_closes [OF assms(1) p] by metis
  have "m_giInQueue s \<Longrightarrow> m_active_path s \<noteq> None"
    using assms(2) u by (auto simp: start_delayed_GI_def getActivePath_def split: option.splits)
  with GICompleted_inv [OF assms(1) p, of E success] assms(2) show ?thesis by auto
qed

lemma checkGICompleted_keeps:
  assumes "plugin_ok s" and "checkGICompleted E success s = Inr t"
  shows "plugin_ok t \<and> same_conf s t"
proof (cases "success \<or> m_gi_repeat s > m_gi_repeat_count_max s")
  case True
  then have "GICompleted E success s = Inr t"
    using assms(2) by (cases success) (simp_all add: checkGICompleted_def)
  with assms(1) show ?thesis by (rule GICompleted_keeps)
next
  case False
  have r: "plugin_ok (resetGIQueue s)"
    using assms(1) inv_cong [of "resetGIQueue s" s] by (simp add: resetGIQueue_def)
  with False assms(2) sendGI_inv [OF r, of E] show ?thesis
    by (auto simp: checkGICompleted_def Let_def same_conf_def sendGI_fields resetGIQueue_def
        split: option.splits)
qed

lemma handle_message_keeps:
  assumes "plugin_ok s" and "m_handle_message E data s = Inr t"
  shows "plugin_ok t \<and> same_conf s t"
proof -
  obtain c r u where u: "dispatch E c data s = Inr (r, u)"
    and t: "(if c = TSCG_CODE E then check_last_TS E (if r \<noteq> [] then m_sendToFledge r u else u)
             else Inr (if r \<noteq> [] then m_sendToFledge r u else u)) = Inr t"
    using assms(2) by (auto simp: m_handle_message_def Let_def ebind_Inr_conv)
  define v where "v = (if r \<noteq> [] then m_sendToFledge r u else u)"
  have k: "plugin_ok u" "same_conf s u" using dispatch_keeps [OF assms(1) u] by simp_all
  then have v: "plugin_ok v" "same_conf s v"
    using sendToFledge_inv [OF k(1), of r] same_conf_trans [OF k(2)] by (auto simp: v_def)
  have "t = v \<or> checkGICompleted E True v = Inr t"
    using t unfolding v_def [symmetric]
    by (auto simp: check_last_TS_def ebind_Inr_conv split: if_splits)
  with v checkGICompleted_keeps [OF v(1)] same_conf_trans [OF v(2)] show ?thesis by auto
qed

lemma handle_messages_keeps:
  assumes "plugin_ok s" and "handle_messages E ms s = Inr t"
  shows "plugin_ok t \<and> same_conf s t"
proof -
  have "plugin_ok t \<and> same_conf s t"
  proof (rule efold_inv [OF assms(2) [unfolded handle_messages_def]])
    show "plugin_ok s \<and> same_conf s s" using assms(1) by simp
    show "plugin_ok b \<and> same_conf s b"
      if "plugin_ok a \<and> same_conf s a" "m_handle_message E m a = Inr b" for m a b
      using that handle_message_keeps [of a E m b] same_conf_trans by blast
  qed
  then show ?thesis .
qed

end
