(* ===== verification/HNZ_Decoding.thy ===== *)
theory HNZ_Decoding
  imports HNZ_Messages
begin

text \<open>
  What the handlers of \<open>HNZ_Messages\<close> and the composers of \<open>HNZ_Link\<close> compute, written as
  arithmetic: values of measures, the 16 points of a TSCG, addresses of commands and of their
  acknowledgement, and the reconstruction of the time of a TSCE.
\<close>

section \<open>Values of measures\<close>

lemma and_exp_pos: "(x :: int) AND 2 ^ n > 0 \<longleftrightarrow> odd (x div 2 ^ n)"
proof -
  have "x AND 2 ^ n \<ge> 0" by simp
  moreover have "x AND 2 ^ n = 0 \<longleftrightarrow> \<not> bit x n"
    by (simp add: and_exp_eq_0_iff_not_bit)
  ultimately show ?thesis by (auto simp: bit_iff_odd order.strict_iff_order)
qed

lemma xor_255: "uint (b :: byte) XOR 0xFF = 255 - uint b"
proof -
  have t: "take_bit 8 (uint b) = uint b" using byte_range [of b] by (simp add: take_bit_int_eq_self)
  have "uint b XOR mask 8 = take_bit 8 (NOT (uint b))"
  proof (rule bit_eqI)
    fix n
    have "bit (take_bit 8 (uint b)) n \<Longrightarrow> n < 8" by (simp add: bit_take_bit_iff)
    then show "bit (uint b XOR mask 8) n = bit (take_bit 8 (NOT (uint b))) n"
      unfolding t by (auto simp: bit_simps)
  qed
  also have "\<dots> = mask 8 - uint b" by (simp add: take_bit_not_eq_mask_diff t)
  finally show ?thesis by (simp add: mask_eq_exp_minus_1)
qed

lemma or_shift_byte: "push_bit 8 (uint (a :: byte)) OR uint (b :: byte) = 256 * uint a + uint b"
proof -
  have "push_bit 8 (uint a) OR uint b = concat_bit 8 (uint b) (uint a)"
    using byte_range [of b] by (simp add: concat_bit_def take_bit_int_eq_self or.commute)
  also have "\<dots> = 256 * uint a + uint b"
    using byte_range [of b] by (simp add: concat_bit_eq take_bit_int_eq_self push_bit_eq_mult)
  finally show ?thesis .
qed

lemma tma_value_eq: "tma_value b = (if uint b \<ge> 128 then uint b - 255 else uint b)"
proof -
  have "uint b AND 0x80 > 0 \<longleftrightarrow> odd (uint b div 128)" using and_exp_pos [of "uint b" 7] by simp
  also have "\<dots> \<longleftrightarrow> uint b \<ge> 128"
  proof -
    have "uint b div 128 = (if uint b \<ge> 128 then 1 else 0)"
      using byte_range [of b] by (auto simp: div_pos_pos_trivial intro: div_eq_dividend_iff [THEN iffD1])
    then show ?thesis by simp
  qed
  finally show ?thesis by (simp add: tma_value_def xor_255)
qed

lemma tm16_value_eq:
  "tm16_value low high =
     (let v = 256 * uint high + uint low in if v \<ge> 32768 then v - 65536 else v)"
proof -
  define v where "v = 256 * uint high + uint low"
  have v: "0 \<le> v" "v < 65536" using byte_range [of high] byte_range [of low] by (auto simp: v_def)
  have "v AND 0x8000 > 0 \<longleftrightarrow> odd (v div 32768)" using and_exp_pos [of v 15] by simp
  moreover have "v div 32768 = (if v \<ge> 32768 then 1 else 0)"
    using v by auto
  moreover have "v AND 0x7FFF = v mod 32768"
  proof -
    have "v AND (2 ^ n - 1) = v mod 2 ^ n" for n
      by (simp add: take_bit_eq_mod [symmetric] take_bit_eq_mask mask_eq_exp_minus_1)
    from this [of 15] show ?thesis by simp
  qed
  moreover have "v \<ge> 32768 \<Longrightarrow> v mod 32768 = v - 32768"
    using v mod_pos_pos_trivial [of "v - 32768" 32768] by simp
  ultimately show ?thesis
    by (auto simp: tm16_value_def or_shift_byte v_def [symmetric] Let_def)
qed

section \<open>The points of a TSCG\<close>

text \<open>Point \<open>i\<close> has two bits of byte \<open>2 + i div 4\<close>: validity, then value, from the high bits down.\<close>

definition tscg_quad :: "byte list \<Rightarrow> nat \<Rightarrow> int" where
  "tscg_quad data i = uint (data ! (2 + i div 4)) div 4 ^ (3 - i mod 4) mod 4"

definition tscg_addr :: "byte list \<Rightarrow> nat \<Rightarrow> int" where
  "tscg_addr data i = 10 * (uint (data ! 1) + int (i div 8)) + int (i mod 8)"

definition tscg_reading :: "sys \<Rightarrow> byte list \<Rightarrow> nat \<Rightarrow> Reading" where
  "tscg_reading s data i =
     m_prepare_reading (new_ReadingParameters\<lparr>
       rp_label := getLabel (m_hnz_conf s) ''TS'' (tscg_addr data i), rp_msg_code := ''TS'',
       rp_station_addr := hnz_remote_address s, rp_msg_address := tscg_addr data i,
       rp_value := tscg_quad data i mod 2, rp_valid := tscg_quad data i div 2, rp_cg := True\<rparr>)"

definition tscg_known :: "sys \<Rightarrow> byte list \<Rightarrow> nat \<Rightarrow> bool" where
  "tscg_known s data i \<longleftrightarrow> getLabel (m_hnz_conf s) ''TS'' (tscg_addr data i) \<noteq> []"

lemma quad_bits:
  fixes x :: int
  shows "drop_bit ((3 - j) * 2) x AND 0x1 = x div 4 ^ (3 - j) mod 4 mod 2"
    and "drop_bit 1 (drop_bit ((3 - j) * 2) x AND 0x2) = x div 4 ^ (3 - j) mod 4 div 2"
proof -
  define y where "y = x div 4 ^ (3 - j)"
  have d: "drop_bit ((3 - j) * 2) x = y"
    by (simp add: y_def shr_int mult.commute power_mult)
  show "drop_bit ((3 - j) * 2) x AND 0x1 = x div 4 ^ (3 - j) mod 4 mod 2"
    by (simp add: d and_mask_int y_def [symmetric] mod_mod_cancel)
  have "drop_bit 1 (y AND 0x2) = drop_bit 1 y AND drop_bit 1 0x2" by (rule drop_bit_and)
  then have "drop_bit 1 (y AND 0x2) = y div 2 mod 2" by (simp add: shr_int and_mask_int)
  also have "\<dots> = y mod 4 div 2" by presburger
  finally show "drop_bit 1 (drop_bit ((3 - j) * 2) x AND 0x2) = x div 4 ^ (3 - j) mod 4 div 2"
    by (simp add: d y_def)
qed

lemma tscg_point_eq:
  assumes "length data = 6" and "i < 16"
  shows "tscg_point data i (readings, s) =
    Inr (if tscg_known s data i
         then (readings @ [tscg_reading s data i],
               s\<lparr>m_gi_addresses_received := m_gi_addresses_received s @ [tscg_addr data i]\<rparr>)
         else (readings, s))"
proof -
  have rds: "rd data 1 = Inr (data ! 1)" "rd data (2 + i div 4) = Inr (data ! (2 + i div 4))"
    using assms by (auto simp: rd_def)
  show ?thesis
    unfolding tscg_point_def rds tscg_address_eq [OF assms(2)] ebind.simps Let_def prod.case
      quad_bits tscg_addr_def [symmetric]
    by (simp add: tscg_known_def tscg_reading_def tscg_quad_def)
qed

text \<open>
  A TSCG gives the readings of its configured points, in order, and notes their addresses.
\<close>

lemma tscg_points_eq:
  assumes "length data = 6" and "\<forall>i \<in> set is. i < 16"
  shows "efold (tscg_point data) is (readings, s) =
    Inr (readings @ map (tscg_reading s data) (filter (tscg_known s data) is),
         s\<lparr>m_gi_addresses_received :=
             m_gi_addresses_received s @ map (tscg_addr data) (filter (tscg_known s data) is)\<rparr>)"
  using assms(2)
proof (induction "is" arbitrary: readings s)
  case (Cons i js)
  have same: "tscg_known (s\<lparr>m_gi_addresses_received := l\<rparr>) data = tscg_known s data"
    "tscg_reading (s\<lparr>m_gi_addresses_received := l\<rparr>) data = tscg_reading s data" for l
    by (auto simp: tscg_known_def tscg_reading_def)
  show ?case
    using Cons.prems Cons.IH by (simp add: tscg_point_eq [OF assms(1)] same)
qed simp

section \<open>Addresses of commands\<close>

lemma dec_digits_snoc: "dec_digits n = (if n < 10 then [digit_char n] else dec_digits (n div 10) @ [digit_char (n mod 10)])"
  by (subst dec_digits.simps) simp

text \<open>The two address bytes of a TC carry the address divided by ten and its last digit.\<close>

lemma tc_message_eq:
  assumes "0 \<le> a" and "a < 2 ^ 31"
  shows "tc_message E a v =
    Inr [TC_CODE E, u8 (a div 10),
         u8 (push_bit 3 (uint v AND 0x3) OR push_bit 5 (a mod 10))]"
proof -
  define n where "n = nat a"
  have a: "a = int n" using assms(1) by (simp add: n_def)
  have last: "last (''0'' @ to_string a) = digit_char (n mod 10)"
    by (simp add: a to_string_def dec_digits_snoc [of n])
  have but: "butlast (''0'' @ to_string a) = (if n < 10 then ''0'' else CHR ''0'' # dec_digits (n div 10))"
    by (simp add: a to_string_def dec_digits_snoc [of n] butlast_append)
  have z: "digit_char 0 = CHR ''0''" by code_simp
  have st: "stoi (butlast (''0'' @ to_string a)) = Inr (int (n div 10))"
  proof (cases "n < 10")
    case True
    have "stoi ''0'' = Inr 0" using stoi_to_string [of 0] by (simp add: to_string_def z)
    with True show ?thesis unfolding but by simp
  next
    case False
    have "digits_val 10 0 (CHR ''0'' # dec_digits (n div 10)) = n div 10"
      using digits_val_dec_digits [of 0 "n div 10" "[]"] by (simp add: z [symmetric])
    with False show ?thesis
      using stoi_digits [of 0 "CHR ''0'' # dec_digits (n div 10)" "dec_digits (n div 10)"] assms a
      unfolding but by (simp add: z)
  qed
  show ?thesis
    unfolding tc_message_def Let_def last st ebind.simps by (simp add: a zdiv_int zmod_int)
qed

text \<open>
  The last byte keeps the last digit modulo 8, above the value of the command.
\<close>

lemma tc_byte_sum: "push_bit 3 (uint (v :: byte) AND 0x3) OR push_bit 5 d = 32 * d + 8 * (uint v mod 4)"
proof -
  have "push_bit 5 d OR push_bit 3 (uint v AND 0x3) = concat_bit 5 (push_bit 3 (uint v AND 0x3)) d"
    by (simp add: concat_bit_def and_mask_int push_bit_eq_mult take_bit_int_eq_self or.commute)
  then show ?thesis
    by (simp add: concat_bit_eq and_mask_int push_bit_eq_mult take_bit_int_eq_self or.commute)
qed

lemma tc_last_byte:
  assumes "0 \<le> d" and "d < 10"
  shows "uint (u8 (push_bit 3 (uint (v :: byte) AND 0x3) OR push_bit 5 d)) div 32 = d mod 8"
proof -
  define r where "r = uint v mod 4"
  have r: "0 \<le> r" "r < 4" by (simp_all add: r_def)
  have "(32 * d + 8 * r) mod 256 = 32 * (d mod 8) + 8 * r"
  proof (cases "d < 8")
    case True
    with assms r show ?thesis by simp
  next
    case False
    have "(32 * d + 8 * r) mod 256 = ((32 * (d - 8) + 8 * r) + 256) mod 256" by simp
    also have "\<dots> = (32 * (d - 8) + 8 * r) mod 256" by (rule mod_add_self2)
    also have "\<dots> = 32 * (d - 8) + 8 * r"
      using False assms r by (intro mod_pos_pos_trivial) auto
    finally have "(32 * d + 8 * r) mod 256 = 32 * (d - 8) + 8 * r" .
    moreover have "d mod 8 = (d - 8) mod 8" by simp
    moreover have "(d - 8) mod 8 = d - 8" using False assms by (intro mod_pos_pos_trivial) auto
    ultimately show ?thesis by simp
  qed
  then have "uint (u8 (push_bit 3 (uint v AND 0x3) OR push_bit 5 d)) = 8 * r + d mod 8 * 32"
    unfolding tc_byte_sum uint_u8 r_def by simp
  also have "\<dots> div 32 = d mod 8 + 8 * r div 32" by (rule div_mult_self1) simp
  also have "8 * r div 32 = 0" using r by simp
  finally show ?thesis by simp
qed

text \<open>
  The acknowledgement of a TC carries its two address bytes back; the address read from them
  is the one the command was sent to exactly when its last digit fits in three bits.
\<close>

lemma tc_ack_address:
  assumes "0 \<le> a" and "a div 10 \<le> 255"
  shows "\<exists>b1 b2. tc_message E a v = Inr [TC_CODE E, b1, b2] \<and>
    ts_address b1 b2 = Inr (10 * (a div 10) + a mod 10 mod 8)"
proof -
  have "a < 2 ^ 31" using assms(2) by simp
  from tc_message_eq [OF assms(1) this, of E v]
  have m: "tc_message E a v =
    Inr [TC_CODE E, u8 (a div 10), u8 (push_bit 3 (uint v AND 0x3) OR push_bit 5 (a mod 10))]" .
  have "uint (u8 (a div 10)) = a div 10" using assms by (simp add: uint_u8 pos_imp_zdiv_nonneg_iff)
  then have "ts_address (u8 (a div 10)) (u8 (push_bit 3 (uint v AND 0x3) OR push_bit 5 (a mod 10)))
      = Inr (10 * (a div 10) + a mod 10 mod 8)"
    using tc_last_byte [of "a mod 10" v] by (simp add: ts_address_eq)
  with m show ?thesis by blast
qed

section \<open>Time of a TSCE\<close>

text \<open>
  The remote station gives the section of ten minutes of the day and the 10 ms steps since
  its beginning.  When the event is at most ten minutes away from the local clock the code
  finds its time back, across midnight too.
\<close>

definition day_section :: "int \<Rightarrow> byte" where
  "day_section e = u8 (e mod 86400000 div 600000)"

definition section_ts :: "int \<Rightarrow> int" where
  "section_ts e = e mod 600000 div 10"

lemma day_split:
  "e mod 86400000 = 600000 * (e mod 86400000 div 600000) + e mod (600000 :: int)"
proof -
  have "e mod 600000 = e mod 86400000 mod 600000" by (simp add: mod_mod_cancel)
  then show ?thesis by simp
qed

lemma day_section_uint: "uint (day_section e) = e mod 86400000 div 600000"
  "uint (day_section e) \<le> 143"
proof -
  have "0 \<le> e mod 86400000" "e mod 86400000 < 86400000" by simp_all
  then have r: "0 \<le> e mod 86400000 div 600000" "e mod 86400000 div 600000 < 144" by auto
  then show "uint (day_section e) = e mod 86400000 div 600000" by (simp add: day_section_def uint_u8)
  with r show "uint (day_section e) \<le> 143" by simp
qed

text \<open>The number of days the code adds to the day of the clock.\<close>

definition day_shift :: "int \<Rightarrow> byte \<Rightarrow> int" where
  "day_shift now d =
     (if d = 0 \<and> now mod 86400000 div 3600000 = 23 then 1
      else if d = 143 \<and> now mod 86400000 div 3600000 = 0 then - 1 else 0)"

lemma getEpoch_eq:
  assumes "86400000 \<le> now" and "now < 2 ^ 62" and "0 \<le> ts" and "ts < 65536"
  shows "getEpochMsTimestamp now d ts =
    (now div 86400000 + day_shift now d) * 86400000 + uint d * 600000 + ts * 10"
proof -
  define D where "D = now - now mod 86400000"
  have D: "D = now div 86400000 * 86400000" by (simp add: D_def minus_mod_eq_div_mult)
  have s: "now smod 86400000 = now mod 86400000" using assms(1)
    by (simp add: signed_modulo_int_def)
  have m: "0 \<le> now mod 86400000" "now mod 86400000 < 86400000" by simp_all
  then have h: "now mod 86400000 div 3600000 mod 24 = now mod 86400000 div 3600000"
    by auto
  have DD: "86400000 \<le> D" "D < 2 ^ 62" using assms(1,2) m unfolding D_def by (auto simp: D_def [symmetric] D)
  have u: "u64 now = now" "u64 D = D" "u64 (D + 86400000) = D + 86400000"
    "u64 (D - 86400000) = D - 86400000" using assms(1,2) DD by simp_all
  have d: "0 \<le> uint d" "uint d < 256" by (rule byte_range)+
  have t: "u32 (ts * 10) = ts * 10" using assms(3,4) by simp
  have w: "u64 (u64 (x + uint d * 600000) + ts * 10) = x + uint d * 600000 + ts * 10"
    if "0 \<le> x" "x < 2 ^ 63" for x
    using that d assms(3,4) by simp
  define H where "H = now mod 86400000 div 3600000"
  consider (tomorrow) "d = 0 \<and> H = 23" | (yesterday) "d = 143 \<and> H = 0"
    | (today) "\<not> (d = 0 \<and> H = 23)" "\<not> (d = 143 \<and> H = 0)" by blast
  then have "getEpochMsTimestamp now d ts
      = D + day_shift now d * 86400000 + uint d * 600000 + ts * 10"
  proof cases
    case tomorrow
    then show ?thesis
      unfolding getEpochMsTimestamp_def Let_def s D_def [symmetric] u h t day_shift_def H_def [symmetric]
      using w [of "D + 86400000"] DD by (simp add: u)
  next
    case yesterday
    then show ?thesis
      unfolding getEpochMsTimestamp_def Let_def s D_def [symmetric] u h t day_shift_def H_def [symmetric]
      using w [of "D - 86400000"] DD by (simp add: u)
  next
    case today
    then show ?thesis
      unfolding getEpochMsTimestamp_def Let_def s D_def [symmetric] u h t day_shift_def H_def [symmetric]
      using w [of D] DD h by (auto simp: H_def [symmetric])
  qed
  then show ?thesis by (simp add: D algebra_simps)
qed

lemma section_value:
  assumes "e mod 10 = 0"
  shows "uint (day_section e) * 600000 + section_ts e * 10 = e mod 86400000"
    and "0 \<le> section_ts e" and "section_ts e < 65536"
proof -
  have "e mod 600000 mod 10 = 0" using assms by (simp add: mod_mod_cancel)
  then have ts: "section_ts e * 10 = e mod 600000" by (simp add: section_ts_def div_mult_mod_eq) presburger
  show "uint (day_section e) * 600000 + section_ts e * 10 = e mod 86400000"
    using day_split [of e] by (simp add: day_section_uint ts)
  show "0 \<le> section_ts e" by (simp add: section_ts_def pos_imp_zdiv_nonneg_iff)
  have "e mod 600000 < 600000" by simp
  then show "section_ts e < 65536" by (simp add: section_ts_def)
qed

text \<open>
  Whatever the section is, the code finds the time of the day, on the day of the clock or the one
  beside it.
\<close>

lemma epoch_of_section:
  assumes "86400000 \<le> now" and "now < 2 ^ 62" and "e mod 10 = 0"
  shows "getEpochMsTimestamp now (day_section e) (section_ts e)
    = (now div 86400000 + day_shift now (day_section e)) * 86400000 + e mod 86400000"
  using getEpoch_eq [OF assms(1,2) section_value(2,3) [OF assms(3)], of "day_section e"]
    section_value(1) [OF assms(3)] by simp

lemma epoch_within_ten_minutes:
  assumes "86400000 \<le> now" and "now < 2 ^ 62" and "\<bar>now - e\<bar> \<le> 600000" and "e mod 10 = 0"
  shows "getEpochMsTimestamp now (day_section e) (section_ts e) = e"
proof -
  let ?day = "86400000 :: int"
  define q where "q = e mod ?day"
  define m where "m = now mod ?day"
  have q: "0 \<le> q" "q < ?day" and m: "0 \<le> m" "m < ?day" by (simp_all add: q_def m_def)
  have e: "e = e div ?day * ?day + q" and n: "now = now div ?day * ?day + m"
    by (simp_all add: q_def m_def)
  have sec: "uint (day_section e) = q div 600000" by (simp add: day_section_uint q_def)
  have eq: "getEpochMsTimestamp now (day_section e) (section_ts e)
      = (now div ?day + day_shift now (day_section e)) * ?day + q"
    using epoch_of_section [OF assms(1,2,4)] by (simp add: q_def)
  have z: "day_section e = 0 \<longleftrightarrow> q < 600000"
  proof -
    have "day_section e = 0 \<longleftrightarrow> q div 600000 = 0" by (simp add: byte_eq_iff sec)
    also have "\<dots> \<longleftrightarrow> q < 600000" using q(1) by auto
    finally show ?thesis .
  qed
  have l: "day_section e = 143 \<longleftrightarrow> 85800000 \<le> q"
  proof -
    have "day_section e = 143 \<longleftrightarrow> q div 600000 = 143" by (simp add: byte_eq_iff sec)
    also have "\<dots> \<longleftrightarrow> 85800000 \<le> q" using q by auto
    finally show ?thesis .
  qed
  have "now div ?day + day_shift now (day_section e) = e div ?day"
  proof -
    define k where "k = e div ?day - now div ?day"
    have k: "\<bar>m - k * ?day - q\<bar> \<le> 600000"
    proof -
      have "now - e = m - k * ?day - q" by (subst e, subst n) (simp add: k_def algebra_simps)
      with assms(3) show ?thesis by simp
    qed
    have "k = 1 \<or> k = 0 \<or> k = - 1" using k q m by auto
    then have "day_shift now (day_section e) = k"
    proof (elim disjE)
      assume k1: "k = 1"
      then have "q < 600000" "85800000 \<le> m" using k q m by auto
      with k1 m show ?thesis by (auto simp: day_shift_def z m_def [symmetric])
    next
      assume k1: "k = - 1"
      then have "85800000 \<le> q" "m < 600000" using k q m by auto
      with k1 m l z show ?thesis by (auto simp: day_shift_def m_def [symmetric])
    next
      assume k1: "k = 0"
      with k q m l z show ?thesis by (auto simp: day_shift_def m_def [symmetric])
    qed
    then show ?thesis by (simp add: k_def)
  qed
  then show ?thesis unfolding eq using e by simp
qed

end
