(* ===== verification/HNZ_Commands.thy ===== *)
theory HNZ_Commands
  imports HNZ_Decoding
begin

text \<open>
  Operations requested by Fledge (\<open>HNZ::operation\<close> and \<open>HNZ::processCommandOperation\<close> of
  \<open>src/hnz.cpp\<close>): commands, the connection status and the status of the north service.
  Parameters are pairs of a name and a value.
\<close>

section \<open>Commands\<close>

definition command_param :: "string \<Rightarrow> (string \<times> string) list \<Rightarrow> string" where
  "command_param key params =
     (case filter (\<lambda>(name, _). name = key) params of [] \<Rightarrow> [] | ps \<Rightarrow> snd (last ps))"

text \<open>\<open>std::stoi\<close> in a \<open>try\<close> block: both exceptions it throws are caught.\<close>

definition stoi_caught :: "string \<Rightarrow> int option" where
  "stoi_caught s = (case stoi s of Inl _ \<Rightarrow> None | Inr x \<Rightarrow> Some x)"

definition send_command ::
  "env \<Rightarrow> path_id \<Rightarrow> string \<Rightarrow> int \<Rightarrow> int \<Rightarrow> sys \<Rightarrow> (int \<times> sys) res" where
  "send_command E p type address val s =
     (if type = ''TC''
      then ebind (sendTCCommand E p address (u8 val) s) (\<lambda>(success, t). Inr (if success then 0 else 2, t))
      else if type = ''TVC''
      then (let (success, t) = sendTVCCommand E p (u8 address) val s
            in Inr (if success then 0 else 2, t))
      else Inr (1, s))"

definition processCommandOperation ::
  "env \<Rightarrow> (string \<times> string) list \<Rightarrow> sys \<Rightarrow> (int \<times> sys) res" where
  "processCommandOperation E params s =
     (let type = command_param ''co_type'' params;
          addrStr = command_param ''co_addr'' params;
          valStr = command_param ''co_value'' params
      in if type = [] \<or> addrStr = [] \<or> valStr = [] then Inr (1, s)
         else case stoi_caught addrStr of
           None \<Rightarrow> Inr (1, s)
         | Some address \<Rightarrow>
             case stoi_caught valStr of
               None \<Rightarrow> Inr (1, s)
             | Some val \<Rightarrow>
                 if \<not> m_hnz_connection s then Inl Null_deref
                 else case getActivePath s of
                   None \<Rightarrow> Inr (2, s)
                 | Some p \<Rightarrow> send_command E p type address val s)"

section \<open>Operations\<close>

definition north_ready :: "env \<Rightarrow> sys \<Rightarrow> (bool \<times> sys) res" where
  "north_ready E s =
     (if \<not> m_hnz_connection s then Inl Null_deref
      else case getActivePath s of
        None \<Rightarrow> Inr (False, s)
      | Some p \<Rightarrow>
          Inr (True, if m_giStatus s = GI_STARTED \<or> m_giStatus s = GI_IN_PROGRESS
                     then s\<lparr>m_giInQueue := True\<rparr> else sendGeneralInterrogation E p s))"

definition operation ::
  "env \<Rightarrow> string \<Rightarrow> (string \<times> string) list \<Rightarrow> sys \<Rightarrow> (bool \<times> sys) res" where
  "operation E oper params s =
     (if oper = ''HNZCommand''
      then ebind (processCommandOperation E params s) (\<lambda>(res, t). Inr (res = 0, t))
      else if oper = ''request_connection_status'' then Inr (True, m_sendConnectionStatus s)
      else if oper = ''north_status''
      then (case params of
              [(_, val)] \<Rightarrow> if val = ''init_socket_finished'' then north_ready E s else Inr (False, s)
            | _ \<Rightarrow> Inr (False, s))
      else Inr (False, s))"

section \<open>What operations keep\<close>

text \<open>What a command does to the state of its path.\<close>

lemma registerCommand_link: "link_step p s (m_registerCommandIfSent E p typ sent a s)"
  unfolding m_registerCommandIfSent_def
  by (auto intro!: link_step_asked_upd simp: same_states_def path_settings.truncate_def)

lemma registerCommand_path_ok:
  "path_ok (paths (m_registerCommandIfSent E p typ sent a s) p) = path_ok (paths s p)"
  by (simp add: m_registerCommandIfSent_def)

lemma sendTVC_inv:
  assumes "plugin_ok s"
  shows "plugin_ok (snd (sendTVCCommand E p a v s)) \<and> same_conf s (snd (sendTVCCommand E p a v s))"
proof -
  obtain sent t where r: "m_sendInfo E p (tvc_message E a v) s = (sent, t)" by fastforce
  have l: "link_step p s t" using link_step_sendInfo [of p s E "tvc_message E a v"] r by simp
  have "path_ok (paths t p)"
    using sendInfo_path_ok [OF r] assms by (simp add: plugin_ok_def sys_okD(2))
  then show ?thesis
    using link_path_ok_inv [OF assms link_step_trans [OF l registerCommand_link]]
    by (simp add: sendTVCCommand_def r registerCommand_path_ok)
qed

lemma sendTC_inv:
  assumes "plugin_ok s" and "sendTCCommand E p a v s = Inr (ok, u)"
  shows "plugin_ok u \<and> same_conf s u"
proof -
  obtain msg where m: "tc_message E a v = Inr msg"
    using assms(2) by (auto simp: sendTCCommand_def ebind_Inr_conv)
  obtain sent t where r: "m_sendInfo E p msg s = (sent, t)" by fastforce
  have l: "link_step p s t" using link_step_sendInfo [of p s E msg] r by simp
  have p: "path_ok (paths t p)"
    using sendInfo_path_ok [OF r] assms(1) by (simp add: plugin_ok_def sys_okD(2))
  have "u = m_registerCommandIfSent E p ''TC'' sent a t"
    using assms(2) unfolding sendTCCommand_def m ebind.simps r Let_def prod.case by blast
  with link_path_ok_inv [OF assms(1) link_step_trans [OF l registerCommand_link]] p show ?thesis
    by (simp add: registerCommand_path_ok)
qed

lemma processCommand_inv:
  assumes "plugin_ok s" and "processCommandOperation E params s = Inr (r, t)"
  shows "plugin_ok t \<and> same_conf s t"
proof -
  have send: "plugin_ok u \<and> same_conf s u"
    if h: "send_command E p ct a v s = Inr (r', u)" for p ct a v r' u
  proof -
    consider ok where "sendTCCommand E p a (u8 v) s = Inr (ok, u)"
      | "u = snd (sendTVCCommand E p (u8 a) v s)" | "u = s"
      using h by (auto simp: send_command_def ebind_Inr_conv case_prod_beta split: if_splits)
    then show ?thesis
      using sendTC_inv [OF assms(1)] sendTVC_inv [OF assms(1)] assms(1) by cases auto
  qed
  show ?thesis
    using assms send unfolding processCommandOperation_def Let_def
    by (auto split: if_splits option.splits)
qed

lemma north_ready_inv:
  assumes "plugin_ok s" and "north_ready E s = Inr (r, t)"
  shows "plugin_ok t \<and> same_conf s t"
proof -
  have q: "plugin_ok (s\<lparr>m_giInQueue := True\<rparr>) = plugin_ok s" by (rule inv_cong) simp_all
  show ?thesis
    using assms sendGI_inv [OF assms(1), of E] q
    by (auto simp: north_ready_def getActivePath_def same_conf_def sendGI_fields
        split: if_splits option.splits)
qed

lemma operation_inv:
  assumes "plugin_ok s" and "operation E oper params s = Inr (r, t)"
  shows "plugin_ok t \<and> same_conf s t"
proof -
  note f = fledge_only_fields [OF fledge_only_monitoring [of s True True]]
  have "plugin_ok (m_sendConnectionStatus s) = plugin_ok s"
    unfolding m_sendConnectionStatus_def by (rule inv_cong) (simp_all add: f)
  moreover have "same_conf s (m_sendConnectionStatus s)"
    by (simp add: m_sendConnectionStatus_def same_conf_def f)
  ultimately show ?thesis
    using assms processCommand_inv [OF assms(1), of E params] north_ready_inv [OF assms(1)]
    by (auto simp: operation_def ebind_Inr_conv split: if_splits list.splits prod.splits)
qed

end
