(* ===== verification/HNZ_Plugin.thy ===== *)
theory HNZ_Plugin
  imports HNZ_Commands
begin

text \<open>
  Life of the plugin: the constructors of \<open>HNZPath\<close> and \<open>HNZConnection\<close>, connection and
  disconnection of a path, start, stop and configuration (\<open>src/hnzpath.cpp\<close>,
  \<open>src/hnzconnection.cpp\<close>, \<open>src/hnz.cpp\<close>), one turn of the receiving thread, and the entry
  points of \<open>src/plugin.cpp\<close>.
\<close>

section \<open>Constructors\<close>

definition new_HNZPath :: "HNZConf \<Rightarrow> int \<Rightarrow> string \<Rightarrow> int \<Rightarrow> string \<Rightarrow> HNZPath" where
  "new_HNZPath conf repeats ip port pathLetter =
    \<lparr>m_ip = ip, m_port = s32 port, m_timeoutUs = get_cmd_recv_timeout conf,
     m_path_letter = pathLetter, m_path_name = ''Path '' @ pathLetter,
     repeat_max = s32 repeats - 1,
     m_remote_address = get_remote_station_addr conf,
     m_address_PA = u8 (get_remote_station_addr conf * 4 + 1),
     m_address_ARP = u8 (get_remote_station_addr conf * 4 + 3),
     m_max_sarm = s32 (get_max_sarm conf), m_inacc_timeout = s32 (get_inacc_timeout conf),
     m_repeat_timeout = s32 (get_repeat_timeout conf),
     m_anticipation_ratio = s32 (get_anticipation_ratio conf),
     m_bulle_time = get_bulle_time conf,
     m_test_msg_receive = get_test_msg_receive conf, m_test_msg_send = get_test_msg_send conf,
     m_use_utc = get_use_utc conf, c_ack_time_max = u32 (get_c_ack_time conf * 1000),
     msg_waiting = [], msg_sent = [], command_sent = [], last_sent_time = 0,
     m_connection_thread = False, path_running = True, m_state_changed = False,
     m_protocol_state = CONNECTION, m_connection_state = DISCONNECTED, m_name_log = [],
     m_nr = 0, m_ns = 0, m_NRR = 0, m_last_msg_time = 0, m_last_msg_sent_time = 0,
     m_last_sarm_sent_time = 0, m_last_connected = 0, m_nbr_sarm_sent = 0, m_repeat = 0\<rparr>"

definition construct_path :: "env \<Rightarrow> path_id \<Rightarrow> HNZPath \<Rightarrow> sys \<Rightarrow> sys" where
  "construct_path E p pa s =
     resolveProtocolStateConnection E p (sendAuditFail p (m_refreshNameLog p (upd_path p (\<lambda>_. pa) s)))"

text \<open>A path without IP address does not exist: an audit says it is unused.\<close>

definition create_path :: "env \<Rightarrow> HNZConf \<Rightarrow> path_id \<Rightarrow> sys \<Rightarrow> sys" where
  "create_path E conf p s =
     (let i = (case p of Path_A \<Rightarrow> 0 | Path_B \<Rightarrow> 1);
          pathLetter = (case p of Path_A \<Rightarrow> ''A'' | Path_B \<Rightarrow> ''B'')
      in if get_paths_ip conf ! i \<noteq> []
         then let s1 = construct_path E p (new_HNZPath conf (get_paths_repeat conf ! i)
                          (get_paths_ip conf ! i) (get_paths_port conf ! i) pathLetter) s
              in s1\<lparr>m_paths := (m_paths s1)(p := True)\<rparr>
         else audit_info ''SRVFL'' (m_service_name s @ ''-'' @ pathLetter @ ''-unused'') True s)"

text \<open>The members of a new connection before the body of its constructor.\<close>

definition blank_connection :: "sys \<Rightarrow> sys" where
  "blank_connection s =
     s\<lparr>paths := (\<lambda>_. new_HNZPath new_HNZConf 0 [] 0 []), m_paths := (\<lambda>_. False),
       m_active_path := None, m_first_input_connected := None, m_messages_thread := False,
       conn_running := False, m_current := 0, m_elapsedTimeMs := 0, m_days_since_epoch := 0,
       m_sendInitNexConnection := True, m_gi_repeat := 0, m_gi_start_time := 0,
       m_gi_repeat_count_max := 0, m_gi_time_max := 0,
       m_gi_schedule := \<lparr>activate = False, hour = 0, minute = 0\<rparr>, conn_repeat_timeout := 0,
       m_gi_schedule_already_sent := False, m_gi_scheduled_time := 0\<rparr>"

definition construct_connection :: "env \<Rightarrow> HNZConf \<Rightarrow> sys \<Rightarrow> sys" where
  "construct_connection E conf s0 =
     (let s = blank_connection s0 in
      if \<forall>ip \<in> set (get_paths_ip conf). ip = [] then s
      else
        let s1 = fold (create_path E conf) path_order s;
            s2 = audit_fail ''SRVFL'' (m_service_name s1 @ ''-disconnected'') True s1
        in s2\<lparr>m_gi_repeat_count_max := s32 (get_gi_repeat_count conf),
              m_gi_time_max := s32 (u32 (get_gi_time conf * 1000)),
              m_gi_schedule := get_gi_schedule conf, m_gi_schedule_already_sent := False,
              conn_repeat_timeout := s32 (get_repeat_timeout conf), conn_running := True\<rparr>)"

section \<open>Connection and disconnection of a path\<close>

definition connect_begin :: "env \<Rightarrow> path_id \<Rightarrow> sys \<Rightarrow> sys" where
  "connect_begin E p s =
     upd_path p (\<lambda>x. x\<lparr>m_last_msg_time := now_ms E s, m_last_msg_sent_time := now_ms E s,
                       path_running := True\<rparr>) (asked s)"

text \<open>
  The loop tries until the socket is connected or one of the two running flags has been
  lowered; it may go on for ever, and its model is \<open>None\<close> then.
\<close>

partial_function (option) connect_loop :: "env \<Rightarrow> path_id \<Rightarrow> sys \<Rightarrow> sys option" where
  "connect_loop E p s =
     (if path_running (paths s p) \<and> conn_running s
      then
        let s1 = emit (ConnectServer p) s in
        if \<not> path_running (paths s1 p) \<or> \<not> conn_running s1 then Some s1
        else if isTCPConnected E s1
        then Some (upd_path p (\<lambda>x. x\<lparr>m_connection_thread := True\<rparr>) (asked s1))
        else connect_loop E p (asked s1)
      else Some s)"

definition connect :: "env \<Rightarrow> path_id \<Rightarrow> sys \<Rightarrow> sys option" where
  "connect E p s = connect_loop E p (connect_begin E p s)"

definition disconnect :: "env \<Rightarrow> path_id \<Rightarrow> sys \<Rightarrow> sys" where
  "disconnect E p s =
     (let s1 = protocolStateTransition E p TCP_CNX_LOST s;
          s2 = emit (StopClient p) (upd_path p (\<lambda>x. x\<lparr>path_running := False\<rparr>) s1)
      in upd_path p (\<lambda>x. x\<lparr>m_connection_thread := False\<rparr>) s2)"

section \<open>Start and stop\<close>

definition connection_start :: "sys \<Rightarrow> sys" where
  "connection_start s = s\<lparr>m_messages_thread := True\<rparr>"

definition disconnect_present :: "env \<Rightarrow> path_id \<Rightarrow> sys \<Rightarrow> sys" where
  "disconnect_present E p s = (if m_paths s p then disconnect E p s else s)"

definition connection_stop :: "env \<Rightarrow> sys \<Rightarrow> sys" where
  "connection_stop E s =
     (fold (disconnect_present E) path_order (s\<lparr>conn_running := False\<rparr>))\<lparr>m_messages_thread := False\<rparr>"

definition hnz_start :: "env \<Rightarrow> bool \<Rightarrow> sys \<Rightarrow> sys res" where
  "hnz_start E requestedStart s0 =
     (let s = (if requestedStart then s0\<lparr>m_should_run := True\<rparr> else s0) in
      if hnz_running s then Inr s
      else if \<not> is_complete (m_hnz_conf s) then Inr s
      else
        ebind (m_sendAllTMQualityReadings True False [] (s\<lparr>hnz_running := True\<rparr>)) (\<lambda>s1.
        ebind (m_sendAllTSQualityReadings E True False [] s1) (\<lambda>s2.
        if \<not> m_hnz_connection s2 then Inl Null_deref
        else Inr (connection_start
               (s2\<lparr>m_receiving_thread_A := True,
                   m_receiving_thread_B := (if m_paths s2 Path_B then True else m_receiving_thread_B s2)\<rparr>)))))"

definition hnz_stop :: "env \<Rightarrow> bool \<Rightarrow> sys \<Rightarrow> sys" where
  "hnz_stop E requestedStop s =
     (let s1 = s\<lparr>hnz_running := False\<rparr>;
          s2 = (if requestedStop then s1\<lparr>m_should_run := False\<rparr> else s1);
          s3 = (if m_hnz_connection s2 then connection_stop E s2 else s2)
      in s3\<lparr>m_receiving_thread_A := False, m_receiving_thread_B := False, m_hnz_connection := False\<rparr>)"

section \<open>Configuration\<close>

text \<open>The state \<open>t\<close> with the connection of the state \<open>s\<close>.\<close>

definition with_connection_of :: "sys \<Rightarrow> sys \<Rightarrow> sys" where
  "with_connection_of s t =
     t\<lparr>paths := paths s, m_paths := m_paths s, m_active_path := m_active_path s,
       m_first_input_connected := m_first_input_connected s,
       m_messages_thread := m_messages_thread s, conn_running := conn_running s,
       m_current := m_current s, m_elapsedTimeMs := m_elapsedTimeMs s,
       m_days_since_epoch := m_days_since_epoch s,
       m_sendInitNexConnection := m_sendInitNexConnection s, m_gi_repeat := m_gi_repeat s,
       m_gi_start_time := m_gi_start_time s, m_gi_repeat_count_max := m_gi_repeat_count_max s,
       m_gi_time_max := m_gi_time_max s, m_gi_schedule := m_gi_schedule s,
       conn_repeat_timeout := conn_repeat_timeout s,
       m_gi_schedule_already_sent := m_gi_schedule_already_sent s,
       m_gi_scheduled_time := m_gi_scheduled_time s\<rparr>"

text \<open>
  \<open>m_hnz_connection = make_unique<HNZConnection>(...)\<close>: the new connection is built, then the
  old one, if there is one, is destroyed, which stops it when it runs.
\<close>

definition replace_connection :: "env \<Rightarrow> HNZConf \<Rightarrow> sys \<Rightarrow> sys" where
  "replace_connection E conf s =
     (let new = construct_connection E conf s;
          s1 = (if m_hnz_connection s \<and> conn_running s
                then with_connection_of new (connection_stop E (with_connection_of s new)) else new)
      in s1\<lparr>m_hnz_connection := True\<rparr>)"

definition setJsonConfig ::
  "env \<Rightarrow> ('v, 'z) json_api_scheme \<Rightarrow> string \<Rightarrow> string \<Rightarrow> string \<Rightarrow> sys \<Rightarrow> (bool \<times> sys) res" where
  "setJsonConfig E J protocol_conf_json msg_conf_json service_name s =
     (if protocol_conf_json = [] \<and> msg_conf_json = [] \<and> service_name = [] then Inr (True, s)
      else
        let s1 = (if hnz_running s then hnz_stop E False s else s);
            s2 = (if service_name \<noteq> [] then s1\<lparr>m_service_name := service_name\<rparr> else s1);
            conf1 = (if protocol_conf_json \<noteq> [] then importConfigJson J protocol_conf_json new_HNZConf
                     else new_HNZConf);
            conf = (if msg_conf_json \<noteq> [] then importExchangedDataJson J msg_conf_json conf1 else conf1);
            s3 = s2\<lparr>m_hnz_conf := conf\<rparr>
        in if \<not> is_complete conf then Inr (False, s3)
           else
             let s4 = replace_connection E conf
                        (s3\<lparr>hnz_remote_address := get_remote_station_addr conf,
                            hnz_test_msg_receive := get_test_msg_receive conf\<rparr>)
             in if \<not> conn_running s4 then Inr (False, s4)
                else if m_should_run s4 then ebind (hnz_start E False s4) (\<lambda>s5. Inr (True, s5))
                else Inr (True, s4))"

text \<open>
  \<open>ConfigCategory\<close> belongs to Fledge: the two items, when they exist, and its name are the
  arguments.
\<close>

definition reconfigure ::
  "env \<Rightarrow> ('v, 'z) json_api_scheme \<Rightarrow> string option \<Rightarrow> string option \<Rightarrow> string \<Rightarrow> sys \<Rightarrow> sys res" where
  "reconfigure E J protocol_stack exchanged_data name s =
     ebind (setJsonConfig E J
              (case protocol_stack of None \<Rightarrow> [] | Some x \<Rightarrow> x)
              (case exchanged_data of None \<Rightarrow> [] | Some x \<Rightarrow> x) name s) (\<lambda>(success, t).
     Inr (if success then t
          else audit_fail ''SRVFL'' (m_service_name t @ ''-disconnected'') True
                 (audit_info ''SRVFL'' (m_service_name t @ ''-B-unused'') True
                   (audit_info ''SRVFL'' (m_service_name t @ ''-A-unused'') True t))))"

section \<open>The receiving thread\<close>

definition reconnect :: "env \<Rightarrow> path_id \<Rightarrow> sys \<Rightarrow> sys res" where
  "reconnect E p s =
     (let s1 = (if hnz_running s then disconnect E p s else s)
      in if hnz_running s1
         then (case connect E p s1 of None \<Rightarrow> Inl No_return | Some t \<Rightarrow> Inr t)
         else Inr s1)"

text \<open>What the thread does before its loop: it ends at once without a path or a complete configuration.\<close>

definition receive_begin :: "env \<Rightarrow> path_id \<Rightarrow> sys \<Rightarrow> sys res" where
  "receive_begin E p s =
     (if \<not> m_paths s p then Inr s
      else if \<not> is_complete (m_hnz_conf s) then Inr s
      else case connect E p s of None \<Rightarrow> Inl No_return | Some t \<Rightarrow> Inr t)"

definition receive_turn ::
  "env \<Rightarrow> path_id \<Rightarrow> (MSG_TRAME \<Rightarrow> bool) \<Rightarrow> MSG_TRAME option \<Rightarrow> sys \<Rightarrow> sys res" where
  "receive_turn E p checkCRC frReceived s =
     ebind (getData E p checkCRC frReceived s) (\<lambda>(messages, s1).
     if messages = []
     then let tcp = isTCPConnected E s1; s2 = asked s1
          in if \<not> tcp then reconnect E p s2 else Inr s2
     else handle_messages E messages s1)"

section \<open>Entry points\<close>

definition new_HNZ :: "int \<Rightarrow> BulleFormat \<Rightarrow> sys" where
  "new_HNZ remote_address test_msg =
    \<lparr>outs = [], reads = 0, paths = (\<lambda>_. new_HNZPath new_HNZConf 0 [] 0 []), m_paths = (\<lambda>_. False),
     m_active_path = None, m_first_input_connected = None, m_messages_thread = False,
     conn_running = False, m_current = 0, m_elapsedTimeMs = 0, m_days_since_epoch = 0,
     m_sendInitNexConnection = True, m_gi_repeat = 0, m_gi_start_time = 0,
     m_gi_repeat_count_max = 0, m_gi_time_max = 0,
     m_gi_schedule = \<lparr>activate = False, hour = 0, minute = 0\<rparr>, conn_repeat_timeout = 0,
     m_gi_schedule_already_sent = False, m_gi_scheduled_time = 0,
     hnz_running = False, m_should_run = False, m_receiving_thread_A = False,
     m_receiving_thread_B = False, m_gi_addresses_received = [], m_hnz_conf = new_HNZConf,
     m_hnz_connection = False, m_ingest = False, hnz_remote_address = remote_address,
     hnz_test_msg_receive = test_msg, m_daySection = 0, m_service_name = [],
     m_connStatus = CS_NOT_CONNECTED, m_giStatus = GI_IDLE, m_giInQueue = False,
     m_qualityUpdateTimer = 0, m_qualityUpdateTimeoutMs = 500\<rparr>"

text \<open>
  \<open>m_remote_address\<close> and \<open>m_test_msg_receive\<close> of \<open>HNZ\<close> have no initialiser: any value.  Without a
  configuration category the default one is used, whose two documents are the texts \<open>default_items\<close>.
\<close>

definition plugin_init ::
  "env \<Rightarrow> ('v, 'z) json_api_scheme \<Rightarrow> string \<times> string \<Rightarrow>
   (string option \<times> string option \<times> string) option \<Rightarrow> int \<Rightarrow> BulleFormat \<Rightarrow> sys res" where
  "plugin_init E J default_items config remote_address test_msg =
     (let (protocol_stack, exchanged_data, name) =
        (case config of
           None \<Rightarrow> (Some (fst default_items), Some (snd default_items), ''newConfig'')
         | Some category \<Rightarrow> category)
      in reconfigure E J protocol_stack exchanged_data name (new_HNZ remote_address test_msg))"

text \<open>
  The other entry points.  A handle is an option: \<open>None\<close> is a null handle, for which most of them
  raise an exception; Fledge passes the handle it got from \<open>plugin_init\<close>.
\<close>

definition plugin_register_ingest :: "bool \<Rightarrow> sys option \<Rightarrow> sys res" where
  "plugin_register_ingest cb handle =
     (case handle of None \<Rightarrow> Inl Exception | Some s \<Rightarrow> Inr (registerIngest cb s))"

definition plugin_poll :: "sys option \<Rightarrow> unit res" where
  "plugin_poll handle = Inl Exception"

definition plugin_reconfigure ::
  "env \<Rightarrow> ('v, 'z) json_api_scheme \<Rightarrow> string option \<Rightarrow> string option \<Rightarrow> sys option \<Rightarrow> sys res" where
  "plugin_reconfigure E J protocol_stack exchanged_data handle =
     (case handle of None \<Rightarrow> Inl Exception
      | Some s \<Rightarrow> reconfigure E J protocol_stack exchanged_data (m_service_name s) s)"

definition plugin_write :: "sys option \<Rightarrow> string \<Rightarrow> string \<Rightarrow> bool" where
  "plugin_write handle name val = False"

text \<open>Starting a null handle does nothing.\<close>

definition plugin_start :: "env \<Rightarrow> sys option \<Rightarrow> sys option res" where
  "plugin_start E handle =
     (case handle of None \<Rightarrow> Inr None
      | Some s \<Rightarrow> ebind (hnz_start E True s) (\<lambda>t. Inr (Some t)))"

text \<open>The destructors: the plugin stops when it runs, and then its connection when that still runs.\<close>

definition destroy_connection :: "env \<Rightarrow> sys \<Rightarrow> sys" where
  "destroy_connection E s = (if conn_running s then connection_stop E s else s)"

definition destroy_HNZ :: "env \<Rightarrow> sys \<Rightarrow> sys" where
  "destroy_HNZ E s =
     (let s1 = (if hnz_running s then hnz_stop E True s else s)
      in if m_hnz_connection s1 then destroy_connection E s1 else s1)"

text \<open>\<open>delete\<close> of a null pointer does nothing.\<close>

definition plugin_shutdown :: "env \<Rightarrow> sys option \<Rightarrow> sys option" where
  "plugin_shutdown E handle = map_option (destroy_HNZ E) handle"

definition plugin_operation ::
  "env \<Rightarrow> string \<Rightarrow> (string \<times> string) list \<Rightarrow> sys option \<Rightarrow> (bool \<times> sys) res" where
  "plugin_operation E oper params handle =
     (case handle of None \<Rightarrow> Inl Exception | Some s \<Rightarrow> operation E oper params s)"

section \<open>Life of a path\<close>

lemma disconnect_inv:
  assumes "plugin_ok s" and "m_paths s p"
  shows "plugin_ok (disconnect E p s)" "same_conf s (disconnect E p s)"
    "m_protocol_state (paths (disconnect E p s) p) = CONNECTION"
proof -
  define s1 where "s1 = protocolStateTransition E p TCP_CNX_LOST s"
  have s1: "plugin_ok s1" "same_conf s s1"
    using transition_inv [OF assms] transition_conf by (simp_all add: s1_def)
  have st: "m_protocol_state (paths s1 p) = CONNECTION"
    unfolding s1_def
    by (cases "m_protocol_state (paths s p)";
        simp add: transition_state m_protocolStateTransitionMap_def)
  define t where "t = disconnect E p s"
  have t: "t = upd_path p (\<lambda>x. x\<lparr>m_connection_thread := False\<rparr>)
      (emit (StopClient p) (upd_path p (\<lambda>x. x\<lparr>path_running := False\<rparr>) s1))"
    by (simp add: t_def disconnect_def Let_def s1_def)
  have "path_only p s1 t" unfolding t
    by (rule path_only_trans [OF path_only_trans [OF path_only_upd_path path_only_emit] path_only_upd_path])
  note po = path_only_fields [OF this]
  have tp: "paths t = (paths s1)(p := (paths s1 p)\<lparr>path_running := False, m_connection_thread := False\<rparr>)"
    by (simp add: t)
  have lk: "link_ok (paths t q)" for q
    using sys_okD(1) [of s1 q] s1(1)
    by (cases "q = p"; cases "m_protocol_state (paths s1 q)")
      (auto simp: tp plugin_ok_def link_ok_def agree_def sarm_ok_def)
  have "arbitration_ok t = arbitration_ok s1"
    by (rule arbitration_cong) (simp_all add: tp po)
  with lk s1(1) have "plugin_ok t"
    by (simp add: plugin_ok_def sys_ok_def first_input_ok_def present_ok_def gi_ok_def po tp)
  then show "plugin_ok (disconnect E p s)" by (simp add: t_def)
  show "same_conf s (disconnect E p s)"
    using s1(2) po by (simp add: same_conf_def t_def [symmetric])
  show "m_protocol_state (paths (disconnect E p s) p) = CONNECTION"
    using st by (simp add: t_def [symmetric] tp)
qed

lemma disconnect_not_active:
  assumes "plugin_ok s" and "m_paths s p"
  shows "m_active_path (disconnect E p s) \<noteq> Some p"
  using active_is_connected(1) [of "disconnect E p s" p] disconnect_inv [OF assms, of E]
  by (auto simp: plugin_ok_def)

text \<open>
  A change of the times of a path, and of its running flags, is one of the link layer for
  which the invariant does not matter.
\<close>

lemma upd_times_inv:
  assumes "plugin_ok s"
    and "\<And>x. link_ok (f x) = link_ok x" "\<And>x. m_connection_state (f x) = m_connection_state x"
    and "\<And>x. m_protocol_state (f x) = m_protocol_state x"
  shows "plugin_ok (upd_path p f s)"
proof -
  define t where "t = upd_path p f s"
  have "link_ok (paths t q)" for q
    using sys_okD(1) [of s q] assms(1,2) by (auto simp: t_def plugin_ok_def)
  moreover have "arbitration_ok t = arbitration_ok s"
    by (rule arbitration_cong) (simp_all add: t_def upd_path_def assms(3))
  ultimately show ?thesis using assms(1,4)
    by (simp add: plugin_ok_def sys_ok_def first_input_ok_def present_ok_def gi_ok_def t_def [symmetric])
      (simp add: t_def upd_path_def)
qed

lemma link_ok_running [simp]:
  "link_ok (x\<lparr>m_connection_thread := b\<rparr>) = link_ok x"
  "link_ok (x\<lparr>m_last_msg_time := m, m_last_msg_sent_time := n, path_running := b\<rparr>) = link_ok x"
  by (cases "m_protocol_state x"; simp add: link_ok_def agree_def sarm_ok_def)+

lemma emit_inv: "plugin_ok (emit x s) = plugin_ok s"
  by (rule inv_cong) (simp_all add: emit_def)

lemma connect_begin_inv: "plugin_ok s \<Longrightarrow> plugin_ok (connect_begin E p s)"
  unfolding connect_begin_def by (rule upd_times_inv) (simp_all add: asked_inv)

lemma connect_loop_unfold:
  "connect_loop E p s =
     (if path_running (paths s p) \<and> conn_running s
      then if now_connected E s
           then Some (upd_path p (\<lambda>x. x\<lparr>m_connection_thread := True\<rparr>) (asked (emit (ConnectServer p) s)))
           else connect_loop E p (asked (emit (ConnectServer p) s))
      else Some s)"
  by (subst connect_loop.simps)
    (simp add: Let_def emit_def isTCPConnected_def now_connected_def)

text \<open>
  The loop ends as soon as the environment answers that the socket is connected.
\<close>

lemma connect_loop_returns:
  assumes "tcp_connected E (reads s + n)"
  shows "\<exists>t. connect_loop E p s = Some t"
  using assms
proof (induction n arbitrary: s)
  case 0
  then show ?case by (subst connect_loop_unfold) (simp add: now_connected_def)
next
  case (Suc n)
  define u where "u = asked (emit (ConnectServer p) s)"
  have "reads u + n = reads s + Suc n" by (simp add: u_def asked_def emit_def)
  with Suc have "\<exists>t. connect_loop E p u = Some t" by simp
  then show ?case by (subst connect_loop_unfold) (simp add: u_def)
qed

lemma connect_loop_keeps:
  assumes "connect_loop E p s = Some t" and "plugin_ok s"
  shows "plugin_ok t \<and> same_conf s t"
proof -
  have "plugin_ok s \<longrightarrow> plugin_ok t \<and> same_conf s t"
  proof (rule connect_loop.raw_induct [OF _ assms(1),
      where P = "\<lambda>E p s t. plugin_ok s \<longrightarrow> plugin_ok t \<and> same_conf s t"])
    fix loop :: "env \<Rightarrow> path_id \<Rightarrow> sys \<Rightarrow> sys option" and E p s t
    assume IH: "\<And>E p s t. loop E p s = Some t \<Longrightarrow> plugin_ok s \<longrightarrow> plugin_ok t \<and> same_conf s t"
    define s1 where "s1 = emit (ConnectServer p) s"
    assume "(if path_running (paths s p) \<and> conn_running s
      then
        let s1 = emit (ConnectServer p) s in
        if \<not> path_running (paths s1 p) \<or> \<not> conn_running s1 then Some s1
        else if isTCPConnected E s1
        then Some (upd_path p (\<lambda>x. x\<lparr>m_connection_thread := True\<rparr>) (asked s1))
        else loop E p (asked s1)
      else Some s) = Some t"
    then consider "t = s" | "t = s1"
      | "t = upd_path p (\<lambda>x. x\<lparr>m_connection_thread := True\<rparr>) (asked s1)"
      | "loop E p (asked s1) = Some t"
      unfolding Let_def s1_def [symmetric] by (metis option.inject)
    then show "plugin_ok s \<longrightarrow> plugin_ok t \<and> same_conf s t"
    proof (cases, goal_cases)
      case 2
      then show ?case by (simp add: s1_def emit_inv) (simp add: same_conf_def emit_def)
    next
      case 3
      then have "plugin_ok s \<longrightarrow> plugin_ok t"
        using upd_times_inv [of "asked s1" "\<lambda>x. x\<lparr>m_connection_thread := True\<rparr>" p]
        by (simp add: asked_inv emit_inv s1_def)
      with 3 show ?case by (simp add: same_conf_def upd_path_def s1_def emit_def asked_def)
    next
      case 4
      have "plugin_ok (asked s1) = plugin_ok s" by (simp add: asked_inv emit_inv s1_def)
      with IH [OF 4] show ?case by (simp add: same_conf_def s1_def asked_def emit_def)
    qed simp
  qed
  with assms(2) show ?thesis by blast
qed

lemma connect_keeps:
  assumes "connect E p s = Some t" and "plugin_ok s"
  shows "plugin_ok t \<and> same_conf s t"
proof -
  have "same_conf s (connect_begin E p s)"
    by (simp add: connect_begin_def same_conf_def upd_path_def asked_def)
  with connect_loop_keeps [OF assms(1) [unfolded connect_def] connect_begin_inv [OF assms(2)]]
  show ?thesis by (auto intro: same_conf_trans)
qed

section \<open>The receiving thread keeps the invariant\<close>

lemma receive_begin_keeps:
  assumes "receive_begin E p s = Inr t" and "plugin_ok s"
  shows "plugin_ok t \<and> same_conf s t"
  using assms connect_keeps [of E p s t] by (auto simp: receive_begin_def split: if_splits option.splits)

lemma reconnect_keeps:
  assumes "reconnect E p s = Inr t" and "plugin_ok s" and "m_paths s p"
  shows "plugin_ok t \<and> same_conf s t"
proof -
  define s1 where "s1 = (if hnz_running s then disconnect E p s else s)"
  have s1: "plugin_ok s1" "same_conf s s1"
    using disconnect_inv [OF assms(2,3)] assms(2) by (simp_all add: s1_def)
  have "t = s1 \<or> connect E p s1 = Some t"
    using assms(1) by (auto simp: reconnect_def s1_def [symmetric] Let_def split: if_splits option.splits)
  with connect_keeps [OF _ s1(1)] s1 same_conf_trans show ?thesis by blast
qed

lemma receive_turn_keeps:
  assumes "receive_turn E p crc fr s = Inr t" and "plugin_ok s" and "m_paths s p"
    and "\<And>f. fr = Some f \<Longrightarrow> frame_fits f"
  shows "plugin_ok t \<and> same_conf s t"
proof -
  obtain ms s1 where g: "getData E p crc fr s = Inr (ms, s1)"
    and r: "(if ms = [] then if \<not> isTCPConnected E s1 then reconnect E p (asked s1) else Inr (asked s1)
      else handle_messages E ms s1) = Inr t"
    using assms(1) unfolding receive_turn_def Let_def ebind_Inr_conv by auto
  have s1: "plugin_ok s1 \<and> same_conf s s1"
  proof (cases fr)
    case None
    with g assms(2) show ?thesis by (simp add: getData_def)
  next
    case (Some f)
    show ?thesis
    proof (cases "crc f")
      case True
      with Some g have "m_analyze_frame E p f s = Inr (ms, s1)" by (simp add: getData_def)
      with analyze_frame_cases [OF assms(2,3) assms(4) [OF Some], of E] show ?thesis by auto
    qed (use Some g assms(2) in \<open>simp add: getData_def\<close>)
  qed
  then have a: "plugin_ok (asked s1)" "same_conf s (asked s1)" "m_paths (asked s1) p"
    using asked_inv same_conf_trans assms(3) by (auto simp: same_conf_def)
  consider "t = asked s1" | "reconnect E p (asked s1) = Inr t" | "handle_messages E ms s1 = Inr t"
    using r by (metis sum.inject(2))
  then show ?thesis
  proof cases
    case 2
    with reconnect_keeps [OF this a(1,3)] a(2) show ?thesis by (auto intro: same_conf_trans)
  next
    case 3
    with handle_messages_keeps [of s1 E ms t] s1 show ?thesis by (auto intro: same_conf_trans)
  qed (use a in auto)
qed

section \<open>Start and stop keep the invariant\<close>

lemma action_other_state:
  "q \<noteq> p \<Longrightarrow> m_protocol_state (paths (run_action E p a s) q) = m_protocol_state (paths s q)"
  "conn_running (run_action E p a s) = conn_running s"
proof -
  have "(q \<noteq> p \<longrightarrow> m_protocol_state (paths (run_action E p a s) q) = m_protocol_state (paths s q)) \<and>
      conn_running (run_action E p a s) = conn_running s"
  proof (cases rule: action_effect [of a p s E])
    case (request r)
    then show ?thesis
      using path_only_paths [OF request(3), of q] path_only_fields(4) [OF request(3)] by auto
  next
    case local
    then show ?thesis using path_only_paths [OF local(2), of q] path_only_fields(4) [OF local(2)] by auto
  qed
  then show "q \<noteq> p \<Longrightarrow> m_protocol_state (paths (run_action E p a s) q) = m_protocol_state (paths s q)"
    "conn_running (run_action E p a s) = conn_running s" by blast+
qed

lemma transition_other_state:
  "q \<noteq> p \<Longrightarrow> m_protocol_state (paths (protocolStateTransition E p ev s) q) = m_protocol_state (paths s q)"
  "conn_running (protocolStateTransition E p ev s) = conn_running s"
proof -
  have "(q \<noteq> p \<longrightarrow> m_protocol_state (paths (fold (run_action E p) acts t) q) = m_protocol_state (paths t q)) \<and>
      conn_running (fold (run_action E p) acts t) = conn_running t" for acts t
    by (induction acts arbitrary: t) (simp_all add: action_other_state)
  then show "q \<noteq> p \<Longrightarrow> m_protocol_state (paths (protocolStateTransition E p ev s) q) = m_protocol_state (paths s q)"
    and "conn_running (protocolStateTransition E p ev s) = conn_running s"
    by (auto simp: protocolStateTransition_def Let_def upd_path_def split: option.split)
qed

lemma disconnect_other_state:
  "q \<noteq> p \<Longrightarrow> m_protocol_state (paths (disconnect E p s) q) = m_protocol_state (paths s q)"
  "conn_running (disconnect E p s) = conn_running s"
  by (simp_all add: disconnect_def Let_def transition_other_state upd_path_def emit_def)

lemma disconnect_present_inv:
  assumes "plugin_ok s"
  shows "plugin_ok (disconnect_present E p s)" "same_conf s (disconnect_present E p s)"
    "m_active_path (disconnect_present E p s) \<noteq> Some p"
    "conn_running (disconnect_present E p s) = conn_running s"
    "q \<noteq> p \<Longrightarrow> m_protocol_state (paths (disconnect_present E p s) q) = m_protocol_state (paths s q)"
    "m_paths s p \<Longrightarrow> m_protocol_state (paths (disconnect_present E p s) p) = CONNECTION"
  using assms disconnect_inv [OF assms, of p E] disconnect_not_active [OF assms, of p E]
    disconnect_other_state(1) [of q p E s] disconnect_other_state(2) [of E p s] inv_active_present [OF assms, of p]
  by (auto simp: disconnect_present_def)

lemma connection_stop_inv:
  assumes "plugin_ok s"
  shows "plugin_ok (connection_stop E s) \<and> same_conf s (connection_stop E s) \<and>
    m_active_path (connection_stop E s) = None \<and> \<not> conn_running (connection_stop E s) \<and>
    (\<forall>p. m_paths s p \<longrightarrow> m_protocol_state (paths (connection_stop E s) p) = CONNECTION)"
proof -
  define s0 where "s0 = s\<lparr>conn_running := False\<rparr>"
  have s0: "plugin_ok s0" "same_conf s s0" "\<not> conn_running s0" "paths s0 = paths s"
    using assms by (auto simp: s0_def same_conf_def plugin_ok_def sys_ok_def arbitration_defs
        first_input_ok_def present_ok_def gi_ok_def)
  define s1 where "s1 = disconnect_present E Path_A s0"
  note d1 = disconnect_present_inv [OF s0(1), where E = E and p = Path_A, folded s1_def]
  define s2 where "s2 = disconnect_present E Path_B s1"
  note d2 = disconnect_present_inv [OF d1(1), where E = E and p = Path_B, folded s2_def]
  have c: "same_conf s s2" using same_conf_trans s0(2) d1(2) d2(2) by blast
  have a: "m_protocol_state (paths s2 Path_A) = m_protocol_state (paths s1 Path_A)"
    using d2(5) [of Path_A] by simp
  have "m_active_path s2 \<noteq> Some Path_A"
  proof
    assume act: "m_active_path s2 = Some Path_A"
    then have "m_paths s Path_A" using inv_active_present [OF d2(1)] c by (simp add: same_conf_def)
    then have "m_protocol_state (paths s1 Path_A) = CONNECTION"
      using d1(6) s0(2) by (simp add: same_conf_def)
    with a active_is_connected(1) [OF _ act] d2(1) show False by (simp add: plugin_ok_def)
  qed
  then have none: "m_active_path s2 = None"
    using d2(3) by (metis not_None_eq path_id.exhaust)
  define t where "t = connection_stop E s"
  have t: "t = s2\<lparr>m_messages_thread := False\<rparr>"
    by (simp add: t_def connection_stop_def path_order_def s1_def s2_def s0_def)
  have "plugin_ok t" using d2(1) inv_cong [of t s2] by (simp add: t)
  moreover have "m_protocol_state (paths t p) = CONNECTION" if "m_paths s p" for p
    using that d1(2,6) d2(6) s0(2) a by (cases p) (auto simp: t same_conf_def)
  ultimately show ?thesis
    using none c d1(4) d2(4) s0(3) by (simp add: t_def [symmetric]) (simp add: t same_conf_def)
qed

lemma hnz_stop_inv:
  assumes "plugin_ok s" and "\<not> m_hnz_connection s \<Longrightarrow> m_active_path s = None"
  shows "plugin_ok (hnz_stop E req s) \<and> m_active_path (hnz_stop E req s) = None \<and>
    \<not> m_hnz_connection (hnz_stop E req s)"
proof -
  define s2 where "s2 = (if req then s\<lparr>hnz_running := False, m_should_run := False\<rparr> else s\<lparr>hnz_running := False\<rparr>)"
  have s2: "plugin_ok s2" "m_active_path s2 = m_active_path s" "m_hnz_connection s2 = m_hnz_connection s"
    using assms(1) inv_cong [of s2 s] by (auto simp: s2_def)
  define s3 where "s3 = (if m_hnz_connection s2 then connection_stop E s2 else s2)"
  have s3: "plugin_ok s3" "m_active_path s3 = None"
    using connection_stop_inv [OF s2(1), of E] s2 assms(2) by (auto simp: s3_def)
  define t where "t = hnz_stop E req s"
  have "t = s3\<lparr>m_receiving_thread_A := False, m_receiving_thread_B := False, m_hnz_connection := False\<rparr>"
    by (simp add: t_def hnz_stop_def Let_def s3_def s2_def)
  then show ?thesis
    using s3 inv_cong [of t s3] by (simp add: t_def [symmetric])
qed

section \<open>Configuration\<close>

lemma path_ok_new: "path_ok (new_HNZPath conf r ip port l)"
  by (simp add: new_HNZPath_def path_ok_defs u64_range)

text \<open>The state of the connection while it is being built: nothing is active yet.\<close>

definition inactive :: "sys \<Rightarrow> bool" where
  "inactive s \<longleftrightarrow>
     (\<forall>p. path_ok (paths s p) \<and> m_protocol_state (paths s p) = CONNECTION \<and>
          m_connection_state (paths s p) = DISCONNECTED \<and> m_nbr_sarm_sent (paths s p) = 0) \<and>
     m_active_path s = None \<and> m_first_input_connected s = None \<and>
     m_connStatus s = CS_NOT_CONNECTED \<and> m_gi_repeat s = 0"

lemma inactive_plugin_ok: "inactive s \<Longrightarrow> plugin_ok s"
  by (auto simp: inactive_def plugin_ok_def sys_ok_def link_ok_def agree_def sarm_ok_def
      first_input_ok_def arbitration_defs present_ok_def gi_ok_def)

lemma inactive_cong:
  assumes "paths t = paths s" "m_active_path t = m_active_path s"
    "m_first_input_connected t = m_first_input_connected s" "m_connStatus t = m_connStatus s"
    "m_gi_repeat t = m_gi_repeat s"
  shows "inactive t = inactive s"
  using assms by (simp add: inactive_def)

lemma request_no_change:
  assumes "m_connection_state (paths s p) = DISCONNECTED" "m_active_path s = None"
    "m_first_input_connected s = None" "m_protocol_state (paths s p) = CONNECTION"
  shows "requestConnectionState p DISCONNECTED s = s"
  using assms by (simp add: requestConnectionState_def note_first_input_def Let_def setConnectionState_def)

text \<open>The constructor of a path sets the numbers and times of the new path and its name only.\<close>

lemma construct_path_effect:
  assumes "inactive s" and "pa = new_HNZPath conf r ip port l"
  shows "\<exists>b nm. paths (construct_path E p pa s) = (paths s)(p := pa\<lparr>m_name_log := nm, m_nr := 0,
      m_ns := 0, m_NRR := 0, m_repeat := 0, m_nbr_sarm_sent := 0, m_last_msg_time := b,
      m_last_sarm_sent_time := 0\<rparr>)"
    and "m_active_path (construct_path E p pa s) = None"
    and "m_first_input_connected (construct_path E p pa s) = None"
    and "m_connStatus (construct_path E p pa s) = CS_NOT_CONNECTED"
    and "m_gi_repeat (construct_path E p pa s) = 0"
    and "same_conf s (construct_path E p pa s)"
    and "m_should_run (construct_path E p pa s) = m_should_run s"
proof -
  define s1 where "s1 = sendAuditFail p (m_refreshNameLog p (upd_path p (\<lambda>_. pa) s))"
  have s1p: "paths s1 = (paths s)(p := pa\<lparr>m_name_log := m_name_log (paths s1 p)\<rparr>)"
    by (simp add: s1_def sendAuditFail_def audit_defs m_refreshNameLog_def)
  have s1f: "m_active_path s1 = None" "m_first_input_connected s1 = None"
    "m_connStatus s1 = CS_NOT_CONNECTED" "m_gi_repeat s1 = 0" "same_conf s s1" "m_should_run s1 = m_should_run s"
    using assms(1)
    by (simp_all add: s1_def sendAuditFail_def audit_defs m_refreshNameLog_def inactive_def emit_def
        upd_path_def same_conf_def)
  have pa: "m_protocol_state pa = CONNECTION" "m_connection_state pa = DISCONNECTED"
    by (simp_all add: assms(2) new_HNZPath_def)
  have "requestConnectionState p DISCONNECTED s1 = s1"
    by (rule request_no_change) (simp_all add: s1f, (subst s1p, simp add: pa)+)
  then have eq: "construct_path E p pa s = upd_path p (\<lambda>x. x\<lparr>m_last_sarm_sent_time := 0\<rparr>)
       (resetSarmCounters E p (resetOutputVariables p (resetInputVariables E p s1)))"
    by (simp add: construct_path_def resolveProtocolStateConnection_def s1_def)
  define nm where "nm = m_name_log (paths s1 p)"
  have "\<exists>b. paths (construct_path E p pa s) = (paths s1)(p := (paths s1 p)\<lparr>m_nr := 0,
      m_ns := 0, m_NRR := 0, m_repeat := 0, m_nbr_sarm_sent := 0, m_last_msg_time := b,
      m_last_sarm_sent_time := 0\<rparr>)"
    unfolding eq
    by (simp add: resetSarmCounters_def resetOutputVariables_def resetInputVariables_def) blast
  then obtain b where "paths (construct_path E p pa s) = (paths s1)(p := (paths s1 p)\<lparr>m_nr := 0,
      m_ns := 0, m_NRR := 0, m_repeat := 0, m_nbr_sarm_sent := 0, m_last_msg_time := b,
      m_last_sarm_sent_time := 0\<rparr>)" ..
  then have "paths (construct_path E p pa s) = (paths s)(p := pa\<lparr>m_name_log := nm, m_nr := 0,
      m_ns := 0, m_NRR := 0, m_repeat := 0, m_nbr_sarm_sent := 0, m_last_msg_time := b,
      m_last_sarm_sent_time := 0\<rparr>)"
    using s1p unfolding nm_def [symmetric] by simp
  then show "\<exists>b nm. paths (construct_path E p pa s) = (paths s)(p := pa\<lparr>m_name_log := nm, m_nr := 0,
      m_ns := 0, m_NRR := 0, m_repeat := 0, m_nbr_sarm_sent := 0, m_last_msg_time := b,
      m_last_sarm_sent_time := 0\<rparr>)" by blast
  show "m_active_path (construct_path E p pa s) = None"
    "m_first_input_connected (construct_path E p pa s) = None"
    "m_connStatus (construct_path E p pa s) = CS_NOT_CONNECTED" "m_gi_repeat (construct_path E p pa s) = 0"
    "same_conf s (construct_path E p pa s)" "m_should_run (construct_path E p pa s) = m_should_run s"
    unfolding eq using s1f
    by (simp_all add: resetSarmCounters_def resetOutputVariables_def resetInputVariables_def
        upd_path_def asked_def same_conf_def)
qed

lemma construct_path_inactive:
  assumes "inactive s" and "pa = new_HNZPath conf r ip port l"
  shows "inactive (construct_path E p pa s)"
proof -
  obtain b nm where tp: "paths (construct_path E p pa s) = (paths s)(p := pa\<lparr>m_name_log := nm, m_nr := 0,
      m_ns := 0, m_NRR := 0, m_repeat := 0, m_nbr_sarm_sent := 0, m_last_msg_time := b,
      m_last_sarm_sent_time := 0\<rparr>)"
    using construct_path_effect(1) [OF assms, of E p] by blast
  have pa: "m_protocol_state pa = CONNECTION" "m_connection_state pa = DISCONNECTED" "path_ok pa"
    using path_ok_new by (simp_all add: assms(2)) (simp_all add: new_HNZPath_def)
  have "path_ok (pa\<lparr>m_name_log := nm, m_nr := 0, m_ns := 0, m_NRR := 0, m_repeat := 0,
      m_nbr_sarm_sent := 0, m_last_msg_time := b, m_last_sarm_sent_time := 0\<rparr>)"
    using pa(3) unfolding path_ok_defs by (simp add: isBULLE_def)
  with construct_path_effect(2-5) [OF assms, of E p] assms(1) pa show ?thesis
    by (simp add: inactive_def tp)
qed

lemma create_path_inactive:
  assumes "inactive s" shows "inactive (create_path E conf p s)"
proof -
  have "inactive (t\<lparr>m_paths := f\<rparr>) = inactive t" "inactive (emit x t) = inactive t" for t f x
    by (rule inactive_cong; simp add: emit_def)+
  then show ?thesis
    using construct_path_inactive [OF assms refl] assms
    by (simp add: create_path_def Let_def audit_defs)
qed

lemma construct_connection_inactive:
  assumes "m_connStatus s = CS_NOT_CONNECTED"
  shows "inactive (construct_connection E conf s)"
proof -
  have b: "inactive (blank_connection s)"
    using assms path_ok_new
    by (simp add: inactive_def blank_connection_def) (simp add: new_HNZPath_def)
  define s1 where "s1 = fold (create_path E conf) path_order (blank_connection s)"
  have "inactive s1" using create_path_inactive b by (simp add: s1_def path_order_def)
  moreover have "inactive (t\<lparr>m_gi_repeat_count_max := c1, m_gi_time_max := c2, m_gi_schedule := c3,
      m_gi_schedule_already_sent := c4, conn_repeat_timeout := c5, conn_running := c6\<rparr>) = inactive t"
    and "inactive (emit x t) = inactive t" for t c1 c2 c3 c4 c5 c6 x
    by (rule inactive_cong; simp add: emit_def)+
  ultimately show ?thesis
    using b by (simp add: construct_connection_def Let_def audit_defs s1_def)
qed

text \<open>
  The new connection is inactive, and stopping the old one leaves the plugin not connected.
\<close>

lemma replace_connection_ok:
  assumes "plugin_ok s" and nc: "m_active_path s = None"
  shows "inactive (replace_connection E conf s)" "m_hnz_connection (replace_connection E conf s)"
proof -
  have st: "m_connStatus s = CS_NOT_CONNECTED"
    using sys_okD(6) [of s] assms(1) nc
    by (cases "m_connStatus s") (simp_all add: plugin_ok_def arbitration_defs)
  define new where "new = construct_connection E conf s"
  have new: "inactive new" unfolding new_def by (rule construct_connection_inactive [OF st])
  define old where "old = with_connection_of s new"
  have old: "plugin_ok old"
  proof -
    have "m_connStatus old = m_connStatus s"
      using new st by (simp add: old_def with_connection_of_def inactive_def)
    moreover have "gi_ok old" using assms(1) nc
      by (auto simp: gi_ok_def plugin_ok_def old_def with_connection_of_def)
    moreover have "sys_ok old = sys_ok s"
      by (rule sys_ok_cong) (use calculation in \<open>simp_all add: old_def with_connection_of_def\<close>)
    ultimately show ?thesis using assms(1) by (simp add: plugin_ok_def)
  qed
  define t where "t = connection_stop E old"
  have t: "plugin_ok t" "m_active_path t = None" using connection_stop_inv [OF old, of E] by (simp_all add: t_def)
  have "m_connStatus t = CS_NOT_CONNECTED"
    using sys_okD(6) [of t] t by (cases "m_connStatus t") (simp_all add: plugin_ok_def arbitration_defs)
  then have "inactive (with_connection_of new t)"
    using new by (simp add: inactive_def with_connection_of_def)
  moreover have "inactive (u\<lparr>m_hnz_connection := b\<rparr>) = inactive u" for u b
    by (rule inactive_cong) simp_all
  ultimately show "inactive (replace_connection E conf s)"
    using new by (simp add: replace_connection_def Let_def new_def t_def old_def)
  show "m_hnz_connection (replace_connection E conf s)"
    by (simp add: replace_connection_def Let_def)
qed

end
