(* ===== verification/HNZ_System.thy ===== *)
theory HNZ_System
  imports HNZ_Plugin
begin

text \<open>
  The plugin as a transition system: every thread of the plugin takes turns of its loop, and
  Fledge calls the entry points, in any order.  A turn is one step; the mutexes of the code
  (configuration, protocol state, active path) are what makes the body of a turn one step.
  The invariant \<open>life_ok\<close> holds in every reachable state.
\<close>

section \<open>Invariants of transition systems\<close>

locale invariant_system =
  fixes init :: "'s \<Rightarrow> bool" and step :: "'s \<Rightarrow> 's \<Rightarrow> bool" and holds :: "'s \<Rightarrow> bool"
  assumes at_start: "init s \<Longrightarrow> holds s"
    and at_step: "holds s \<Longrightarrow> step s t \<Longrightarrow> holds t"
begin

lemma along: "step\<^sup>*\<^sup>* s t \<Longrightarrow> holds s \<Longrightarrow> holds t"
  by (induction rule: rtranclp_induct) (auto intro: at_step)

lemma reachable: "init s \<Longrightarrow> step\<^sup>*\<^sup>* s t \<Longrightarrow> holds t"
  using at_start along by blast

end

section \<open>The steps of the plugin\<close>

inductive plugin_step ::
  "env \<Rightarrow> ('v, 'z) json_api_scheme \<Rightarrow> (MSG_TRAME \<Rightarrow> bool) \<Rightarrow> sys \<Rightarrow> sys \<Rightarrow> bool"
  for E J crc where
  path_thread:
    "hnz_running s \<Longrightarrow> m_hnz_connection s \<Longrightarrow> m_paths s p \<Longrightarrow>
     plugin_step E J crc s (manage_protocol_turn E p s)"
| messages_thread_begins:
    "hnz_running s \<Longrightarrow> m_hnz_connection s \<Longrightarrow> plugin_step E J crc s (manage_messages_begin E s)"
| messages_thread:
    "hnz_running s \<Longrightarrow> m_hnz_connection s \<Longrightarrow> manage_messages_turn E s = Inr t \<Longrightarrow>
     plugin_step E J crc s t"
| receiving_thread_begins:
    "hnz_running s \<Longrightarrow> m_hnz_connection s \<Longrightarrow> receive_begin E p s = Inr t \<Longrightarrow> plugin_step E J crc s t"
| receiving_thread:
    "hnz_running s \<Longrightarrow> m_hnz_connection s \<Longrightarrow> m_paths s p \<Longrightarrow>
     (\<And>f. fr = Some f \<Longrightarrow> frame_fits f) \<Longrightarrow> receive_turn E p crc fr s = Inr t \<Longrightarrow>
     plugin_step E J crc s t"
| request:
    "plugin_operation E oper params (Some s) = Inr (b, t) \<Longrightarrow> plugin_step E J crc s t"
| callback: "plugin_register_ingest cb (Some s) = Inr t \<Longrightarrow> plugin_step E J crc s t"
| start: "plugin_start E (Some s) = Inr (Some t) \<Longrightarrow> plugin_step E J crc s t"
| configure:
    "reconfigure E J protocol_stack exchanged_data name s = Inr t \<Longrightarrow> plugin_step E J crc s t"
| shutdown: "plugin_shutdown E (Some s) = Some t \<Longrightarrow> plugin_step E J crc s t"

inductive_cases plugin_stepE: "plugin_step E J crc s t"

section \<open>The invariant\<close>

text \<open>Without a connection, or when the plugin does not run, there is no active path.\<close>

definition life_ok :: "sys \<Rightarrow> bool" where
  "life_ok s \<longleftrightarrow>
     plugin_ok s \<and> (\<not> (hnz_running s \<and> m_hnz_connection s) \<longrightarrow> m_active_path s = None)"

lemma life_ok_running:
  "hnz_running s \<Longrightarrow> m_hnz_connection s \<Longrightarrow> plugin_ok t \<Longrightarrow> same_conf s t \<Longrightarrow> life_ok t"
  by (simp add: life_ok_def same_conf_def)

lemma manage_turn_conf: "same_conf s (manage_protocol_turn E p s)"
proof -
  have up: "same_conf t (upd_path p f t)" for f t by (simp add: same_conf_def upd_path_def)
  have sarm: "same_conf t (m_sendSARM E p t)" for t
    unfolding m_sendSARM_def Let_def
    by (rule same_conf_trans [OF link_step_conf [OF link_step_sendFrame]])
      (simp add: same_conf_def upd_path_def asked_def)
  have "same_conf t (snd (m_manageHNZProtocolState E p now t))" for now t
    using sarm same_conf_trans [OF transition_conf sarm] transition_conf
      link_step_conf [OF bulle.frame] same_conf_trans [OF link_step_conf [OF bulle.frame] transition_conf]
    by (simp add: m_manageHNZProtocolState_def manage_unconnected_def manage_connected_def Let_def)
  then have "same_conf (asked s) (snd (m_manageHNZProtocolState E p (now_ms E s) (asked s)))" .
  then show ?thesis
    using same_conf_trans [OF same_conf_trans [OF asked_inv(2)] up]
    by (simp add: manage_protocol_turn_def Let_def case_prod_beta)
qed

lemma manage_begin_inv:
  assumes "plugin_ok s"
  shows "plugin_ok (manage_messages_begin E s)" "same_conf s (manage_messages_begin E s)"
proof -
  have "plugin_ok (manage_messages_begin E s) = plugin_ok s"
    by (rule inv_cong) (simp_all add: manage_messages_begin_def Let_def m_update_current_time_def asked_def)
  with assms show "plugin_ok (manage_messages_begin E s)" by simp
  show "same_conf s (manage_messages_begin E s)"
    by (simp add: manage_messages_begin_def Let_def m_update_current_time_def asked_def same_conf_def)
qed

lemma check_GI_keeps:
  assumes "plugin_ok s" and "m_check_GI E s = Inr t"
  shows "plugin_ok t \<and> same_conf s t"
proof -
  obtain u where u: "(if gi_timed_out s then checkGICompleted E False s else Inr s) = Inr u"
    and t: "t = scheduled_GI E (new_day u)"
    using assms(2) by (auto simp: m_check_GI_def ebind_Inr_conv)
  have k: "plugin_ok u \<and> same_conf s u"
    using u checkGICompleted_keeps [OF assms(1)] assms(1) by (auto split: if_splits)
  have "plugin_ok (new_day u)" "same_conf u (new_day u)"
    using k inv_cong [of "new_day u" u] by (auto simp: new_day_def same_conf_def)
  with scheduled_GI_inv [of "new_day u" E] k show ?thesis
    by (auto simp: t intro: same_conf_trans)
qed

lemma sendAllTI_keeps:
  assumes "plugin_ok s" and "m_sendAllTIQualityReadings par rej s = Inr t"
  shows "plugin_ok t \<and> same_conf s t"
  using assms sendToFledge_inv [OF assms(1)]
  by (auto simp: m_sendAllTIQualityReadings_def Let_def split: option.splits if_splits)

lemma sendAll_keeps:
  assumes "plugin_ok s"
  shows "m_sendAllTMQualityReadings iv od rej s = Inr t \<Longrightarrow> plugin_ok t \<and> same_conf s t"
    and "m_sendAllTSQualityReadings E iv od rej s = Inr t \<Longrightarrow> plugin_ok t \<and> same_conf s t"
proof -
  show "m_sendAllTMQualityReadings iv od rej s = Inr t \<Longrightarrow> plugin_ok t \<and> same_conf s t"
    unfolding m_sendAllTMQualityReadings_def by (rule sendAllTI_keeps [OF assms])
  assume "m_sendAllTSQualityReadings E iv od rej s = Inr t"
  then have "plugin_ok t \<and> same_conf (asked s) t"
    unfolding m_sendAllTSQualityReadings_def Let_def
    by (intro sendAllTI_keeps) (simp_all add: asked_inv assms)
  then show "plugin_ok t \<and> same_conf s t" using same_conf_trans [OF asked_inv(2)] by blast
qed

lemma quality_timer_keeps:
  assumes "plugin_ok s" and "updateQualityUpdateTimer E n s = Inr t"
  shows "plugin_ok t \<and> same_conf s t"
proof -
  have q: "plugin_ok (s\<lparr>m_qualityUpdateTimer := k\<rparr>)" "same_conf s (s\<lparr>m_qualityUpdateTimer := k\<rparr>)" for k
    using assms(1) inv_cong [of "s\<lparr>m_qualityUpdateTimer := k\<rparr>" s] by (simp_all add: same_conf_def)
  consider k where "t = s\<lparr>m_qualityUpdateTimer := k\<rparr>" | "t = s"
    | u where "m_sendAllTMQualityReadings False True [] (s\<lparr>m_qualityUpdateTimer := 0\<rparr>) = Inr u"
        "m_sendAllTSQualityReadings E False True [] u = Inr t"
    using assms(2) by (auto simp: updateQualityUpdateTimer_def Let_def ebind_Inr_conv split: if_splits)
  then show ?thesis
  proof cases
    case 3
    then have "plugin_ok u \<and> same_conf s u"
      using sendAll_keeps(1) [OF q(1)] same_conf_trans [OF q(2)] by blast
    with sendAll_keeps(2) [of u E False True "[]" t] 3(2) show ?thesis by (auto intro: same_conf_trans)
  qed (use q assms(1) in auto)
qed

lemma manage_messages_keeps:
  assumes "plugin_ok s" and "manage_messages_turn E s = Inr t"
  shows "plugin_ok t \<and> same_conf s t"
proof -
  define s1 where "s1 = fold (check_path E) path_order (m_update_current_time E s)"
  have s1: "plugin_ok s1" "same_conf s s1"
    using check_paths_inv [of "m_update_current_time E s" E path_order] update_time_inv(1) [of E s]
      update_time_inv(2) [of s E] assms(1)
    by (auto simp: s1_def intro: same_conf_trans)
  obtain s2 where s2: "m_check_GI E s1 = Inr s2" "m_update_quality_update_timer E s2 = Inr t"
    using assms(2) by (auto simp: manage_messages_turn_def s1_def ebind_Inr_conv)
  from check_GI_keeps [OF s1(1) s2(1)] have "plugin_ok s2" "same_conf s s2"
    using same_conf_trans [OF s1(2)] by auto
  with quality_timer_keeps [of s2 E _ t] s2(2) show ?thesis
    unfolding m_update_quality_update_timer_def by (auto intro: same_conf_trans)
qed

section \<open>Entry points\<close>

lemma operation_idle:
  assumes "operation E oper params s = Inr (b, t)" and "m_active_path s = None"
  shows "m_active_path t = None"
proof -
  have "m_active_path (m_sendConnectionStatus s) = m_active_path s"
    using fledge_only_fields(3) [OF fledge_only_monitoring] by (simp add: m_sendConnectionStatus_def)
  moreover have "t = s" if "north_ready E s = Inr (b, t)"
    using that assms(2) by (auto simp: north_ready_def getActivePath_def split: if_splits)
  moreover have "t = s" if "processCommandOperation E params s = Inr (r, t)" for r
    using that assms(2)
    by (auto simp: processCommandOperation_def getActivePath_def Let_def split: if_splits option.splits)
  ultimately show ?thesis
    using assms by (auto simp: operation_def ebind_Inr_conv split: if_splits list.splits prod.splits)
qed

lemma operation_life:
  assumes "life_ok s" and "operation E oper params s = Inr (b, t)"
  shows "life_ok t"
  using assms operation_inv [OF _ assms(2)] operation_idle [OF assms(2)]
  by (auto simp: life_ok_def same_conf_def)

lemma hnz_start_life:
  assumes "life_ok s" and "hnz_start E req s = Inr t"
  shows "life_ok t"
proof -
  define s0 where "s0 = (if req then s\<lparr>m_should_run := True\<rparr> else s)"
  have s0: "life_ok s0"
    using assms(1) inv_cong [of s0 s] by (auto simp: s0_def life_ok_def)
  have "t = s0 \<or> (\<exists>s1 s2. \<not> hnz_running s0 \<and>
      m_sendAllTMQualityReadings True False [] (s0\<lparr>hnz_running := True\<rparr>) = Inr s1 \<and>
      m_sendAllTSQualityReadings E True False [] s1 = Inr s2 \<and> m_hnz_connection s2 \<and>
      t = connection_start (s2\<lparr>m_receiving_thread_A := True,
           m_receiving_thread_B := (if m_paths s2 Path_B then True else m_receiving_thread_B s2)\<rparr>))"
    using assms(2) unfolding hnz_start_def Let_def s0_def [symmetric]
    by (auto simp: ebind_Inr_conv split: if_splits)
  then show ?thesis
  proof (elim disjE exE conjE)
    fix s1 s2
    assume a: "m_sendAllTMQualityReadings True False [] (s0\<lparr>hnz_running := True\<rparr>) = Inr s1"
      "m_sendAllTSQualityReadings E True False [] s1 = Inr s2" "m_hnz_connection s2"
      and t: "t = connection_start (s2\<lparr>m_receiving_thread_A := True,
           m_receiving_thread_B := (if m_paths s2 Path_B then True else m_receiving_thread_B s2)\<rparr>)"
    have r: "plugin_ok (s0\<lparr>hnz_running := True\<rparr>)"
      using s0 inv_cong [of "s0\<lparr>hnz_running := True\<rparr>" s0] by (simp add: life_ok_def)
    have "plugin_ok s1" "same_conf (s0\<lparr>hnz_running := True\<rparr>) s1" using sendAll_keeps(1) [OF r a(1)] by simp_all
    with sendAll_keeps(2) [OF _ a(2)] have s2: "plugin_ok s2" "hnz_running s2"
      by (auto simp: same_conf_def)
    have "plugin_ok t = plugin_ok s2" by (rule inv_cong) (simp_all add: t connection_start_def)
    with s2 a(3) show ?thesis by (simp add: life_ok_def t connection_start_def)
  qed (simp add: s0)
qed

lemma inactive_life: "inactive s \<Longrightarrow> life_ok s"
  using inactive_plugin_ok by (simp add: life_ok_def inactive_def)

lemma hnz_stop_life:
  assumes "life_ok s" shows "life_ok (hnz_stop E req s)" "m_active_path (hnz_stop E req s) = None"
  using hnz_stop_inv [of s E req] assms by (auto simp: life_ok_def)

lemma destroy_HNZ_life:
  assumes "life_ok s" shows "life_ok (destroy_HNZ E s)"
proof -
  define s1 where "s1 = (if hnz_running s then hnz_stop E True s else s)"
  have "life_ok s1" using assms hnz_stop_life(1) by (simp add: s1_def)
  then show ?thesis
    using connection_stop_inv [of s1 E]
    by (simp add: destroy_HNZ_def destroy_connection_def Let_def s1_def [symmetric])
      (simp add: life_ok_def)
qed

lemma setJsonConfig_life:
  assumes "life_ok s" and "setJsonConfig E J pj mj name s = Inr (b, t)"
  shows "life_ok t"
proof (cases "pj = [] \<and> mj = [] \<and> name = []")
  case True
  with assms show ?thesis by (simp add: setJsonConfig_def)
next
  case False
  define s1 where "s1 = (if hnz_running s then hnz_stop E False s else s)"
  define conf1 where "conf1 = (if pj \<noteq> [] then importConfigJson J pj new_HNZConf else new_HNZConf)"
  define conf where "conf = (if mj \<noteq> [] then importExchangedDataJson J mj conf1 else conf1)"
  define s3 where "s3 = (if name \<noteq> [] then s1\<lparr>m_service_name := name\<rparr> else s1)\<lparr>m_hnz_conf := conf\<rparr>"
  define s3' where "s3' = s3\<lparr>hnz_remote_address := get_remote_station_addr conf,
                            hnz_test_msg_receive := get_test_msg_receive conf\<rparr>"
  define s4 where "s4 = replace_connection E conf s3'"
  have s1: "life_ok s1" "m_active_path s1 = None"
    using assms(1) hnz_stop_life [OF assms(1), of E False] by (auto simp: s1_def life_ok_def)
  then have s3: "life_ok s3" "m_active_path s3 = None"
    using inv_cong [of s3 s1] by (auto simp: s3_def life_ok_def)
  then have s3': "plugin_ok s3'" "m_active_path s3' = None"
    using inv_cong [of s3' s3] by (auto simp: s3'_def life_ok_def)
  have s4: "life_ok s4"
    unfolding s4_def by (rule inactive_life [OF replace_connection_ok(1) [OF s3']])
  have "(\<not> is_complete conf \<and> t = s3) \<or> t = s4 \<or> hnz_start E False s4 = Inr t"
    using assms(2) False
    unfolding setJsonConfig_def Let_def s1_def [symmetric] conf1_def [symmetric] conf_def [symmetric]
      s3_def [symmetric] s3'_def [symmetric] s4_def [symmetric]
    by (auto simp: ebind_Inr_conv split: if_splits)
  then show ?thesis using s3(1) s4 hnz_start_life [OF s4] by blast
qed

lemma audits_life: "life_ok (emit x s) = life_ok s"
  by (simp add: life_ok_def emit_inv) (simp add: emit_def)

lemma reconfigure_life:
  assumes "life_ok s" and "reconfigure E J ps ed name s = Inr t"
  shows "life_ok t"
  using assms(2) setJsonConfig_life [OF assms(1)]
  by (auto simp: reconfigure_def ebind_Inr_conv audit_defs audits_life)

section \<open>Every reachable state\<close>

lemma new_HNZ_life: "life_ok (new_HNZ a m)"
  by (rule inactive_life) (simp add: inactive_def new_HNZ_def path_ok_new, simp add: new_HNZPath_def)

lemma plugin_step_life:
  assumes "plugin_step E J crc s t" and "life_ok s"
  shows "life_ok t"
  using assms(1)
proof (cases rule: plugin_step.cases)
  case (path_thread p)
  then show ?thesis
    using life_ok_running [OF path_thread(2,3)] manage_turn_inv [of s p E] manage_turn_conf assms(2)
    by (simp add: life_ok_def)
next
  case messages_thread_begins
  then show ?thesis
    using life_ok_running [OF messages_thread_begins(2,3)] manage_begin_inv [of s E] assms(2)
    by (simp add: life_ok_def)
next
  case messages_thread
  then show ?thesis
    using life_ok_running [OF messages_thread(1,2)] manage_messages_keeps [of s E t] assms(2)
    by (simp add: life_ok_def)
next
  case (receiving_thread_begins p)
  then show ?thesis
    using life_ok_running [OF receiving_thread_begins(1,2)] receive_begin_keeps [of E p s t] assms(2)
    by (simp add: life_ok_def)
next
  case (receiving_thread p fr)
  then show ?thesis
    using life_ok_running [OF receiving_thread(1,2)] receive_turn_keeps [of E p crc fr s t] assms(2)
    by (simp add: life_ok_def)
next
  case (request oper params b)
  with operation_life [OF assms(2)] show ?thesis by (simp add: plugin_operation_def)
next
  case (callback cb)
  then have "t = registerIngest cb s" by (simp add: plugin_register_ingest_def)
  with assms(2) inv_cong [of t s] show ?thesis by (simp add: registerIngest_def life_ok_def)
next
  case start
  with hnz_start_life [OF assms(2)] show ?thesis by (auto simp: plugin_start_def ebind_Inr_conv)
next
  case (configure ps ed name)
  show ?thesis by (rule reconfigure_life [OF assms(2) configure])
next
  case shutdown
  with destroy_HNZ_life [OF assms(2)] show ?thesis by (auto simp: plugin_shutdown_def)
qed

definition plugin_init_state :: "sys \<Rightarrow> bool" where
  "plugin_init_state s \<longleftrightarrow> (\<exists>a m. s = new_HNZ a m)"

interpretation plugin: invariant_system plugin_init_state "plugin_step E J crc" life_ok
  for E :: env and J :: "('v, 'z) json_api_scheme" and crc
  by unfold_locales (auto simp: plugin_init_state_def new_HNZ_life intro: plugin_step_life)

end
