(* ===== verification/HNZ_Default.thy ===== *)
theory HNZ_Default
  imports HNZ_System
begin

text \<open>
  The configuration of the default documents of \<open>src/plugin.cpp\<close> and states of a plugin that
  runs with it, on which the properties are applied: both paths connected, the first one
  active, and variations of that state.
\<close>

section \<open>Configuration and environment\<close>

definition default_bulle :: BulleFormat where
  "default_bulle = \<lparr>first = 0x13, second = 0x04\<rparr>"

definition default_conf :: HNZConf where
  "default_conf =
    \<lparr>get_paths_ip = [''192.168.0.10'', ''192.168.0.10''], get_paths_port = [6001, 6002],
     get_paths_repeat = [3, 3], get_remote_station_addr = 12, get_inacc_timeout = 180,
     get_max_sarm = 30, get_repeat_timeout = 3000, get_anticipation_ratio = 3,
     get_test_msg_send = default_bulle, get_test_msg_receive = default_bulle,
     get_gi_schedule = \<lparr>activate = False, hour = 99, minute = 99\<rparr>,
     get_gi_repeat_count = 3, get_gi_time = 255, get_c_ack_time = 10,
     get_cmd_recv_timeout = DEFAULT_CMD_RECV_TIMEOUT, get_bulle_time = DEFAULT_BULLE_TIME,
     get_use_utc = False, get_connx_status_signal = ''CONNECTION-1'', getLastTSAddress = 511,
     get_all_messages = [''TS'' \<mapsto> [12 \<mapsto> [(511, ''TS1'')]], ''TM'' \<mapsto> [12 \<mapsto> [(511, ''TM1'')]]],
     m_cgTriggeringTsAdresses = Map.empty,
     m_config_is_complete = True, m_exchange_data_is_complete = True\<rparr>"

text \<open>An environment: the clock, sockets that are connected, a zone one hour ahead of UTC.\<close>

definition default_env :: env where
  "default_env =
    \<lparr>clock_ms = (\<lambda>n. 1700000000000 + int n), tcp_connected = (\<lambda>_. True), tz_offset = (\<lambda>_. 3600),
     SARM_CODE = 0x0F, UA_CODE = 0x63, MODULO_CODE = 0x0F, TM4_CODE = 0x02, TSCE_CODE = 0x0B,
     TSCG_CODE = 0x16, TMN_CODE = 0x0C, TCACK_CODE = 0x09, TVCACK_CODE = 0x0A,
     SETDATE_CODE = 0x1C, SETTIME_CODE = 0x1D, TC_CODE = 0x19, TVC_CODE = 0x1A\<rparr>"

lemma default_codes [simp]: "codes_distinct default_env"
  by (simp add: codes_distinct_def default_env_def)

section \<open>States\<close>

definition connected_path :: "string \<Rightarrow> ConnectionState \<Rightarrow> HNZPath" where
  "connected_path l st = (new_HNZPath default_conf 3 ''192.168.0.10'' 6001 l)
     \<lparr>m_protocol_state := CONNECTED, m_connection_state := st\<rparr>"

text \<open>Both paths connected, path A active.\<close>

definition running_state :: sys where
  "running_state = (new_HNZ 12 default_bulle)
    \<lparr>m_hnz_conf := default_conf, hnz_running := True, m_hnz_connection := True, m_ingest := True,
     paths := (\<lambda>p. case p of Path_A \<Rightarrow> connected_path ''A'' ACTIVE | Path_B \<Rightarrow> connected_path ''B'' PASSIVE),
     m_paths := (\<lambda>_. True), m_active_path := Some Path_A, m_first_input_connected := Some Path_A,
     m_connStatus := CS_STARTED, conn_running := True, conn_repeat_timeout := 3000,
     m_gi_repeat_count_max := 3, m_gi_time_max := 255000, m_current := 1700000000000,
     m_service_name := ''hnz''\<rparr>"

lemma path_all: "(\<forall>p. P p) \<longleftrightarrow> P Path_A \<and> P Path_B"
  by (metis path_id.exhaust)

lemma running_state_fields [simp]:
  "paths running_state Path_A = connected_path ''A'' ACTIVE"
  "paths running_state Path_B = connected_path ''B'' PASSIVE"
  "m_paths running_state p" "m_active_path running_state = Some Path_A"
  "m_first_input_connected running_state = Some Path_A" "m_connStatus running_state = CS_STARTED"
  "conn_running running_state" "hnz_running running_state" "m_hnz_connection running_state"
  "m_gi_repeat running_state = 0" "m_giStatus running_state = GI_IDLE"
  "\<not> m_giInQueue running_state" "m_hnz_conf running_state = default_conf"
  "hnz_remote_address running_state = 12" "hnz_test_msg_receive running_state = default_bulle"
  "m_gi_addresses_received running_state = []" "reads running_state = 0"
  by (simp_all add: running_state_def new_HNZ_def)

lemma connected_path_fields [simp]:
  "m_protocol_state (connected_path l st) = CONNECTED" "m_connection_state (connected_path l st) = st"
  "msg_sent (connected_path l st) = []" "msg_waiting (connected_path l st) = []"
  "m_ns (connected_path l st) = 0" "m_nr (connected_path l st) = 0" "m_NRR (connected_path l st) = 0"
  "m_repeat (connected_path l st) = 0" "m_nbr_sarm_sent (connected_path l st) = 0"
  "m_max_sarm (connected_path l st) = 30" "m_remote_address (connected_path l st) = 12"
  "m_anticipation_ratio (connected_path l st) = 3" "repeat_max (connected_path l st) = 2"
  "m_test_msg_receive (connected_path l st) = default_bulle"
  "m_test_msg_send (connected_path l st) = default_bulle" "command_sent (connected_path l st) = []"
  "m_use_utc (connected_path l st) = False" "last_sent_time (connected_path l st) = 0"
  "m_last_connected (connected_path l st) = 0"
  by (simp_all add: connected_path_def new_HNZPath_def default_conf_def)

lemma connected_path_ok [simp]: "path_ok (connected_path l st)"
  by (simp add: path_ok_defs)

lemma running_plugin_ok [simp]: "plugin_ok running_state"
  by (simp add: plugin_ok_def sys_ok_def path_all link_ok_def agree_def sarm_ok_def
      first_input_ok_def arbitration_defs present_ok_def gi_ok_def)

lemma running_points [simp]: "points_ok ''TS'' running_state" "points_ok ''TM'' running_state"
  by (simp_all add: points_ok_def msg_leaf_def default_conf_def)

text \<open>The messages of the default bulle, and a message sent.\<close>

definition test_message :: "nat \<Rightarrow> Message" where
  "test_message n = \<lparr>ns = int n, payload = [0x19, 0x05, 0x28]\<rparr>"

text \<open>A full window and one message that waits.\<close>

definition busy_path :: HNZPath where
  "busy_path = (connected_path ''A'' ACTIVE)
     \<lparr>msg_sent := [test_message 0, test_message 1, test_message 2],
      msg_waiting := [test_message 0], m_ns := 3\<rparr>"

definition busy_state :: sys where
  "busy_state = running_state\<lparr>paths := (paths running_state)(Path_A := busy_path)\<rparr>"

lemma busy_path_fields [simp]:
  "m_protocol_state busy_path = CONNECTED" "m_connection_state busy_path = ACTIVE"
  "msg_sent busy_path = [test_message 0, test_message 1, test_message 2]"
  "msg_waiting busy_path = [test_message 0]" "m_ns busy_path = 3" "m_nr busy_path = 0"
  "m_NRR busy_path = 0" "m_repeat busy_path = 0" "m_anticipation_ratio busy_path = 3"
  "m_max_sarm busy_path = 30" "m_nbr_sarm_sent busy_path = 0" "repeat_max busy_path = 2"
  "last_sent_time busy_path = 0"
  by (simp_all add: busy_path_def)

lemma busy_state_fields [simp]:
  "paths busy_state Path_A = busy_path" "paths busy_state Path_B = connected_path ''B'' PASSIVE"
  "m_paths busy_state p" "m_active_path busy_state = Some Path_A"
  "m_first_input_connected busy_state = Some Path_A" "m_connStatus busy_state = CS_STARTED"
  "conn_running busy_state" "m_gi_repeat busy_state = 0" "m_hnz_connection busy_state"
  "m_giStatus busy_state = GI_IDLE"
  by (simp_all add: busy_state_def)

lemma busy_path_ok [simp]: "path_ok busy_path"
  by (simp add: path_ok_defs)

lemma busy_plugin_ok [simp]: "plugin_ok busy_state"
  by (simp add: plugin_ok_def sys_ok_def path_all link_ok_def agree_def sarm_ok_def
      first_input_ok_def arbitration_defs present_ok_def gi_ok_def)

end
