(* ===== verification/HNZ_Link_Properties.thy ===== *)
theory HNZ_Link_Properties
  imports HNZ_Default
begin

text \<open>
  What the link layer of a path promises: acknowledgement numbers, the window, the queue of
  waiting messages, repetition, the fields of frames and the separation of a payload into
  messages.
\<close>

section \<open>Acknowledgement and window\<close>

lemma busy_consecutive: "consecutive busy_path"
  by (simp add: consecutive_def test_message_def)

text \<open>
  C21. An acknowledgement number is valid exactly when it lies between the last acknowledged
  number and the next number to send, on the circle of the numbers modulo 8.
\<close>
theorem valid_ack_iff:
  assumes "numbers_ok pa" and "nr \<in> {0..7}"
  shows "m_isNRValid pa nr \<longleftrightarrow> (nr - m_NRR pa) mod 8 \<le> (m_ns pa - m_NRR pa) mod 8"
  by (rule isNRValid_iff [OF assms])

theorem valid_ack_iff_witness:
  "m_isNRValid (busy_path\<lparr>m_NRR := 6, m_ns := 1\<rparr>) 7 \<longleftrightarrow>
   (7 - m_NRR (busy_path\<lparr>m_NRR := 6, m_ns := 1\<rparr>)) mod 8
     \<le> (m_ns (busy_path\<lparr>m_NRR := 6, m_ns := 1\<rparr>) - m_NRR (busy_path\<lparr>m_NRR := 6, m_ns := 1\<rparr>)) mod 8"
  by (rule valid_ack_iff) (simp_all add: numbers_ok_def)

text \<open>
  C12. The loop that sends waiting messages after an acknowledgement ends, whatever the queue:
  the acknowledged messages have left the window, the first waiting messages have taken their
  place in order, and the loop stopped because none was left or the window was full again.
\<close>
theorem ack_refills_window:
  assumes "path_ok (paths s p)" and "nr \<in> {0..7}"
  shows "\<exists>t k. m_NRAccepted E p nr s = Inr t \<and> path_ok (paths t p) \<and> m_NRR (paths t p) = nr \<and>
    m_repeat (paths t p) = 0 \<and>
    map payload (msg_sent (paths t p))
      = map payload (drop (nat ((nr - m_NRR (paths s p)) mod 8)) (msg_sent (paths s p)))
        @ take k (map payload (msg_waiting (paths s p))) \<and>
    msg_waiting (paths t p) = drop k (msg_waiting (paths s p)) \<and>
    (msg_waiting (paths t p) = [] \<or> \<not> window_open (paths t p))"
  using NRAccepted_total [OF assms, of E] by (simp add: take_map) blast

theorem ack_refills_window_witness:
  "\<exists>t k. m_NRAccepted default_env Path_A 2 busy_state = Inr t \<and> path_ok (paths t Path_A) \<and>
    m_NRR (paths t Path_A) = 2 \<and> m_repeat (paths t Path_A) = 0 \<and>
    map payload (msg_sent (paths t Path_A))
      = map payload (drop (nat ((2 - m_NRR (paths busy_state Path_A)) mod 8)) (msg_sent (paths busy_state Path_A)))
        @ take k (map payload (msg_waiting (paths busy_state Path_A))) \<and>
    msg_waiting (paths t Path_A) = drop k (msg_waiting (paths busy_state Path_A)) \<and>
    (msg_waiting (paths t Path_A) = [] \<or> \<not> window_open (paths t Path_A))"
  by (rule ack_refills_window) simp_all

text \<open>
  Numbering: as long as the messages kept for repetition carry consecutive numbers that end
  just before the next one, a valid acknowledgement removes only messages it covers and the
  messages kept afterwards are consecutive again.
\<close>
lemma ack_keeps_numbering:
  assumes "path_ok (paths s p)" and "nr \<in> {0..7}" and "consecutive (paths s p)"
    and "length (msg_sent (paths s p)) \<le> 7" and "m_isNRValid (paths s p) nr"
    and "m_NRAccepted E p nr s = Inr t"
  shows "consecutive (paths t p) \<and>
    (\<forall>m \<in> set (take (nat ((nr - m_NRR (paths s p)) mod 8)) (msg_sent (paths s p))).
       (ns m - m_NRR (paths s p)) mod 8 < (nr - m_NRR (paths s p)) mod 8)"
proof
  show "consecutive (paths t p)" by (rule NRAccepted_consecutive(1) [OF assms])
  define pa where "pa = paths s p"
  define d where "d = nat ((nr - m_NRR pa) mod 8)"
  have len: "d \<le> length (msg_sent pa)"
    using NRAccepted_consecutive(2) [OF assms] by (simp add: d_def pa_def)
  have d: "int d = (nr - m_NRR pa) mod 8" "d \<le> 7"
    using pos_mod_bound [of 8 "nr - m_NRR pa"] by (simp_all add: d_def nat_le_iff)
  show "\<forall>m \<in> set (take (nat ((nr - m_NRR (paths s p)) mod 8)) (msg_sent (paths s p))).
       (ns m - m_NRR (paths s p)) mod 8 < (nr - m_NRR (paths s p)) mod 8"
    unfolding pa_def [symmetric] d_def [symmetric]
  proof
    fix m assume "m \<in> set (take d (msg_sent pa))"
    then obtain i where i: "i < d" "i < length (msg_sent pa)" "m = msg_sent pa ! i"
      by (auto simp: in_set_conv_nth)
    have "map ns (msg_sent pa) ! i = (m_NRR pa + int i) mod 8"
      using assms(3) i(2) by (simp add: consecutive_def pa_def)
    then have "ns m = (m_NRR pa + int i) mod 8" using i by simp
    then have "(ns m - m_NRR pa) mod 8 = int i mod 8" by (simp add: mod_diff_left_eq)
    with i(1) d show "(ns m - m_NRR pa) mod 8 < (nr - m_NRR pa) mod 8" by simp
  qed
qed

lemma ack_keeps_numbering_witness:
  "\<exists>t. m_NRAccepted default_env Path_A 2 busy_state = Inr t \<and> consecutive (paths t Path_A) \<and>
    (\<forall>m \<in> set (take (nat ((2 - m_NRR (paths busy_state Path_A)) mod 8)) (msg_sent (paths busy_state Path_A))).
       (ns m - m_NRR (paths busy_state Path_A)) mod 8 < (2 - m_NRR (paths busy_state Path_A)) mod 8)"
proof -
  obtain t where t: "m_NRAccepted default_env Path_A 2 busy_state = Inr t"
    using NRAccepted_total [of busy_state Path_A 2] by auto
  show ?thesis
    using ack_keeps_numbering [OF _ _ _ _ _ t] t
    by (simp add: busy_consecutive m_isNRValid_def)
qed

text \<open>
  Sending a message while the window is open numbers it with the next number and keeps the
  numbering; when the window is full the message joins the end of the queue and nothing is
  sent; without the connection it needs, it is discarded.
\<close>
lemma sendInfo_outcomes:
  assumes "path_ok (paths s p)" and "m_sendInfo E p msg s = (sent, t)"
  shows "path_ok (paths t p) \<and>
    (if discarded (paths s p) msg then \<not> sent \<and> t = s
     else if window_open (paths s p)
     then sent \<and> outs t = outs s @ [SendFrame p (m_address_ARP (paths s p))
            (u8 (m_nr (paths s p) * 0x20 + m_ns (paths s p) * 0x2) # msg)] \<and>
          msg_sent (paths t p) = msg_sent (paths s p) @ [\<lparr>ns = m_ns (paths s p), payload = msg\<rparr>] \<and>
          m_ns (paths t p) = (m_ns (paths s p) + 1) mod 8 \<and>
          (consecutive (paths s p) \<longrightarrow> consecutive (paths t p))
     else \<not> sent \<and> outs t = outs s \<and> msg_sent (paths t p) = msg_sent (paths s p) \<and>
          msg_waiting (paths t p) = msg_waiting (paths s p) @ [\<lparr>ns = 0, payload = msg\<rparr>])"
proof
  show "path_ok (paths t p)" by (rule sendInfo_path_ok [OF assms(2,1)])
  consider (discard) "discarded (paths s p) msg"
    | (send) "\<not> discarded (paths s p) msg" "window_open (paths s p)"
    | (queue) "\<not> discarded (paths s p) msg" "\<not> window_open (paths s p)" by blast
  then show "if discarded (paths s p) msg then \<not> sent \<and> t = s
     else if window_open (paths s p)
     then sent \<and> outs t = outs s @ [SendFrame p (m_address_ARP (paths s p))
            (u8 (m_nr (paths s p) * 0x20 + m_ns (paths s p) * 0x2) # msg)] \<and>
          msg_sent (paths t p) = msg_sent (paths s p) @ [\<lparr>ns = m_ns (paths s p), payload = msg\<rparr>] \<and>
          m_ns (paths t p) = (m_ns (paths s p) + 1) mod 8 \<and>
          (consecutive (paths s p) \<longrightarrow> consecutive (paths t p))
     else \<not> sent \<and> outs t = outs s \<and> msg_sent (paths t p) = msg_sent (paths s p) \<and>
          msg_waiting (paths t p) = msg_waiting (paths s p) @ [\<lparr>ns = 0, payload = msg\<rparr>]"
  proof cases
    case send
    then have r: "m_sendInfoImmediately E p \<lparr>ns = 0, payload = msg\<rparr> s = (sent, t)"
      using assms(2) by (simp add: m_sendInfo_def Let_def)
    from r show ?thesis
    proof (cases rule: sendInfoImmediately_cases)
      case (sent time time')
      have "consecutive (paths s p) \<Longrightarrow> consecutive (paths t p)"
        using consecutive_sent [of "paths s p"] unfolding consecutive_def by (simp add: sent(3))
      with sent send show ?thesis by simp
    qed (use send in simp)
  qed (use assms(2) in \<open>auto simp: m_sendInfo_def Let_def\<close>)
qed

lemma sendInfo_outcomes_witness:
  "m_sendInfo default_env Path_A [0x19, 0x05, 0x28] busy_state
     = (False, snd (m_sendInfo default_env Path_A [0x19, 0x05, 0x28] busy_state)) \<and>
   msg_waiting (paths (snd (m_sendInfo default_env Path_A [0x19, 0x05, 0x28] busy_state)) Path_A)
     = [test_message 0, test_message 0]"
proof -
  obtain sent t where r: "m_sendInfo default_env Path_A [0x19, 0x05, 0x28] busy_state = (sent, t)"
    by fastforce
  show ?thesis
    using sendInfo_outcomes [OF _ r]
    by (simp add: r discarded_def window_open_def test_message_def)
qed

section \<open>Repetition\<close>

lemma asked_paths: "paths (asked s) = paths s"
  by (simp add: asked_def)

lemma paths_sendBackInfo:
  "\<exists>time time'. paths (sendBackInfo E p m s) p
     = (paths s p)\<lparr>m_repeat := m_repeat (paths s p) + 1, m_last_msg_sent_time := time, last_sent_time := time'\<rparr>"
  by (auto simp: sendBackInfo_def Let_def paths_sendFrame)

lemma outs_sendBackInfo:
  "outs (sendBackInfo E p m s) = outs s @ [SendFrame p (m_address_ARP (paths s p))
     (u8 (m_nr (paths s p) * 0x20 + 0x10 + ns m * 0x2) # payload m)]"
  by (simp add: sendBackInfo_def Let_def outs_sendFrame)

text \<open>
  C17. The check of the repetition timer: nothing happens without an unacknowledged message,
  without a TCP connection or before the timeout; after the last attempt the automaton gets
  MAX_SEND; otherwise the oldest unacknowledged message is sent again, with its own number and
  the repetition bit, and the other unacknowledged messages go back in order before the
  waiting ones.
\<close>
theorem repetition_outcomes:
  "if msg_sent (paths s p) = [] then check_repetition E p s = s
   else if \<not> (now_connected E s \<and> repetition_due p s) then check_repetition E p s = asked s
   else if m_repeat (paths s p) \<ge> repeat_max (paths s p)
   then check_repetition E p s = protocolStateTransition E p MAX_SEND (asked s)
   else outs (check_repetition E p s) = outs s @ [SendFrame p (m_address_ARP (paths s p))
          (u8 (m_nr (paths s p) * 0x20 + 0x10 + ns (hd (msg_sent (paths s p))) * 0x2)
           # payload (hd (msg_sent (paths s p))))] \<and>
        msg_sent (paths (check_repetition E p s) p) = [hd (msg_sent (paths s p))] \<and>
        msg_waiting (paths (check_repetition E p s) p)
          = tl (msg_sent (paths s p)) @ msg_waiting (paths s p) \<and>
        m_repeat (paths (check_repetition E p s) p) = m_repeat (paths s p) + 1 \<and>
        m_ns (paths (check_repetition E p s) p) = m_ns (paths s p)"
proof -
  have due: "repetition_due p (asked s) = repetition_due p s"
    by (simp add: repetition_due_def asked_def)
  have take: "take (Suc 0) xs = [hd xs]" if "xs \<noteq> []" for xs :: "Message list"
    using that by (cases xs) auto
  obtain time time' where b: "paths (sendBackInfo E p (hd (msg_sent (paths s p))) (asked s)) p
      = (paths s p)\<lparr>m_repeat := m_repeat (paths s p) + 1, m_last_msg_sent_time := time, last_sent_time := time'\<rparr>"
    using paths_sendBackInfo [of E p _ "asked s"] by (metis asked_paths)
  show ?thesis
    by (simp add: check_repetition_def Let_def isTCPConnected_def due repeat_or_give_up_eq
        give_back_def b take outs_sendBackInfo)
qed

text \<open>
  C33. A repetition leaves a gap in the numbering: the messages taken back are not sent with the
  numbers they had, because the next number to send is not set back.  When the station
  acknowledges the repeated message, the message sent next carries the number after all those
  already used, not the one the station expects.
\<close>
theorem repetition_leaves_gap:
  assumes "path_ok (paths s p)" and "consecutive (paths s p)"
    and "msg_sent (paths s p) = m # m' # ms" and "length ms \<le> 5"
    and "m_repeat (paths s p) < repeat_max (paths s p)"
    and "m_NRAccepted E p ((m_NRR (paths s p) + 1) mod 8) (repeat_or_give_up E p s) = Inr t"
  shows "msg_sent (paths t p) \<noteq> [] \<and> payload (hd (msg_sent (paths t p))) = payload m' \<and>
    ns (hd (msg_sent (paths t p))) = m_ns (paths s p) \<and> ns m' = m_NRR (paths t p) \<and>
    m_ns (paths s p) \<noteq> m_NRR (paths t p)"
proof -
  define u where "u = repeat_or_give_up E p s"
  define nr where "nr = (m_NRR (paths s p) + 1) mod 8"
  obtain time time' where b: "paths (sendBackInfo E p m s) p
      = (paths s p)\<lparr>m_repeat := m_repeat (paths s p) + 1, m_last_msg_sent_time := time, last_sent_time := time'\<rparr>"
    using paths_sendBackInfo by blast
  have u: "paths u p = (paths s p)\<lparr>m_repeat := m_repeat (paths s p) + 1, m_last_msg_sent_time := time,
      last_sent_time := time', msg_sent := [m], msg_waiting := m' # ms @ msg_waiting (paths s p)\<rparr>"
    using assms(3,5) by (simp add: u_def repeat_or_give_up_eq give_back_def b)
  have ok: "path_ok (paths u p)"
    using path_ok_taken_back [OF sendBackInfo_path_ok [OF assms(1)]] assms(5)
    by (simp add: u_def repeat_or_give_up_eq give_back_def)
  have nr: "nr \<in> {0..7}" by (simp add: nr_def)
  have n: "m_NRR (paths s p) \<in> {0..7}" using assms(1) by (simp add: path_ok_defs)
  have d: "nat ((nr - m_NRR (paths u p)) mod 8) = 1"
    by (subst u) (simp add: nr_def mod_diff_left_eq)
  have u1: "drop 1 (msg_sent (paths u p)) = []" by (simp add: u)
  obtain t' k where t': "m_NRAccepted E p nr u = Inr t'" "m_NRR (paths t' p) = nr"
    "map payload (msg_sent (paths t' p)) = map payload (take k (msg_waiting (paths u p)))"
    "msg_waiting (paths t' p) = drop k (msg_waiting (paths u p))"
    "msg_waiting (paths t' p) = [] \<or> \<not> window_open (paths t' p)" "link_step p u t'"
    using NRAccepted_total [OF ok nr, of E] unfolding d u1 append_Nil by blast
  have t [simp]: "t' = t" using assms(6) t'(1) by (simp add: u_def nr_def)
  have w: "msg_waiting (paths u p) = m' # ms @ msg_waiting (paths s p)" by (subst u) simp
  have "0 < u64 (m_anticipation_ratio (paths s p))"
    using assms(1,3) by (auto simp: path_ok_def window_ok_def)
  moreover have "m_anticipation_ratio (paths t p) = m_anticipation_ratio (paths s p)"
    using same_states_settings(1) [of "paths u p" "paths t p"] t'(6) by (simp add: link_step_def u)
  ultimately have "window_open (paths t p)" if "msg_sent (paths t p) = []"
    using that by (simp add: window_open_def)
  with t'(3-5) w have k: "k \<noteq> 0" by (cases k) auto
  with t'(3) w have sent: "msg_sent (paths t p) \<noteq> [] \<and> payload (hd (msg_sent (paths t p))) = payload m'"
    by (cases k; cases "msg_sent (paths t p)") auto
  have "(if msg_sent (paths t p) = [] then m_ns (paths t p) else ns (hd (msg_sent (paths t p)))) = m_ns (paths s p)"
    by (rule NRAccepted_inv [OF ok nr, of E t "\<lambda>pa. (if msg_sent pa = [] then m_ns pa
        else ns (hd (msg_sent pa))) = m_ns (paths s p)"])
      (use t'(1) d u in \<open>auto simp: u split: if_splits\<close>)
  moreover have ns: "m_ns (paths s p) = (m_NRR (paths s p) + int (2 + length ms)) mod 8"
    using assms(2,3) by (simp add: consecutive_def)
  moreover have "map ns (msg_sent (paths s p)) ! 1
      = map (\<lambda>i. (m_NRR (paths s p) + int i) mod 8) [0..<length (msg_sent (paths s p))] ! 1"
    using assms(2) by (simp add: consecutive_def)
  then have "ns m' = nr" using assms(3) by (simp add: nr_def del: upt_Suc)
  moreover have "m_ns (paths s p) \<noteq> nr"
    using n assms(4) unfolding ns nr_def by simp presburger
  ultimately show ?thesis using sent t'(2) by simp
qed

theorem repetition_leaves_gap_witness:
  "\<exists>t. m_NRAccepted default_env Path_A 1 (repeat_or_give_up default_env Path_A busy_state) = Inr t \<and>
     ns (hd (msg_sent (paths t Path_A))) = 3 \<and> m_NRR (paths t Path_A) = 1"
proof -
  have "plugin_ok (repeat_or_give_up default_env Path_A busy_state)"
    by (rule repeat_or_give_up_inv(1)) simp_all
  then have "path_ok (paths (repeat_or_give_up default_env Path_A busy_state) Path_A)"
    by (simp add: plugin_ok_def sys_okD(2))
  then obtain t where t: "m_NRAccepted default_env Path_A 1 (repeat_or_give_up default_env Path_A busy_state) = Inr t"
    "m_NRR (paths t Path_A) = 1"
    using NRAccepted_total [of "repeat_or_give_up default_env Path_A busy_state" Path_A 1 default_env] by auto
  show ?thesis
    using repetition_leaves_gap [of busy_state Path_A "test_message 0" "test_message 1"
        "[test_message 2]" default_env t] t
    by (simp add: busy_consecutive)
qed

section \<open>Frames\<close>

text \<open>
  The information frame that carries a message and the fields the receiver of a frame reads
  fit together: an even control byte from which the sender's two numbers and a cleared
  repetition bit are read back.
\<close>
lemma info_frame_roundtrip:
  assumes "path_ok (paths s p)" and "m_sendInfo E p msg s = (True, t)"
  shows "\<exists>type. outs t = outs s @ [SendFrame p (m_address_ARP (paths s p)) (type # msg)] \<and>
    frame_nr type = m_nr (paths s p) \<and> frame_ns type = m_ns (paths s p) \<and> frame_pf type = 0 \<and>
    \<not> is_supervision type"
proof -
  have "\<not> discarded (paths s p) msg" "window_open (paths s p)"
    using assms(2) by (auto simp: m_sendInfo_def Let_def split: if_splits)
  with assms(2) have "m_sendInfoImmediately E p \<lparr>ns = 0, payload = msg\<rparr> s = (True, t)"
    by (simp add: m_sendInfo_def Let_def)
  then have "outs t = outs s @ [SendFrame p (m_address_ARP (paths s p))
      (u8 (m_nr (paths s p) * 0x20 + m_ns (paths s p) * 0x2) # msg)]"
    by (cases rule: sendInfoImmediately_cases) simp_all
  then show ?thesis
    using control_byte_fields [of "m_nr (paths s p)" "m_ns (paths s p)" 0] assms(1)
    by (simp add: path_ok_def numbers_ok_def)
qed

lemma info_frame_roundtrip_witness:
  "\<exists>type. outs (snd (m_sendInfo default_env Path_A [1, 2] running_state))
     = outs running_state @ [SendFrame Path_A (m_address_ARP (connected_path ''A'' ACTIVE)) [type, 1, 2]] \<and>
   frame_nr type = 0 \<and> frame_ns type = 0 \<and> frame_pf type = 0 \<and> \<not> is_supervision type"
proof -
  have "m_sendInfo default_env Path_A [1, 2] running_state
      = (True, snd (m_sendInfo default_env Path_A [1, 2] running_state))"
    by (simp add: m_sendInfo_def m_sendInfoImmediately_def discarded_def window_open_def Let_def)
  from info_frame_roundtrip [OF _ this] show ?thesis by simp
qed

text \<open>
  A frame with a wrong CRC, of another station or of the wrong direction changes nothing and
  yields no message.
\<close>
lemma foreign_frame_ignored:
  assumes "aubTrame fr = first_byte # type # rest"
    and "\<not> checkCRC fr \<or> frame_address first_byte \<noteq> m_remote_address (paths s p)
       \<or> frame_direction first_byte \<noteq> expected_direction E type"
  shows "getData E p checkCRC (Some fr) s = Inr ([], s)"
  using assms by (auto simp: getData_def m_analyze_frame_def rd_def)

lemma foreign_frame_ignored_witness:
  "getData default_env Path_A (\<lambda>_. True) (Some \<lparr>aubTrame = [0x35, 0x0F, 0, 0], usLgBuffer = 4\<rparr>) running_state
     = Inr ([], running_state)"
  by (rule foreign_frame_ignored [where first_byte = "0x35" and type = "0x0F" and rest = "[0, 0]"])
    (simp_all add: frame_address_def)

text \<open>
  At any time the frames of one path at most yield messages: of the active one or, when there
  is none, of the first one with an input connection.
\<close>
lemma one_path_extracts:
  assumes "m_analyze_frame E p fr s = Inr (ms, t)" and "ms \<noteq> []"
    and "m_analyze_frame E q fr' s = Inr (ms', t')" and "ms' \<noteq> []"
  shows "p = q \<and> m_active_path s \<in> {None, Some p}"
proof -
  have "canPathExtractMessage r s" if "m_analyze_frame E r f s = Inr (m, u)" "m \<noteq> []" for r f m u
    using that by (auto simp: m_analyze_frame_def m_receivedINFO_def ebind_Inr_conv Let_def split: if_splits)
  with assms have "canPathExtractMessage p s" "canPathExtractMessage q s" by blast+
  then show ?thesis by (auto simp: canPathExtractMessage_def split: if_splits)
qed

lemma bulle_frame_extracted:
  "\<exists>t. m_analyze_frame default_env Path_A \<lparr>aubTrame = [0x31, 0x00, 0x13, 0x04, 0, 0], usLgBuffer = 6\<rparr>
     running_state = Inr ([[0x13, 0x04]], t)"
proof -
  have x: "m_extract_messages default_env Path_A [0x13, 0x04, 0, 0] 2 running_state
      = Inr ([[0x13, 0x04]], m_receivedBULLE default_env Path_A running_state)"
    by (subst m_extract_messages.simps)
      (simp add: first_length_def known_length_def rd_def default_env_def default_bulle_def
        convertPayloadToVector_def)
  have codes: "UA_CODE default_env = 0x63" "SARM_CODE default_env = 0x0F"
    by (simp_all add: default_env_def)
  show ?thesis
    by (simp add: m_analyze_frame_def Let_def rd_def frame_address_def frame_direction_def
        expected_direction_def is_supervision_def codes m_receivedINFO_def frame_pf_def frame_ns_def
        frame_nr_def x canPathExtractMessage_def m_sendRR_def m_receivedRR_def m_receivedBULLE_def)
qed

lemma one_path_extracts_witness:
  "\<exists>t. m_analyze_frame default_env Path_A \<lparr>aubTrame = [0x31, 0x00, 0x13, 0x04, 0, 0], usLgBuffer = 6\<rparr>
     running_state = Inr ([[0x13, 0x04]], t) \<and> m_active_path running_state \<in> {None, Some Path_A}"
  using bulle_frame_extracted one_path_extracts by blast

text \<open>
  C7. Handling a frame in a state that satisfies the invariant always returns: either with a state
  that satisfies it, or with a read outside the frame's buffer.
\<close>
theorem frame_handling_returns:
  assumes "plugin_ok s" and "m_paths s p" and "frame_fits fr"
  shows "m_analyze_frame E p fr s = Inl Out_of_bounds \<or>
    (\<exists>ms t. m_analyze_frame E p fr s = Inr (ms, t) \<and> plugin_ok t)"
  using analyze_frame_cases [OF assms, of E] by blast

theorem frame_handling_returns_witness:
  "m_analyze_frame default_env Path_A \<lparr>aubTrame = [0x31, 0x40, 0x13, 0x04, 0, 0], usLgBuffer = 6\<rparr> busy_state
     = Inl Out_of_bounds \<or>
   (\<exists>ms t. m_analyze_frame default_env Path_A \<lparr>aubTrame = [0x31, 0x40, 0x13, 0x04, 0, 0], usLgBuffer = 6\<rparr>
       busy_state = Inr (ms, t) \<and> plugin_ok t)"
  by (rule frame_handling_returns) (simp_all add: frame_fits_def)

section \<open>Messages of a payload\<close>

text \<open>
  When the separation of a payload returns, the payload was not longer than the buffer and
  the messages, put end to end, are exactly the payload: nothing lost, nothing added, in order.
\<close>
lemma extraction_partition:
  assumes "m_extract_messages E p data n s = Inr (msgs, t)" and "fits data n" and "n < 2 ^ 31"
  shows "0 \<le> n \<and> n \<le> int (length data) \<and> concat msgs = take (nat n) data"
  using extract_Inr [OF assms] by blast

text \<open>
  C9. Known messages put end to end are separated into exactly these messages, whatever follows
  them in the buffer.
\<close>
theorem extraction_roundtrip:
  assumes "ms \<noteq> []" and "\<forall>m \<in> set ms. is_msg E (m_test_msg_receive (paths s p)) m"
  shows "\<exists>t. m_extract_messages E p (concat ms @ rest) (int (length (concat ms))) s = Inr (ms, t)"
  by (rule extract_concat [OF assms])

theorem extraction_roundtrip_witness:
  "\<exists>t. m_extract_messages default_env Path_A (concat [[0x13, 0x04], [0x0B, 1, 0, 0, 0], [0x13, 0x04]] @ [7, 8])
     (int (length (concat [[0x13, 0x04], [0x0B, 1, 0, 0, 0], [0x13, 0x04 :: byte]]))) running_state
     = Inr ([[0x13, 0x04], [0x0B, 1, 0, 0, 0], [0x13, 0x04]], t)"
  by (rule extraction_roundtrip) (simp_all add: is_msg_def known_length_def default_env_def default_bulle_def)

lemma extraction_partition_witness:
  "\<exists>t. m_extract_messages default_env Path_A [0x13, 0x04, 0x13, 0x04, 9, 9] 4 running_state
       = Inr ([[0x13, 0x04], [0x13, 0x04]], t) \<and>
     concat [[0x13, 0x04], [0x13, 0x04]] = take (nat 4) [0x13, 0x04, 0x13, 0x04, 9, 9 :: byte]"
proof -
  have "\<forall>m \<in> set [[0x13, 0x04], [0x13, 0x04]].
      is_msg default_env (m_test_msg_receive (paths running_state Path_A)) m"
    by (simp add: is_msg_def known_length_def default_env_def default_bulle_def)
  from extract_concat [OF _ this, of "[9, 9]"] obtain t
    where "m_extract_messages default_env Path_A [0x13, 0x04, 0x13, 0x04, 9, 9] 4 running_state
       = Inr ([[0x13, 0x04], [0x13, 0x04]], t)" by auto
  with extraction_partition [OF this] show ?thesis by (simp add: fits_def)
qed

text \<open>
  C35. A payload whose last message is cut short is not rejected: the separation reads outside the
  buffer, for a first message with a known code as well as behind messages that are whole.
\<close>
theorem truncated_payload_out_of_bounds:
  assumes "\<forall>m \<in> set ms. is_msg E (m_test_msg_receive (paths s p)) m"
    and "known_length E t = Some len" and "0 < n" and "n < len" and "n \<le> int (length (t # ts))"
    and "int (length (concat ms)) + int (length (t # ts)) < 2 ^ 31"
  shows "m_extract_messages E p (concat ms @ t # ts) (int (length (concat ms)) + n) s = Inl Out_of_bounds"
  using assms(1,6)
proof (induction ms arbitrary: s)
  case Nil
  have fl: "first_length E (m_test_msg_receive (paths s p)) (t # ts) n = Inr (len, False)"
    using assms(2) by (simp add: first_length_def)
  have len: "len \<noteq> 0" "len \<noteq> n" "0 \<le> len" "len < 2 ^ 63"
    using assms(2,3,4) by (auto simp: known_length_def split: if_splits)
  show ?case
  proof (cases "m_extract_messages E p (t # ts) n s")
    case (Inl e)
    with extract_error show ?thesis by fastforce
  next
    case (Inr r)
    obtain msgs u where r: "r = (msgs, u)" by (cases r)
    obtain msg where msg: "convertPayloadToVector (t # ts) len = Inr msg"
      using Inr fl len by (subst (asm) m_extract_messages.simps) (auto simp: Let_def split: sum.splits)
    have f: "fits (t # ts) len" "fits (t # ts) n"
      using Nil.prems(2) len(3) assms(3) by (simp_all add: fits_def)
    have l: "0 \<le> len" "len \<le> int (length (t # ts))" using convert_Inr [OF msg f(1) len(4)] by simp_all
    obtain rest u' where "m_extract_messages E p (drop (nat len) (t # ts)) (n - len) s = Inr (rest, u')"
      using Inr r unfolding extract_step [OF fl msg len(1,2)] by (auto simp: ebind_Inr_conv)
    from extract_Inr [OF this fits_drop [OF f(2) l]] assms(4) show ?thesis by simp
  qed
next
  case (Cons m ms)
  define data where "data = concat (m # ms) @ t # ts"
  define k where "k = int (length (concat (m # ms))) + n"
  have m: "is_msg E (m_test_msg_receive (paths s p)) m" using Cons.prems(1) by simp
  obtain b where fl: "first_length E (m_test_msg_receive (paths s p)) data k = Inr (int (length m), b)"
    using first_length_msg [OF m, of "concat ms @ t # ts" k] by (auto simp: data_def)
  have l: "int (length m) \<noteq> 0" "int (length m) \<noteq> k" "int (length m) < 2 ^ 63"
    using is_msg_length [OF m] assms(3) by (auto simp: k_def)
  have cv: "convertPayloadToVector data (int (length m)) = Inr m"
    using l by (subst convert_ok) (simp_all add: data_def)
  define s1 where "s1 = (if b then m_receivedBULLE E p s else s)"
  have "m_test_msg_receive (paths s1 p) = m_test_msg_receive (paths s p)"
    by (simp add: s1_def m_receivedBULLE_def)
  with Cons.prems have "m_extract_messages E p (concat ms @ t # ts) (int (length (concat ms)) + n) s1
      = Inl Out_of_bounds"
    by (intro Cons.IH) auto
  then show ?case
    using extract_step [OF fl cv l(1,2)]
    by (simp add: s1_def data_def k_def)
qed

theorem truncated_payload_out_of_bounds_witness:
  "m_extract_messages default_env Path_A (concat [[0x13, 0x04]] @ 0x0B # [1, 2, 9, 9])
     (int (length (concat [[0x13, 0x04 :: byte]])) + 3) running_state = Inl Out_of_bounds"
  by (rule truncated_payload_out_of_bounds [where len = 5])
    (simp_all add: is_msg_def known_length_def default_env_def default_bulle_def)

end
