(* ===== verification/HNZ_Data_Properties.thy ===== *)
theory HNZ_Data_Properties
  imports HNZ_Default
begin

text \<open>
  What the plugin computes from messages and for commands: readings of measures and signals,
  acknowledgement of commands, the time of an event, the messages that set the clock of the
  station, and the outcome of a command operation.
\<close>

section \<open>Measures and signals\<close>

text \<open>
  C19. Every message of a known code with its length, and every BULLE, is handled without error
  while a path is active and the station has TS; the invariant is kept.
\<close>
theorem well_formed_message_handled:
  assumes "codes_distinct E" and "is_msg E (hnz_test_msg_receive s) data" and "plugin_ok s"
    and "points_ok ''TS'' s" and "m_active_path s \<noteq> None"
  shows "\<exists>t. m_handle_message E data s = Inr t \<and> plugin_ok t"
  using handle_message_total [OF assms] by blast

theorem well_formed_message_handled_witness:
  "\<exists>t. m_handle_message default_env [0x16, 51, 0x40, 0, 0, 1] running_state = Inr t \<and> plugin_ok t"
  by (rule well_formed_message_handled) (simp, simp add: is_msg_def known_length_def default_env_def, simp_all)

text \<open>
  A TSCG message gives one reading for each configured one of its 16 points, in order: point
  \<open>i\<close> has the address \<open>10 * (ad0 + i div 8) + i mod 8\<close> and two bits of byte \<open>2 + i div 4\<close>, the
  high one for invalidity and the low one for the value.  The addresses are noted for the GI,
  which is in progress from then on.
\<close>
lemma tscg_readings:
  assumes "length data = 6"
  shows "m_handleTSCG data s =
    (let known = filter (tscg_known s data) [0..<16];
         t = s\<lparr>m_gi_addresses_received := m_gi_addresses_received s @ map (tscg_addr data) known\<rparr>
     in Inr (map (tscg_reading s data) known,
             if m_giStatus s = GI_STARTED then updateGiStatus GI_IN_PROGRESS t else t))"
  using tscg_points_eq [OF assms, of "[0..<16]" "[]" s]
  by (simp add: m_handleTSCG_def Let_def getGiStatus_def)

lemma tscg_readings_witness:
  "m_handleTSCG [0x16, 51, 0x40, 0, 0, 1] running_state =
    (let data = [0x16, 51, 0x40, 0, 0, 1]; known = filter (tscg_known running_state data) [0..<16];
         t = running_state\<lparr>m_gi_addresses_received :=
               m_gi_addresses_received running_state @ map (tscg_addr data) known\<rparr>
     in Inr (map (tscg_reading running_state data) known,
             if m_giStatus running_state = GI_STARTED then updateGiStatus GI_IN_PROGRESS t else t))"
  using tscg_readings [of "[0x16, 51, 0x40, 0, 0, 1]" running_state] by (simp add: Let_def)

text \<open>The reading of measure \<open>i\<close> of a TM4: one's complement, 0xFF for an invalid value.\<close>

definition tm4_reading :: "sys \<Rightarrow> byte list \<Rightarrow> nat \<Rightarrow> Reading" where
  "tm4_reading s data i =
     (let a = uint (data ! 1) + int i; v = uint (data ! (2 + i))
      in m_prepare_reading (new_ReadingParameters\<lparr>
           rp_label := getLabel (m_hnz_conf s) ''TM'' a, rp_msg_code := ''TM'',
           rp_station_addr := hnz_remote_address s, rp_msg_address := a,
           rp_value := (if v \<ge> 128 then v - 255 else v), rp_valid := of_bool (v = 255),
           rp_an := ''TMA''\<rparr>))"

definition tm_known :: "sys \<Rightarrow> int \<Rightarrow> bool" where
  "tm_known s a \<longleftrightarrow> getLabel (m_hnz_conf s) ''TM'' a \<noteq> []"

lemma efold_readings:
  assumes "\<And>i readings. i \<in> set is \<Longrightarrow> f i readings = Inr (if known i then readings @ [g i] else readings)"
  shows "efold f is readings = Inr (readings @ map g (filter known is))"
  using assms by (induction "is" arbitrary: readings) auto

lemma byte_255: "(b = 0xFF) = (uint (b :: byte) = 255)"
  by (simp add: byte_eq_iff)

text \<open>
  A TM4 message gives one reading for each configured one of its four measures, in order,
  with the values of the one's complement code from -127 to 127 and 0xFF marked invalid.
\<close>
lemma tm4_readings:
  assumes "length data = 6"
  shows "m_handleTM4 s data =
    Inr (map (tm4_reading s data) (filter (\<lambda>i. tm_known s (uint (data ! 1) + int i)) [0..<4]))"
proof -
  have r1: "rd data 1 = Inr (data ! 1)" using assms by (simp add: rd_def)
  have "efold (\<lambda>i readings. ebind (rd data 1) (\<lambda>adr.
       point_reading s ''TM'' (u32 (uint adr + int i)) (\<lambda>params.
         ebind (rd data (2 + i)) (\<lambda>b.
         Inr (params\<lparr>rp_value := tma_value b, rp_valid := of_bool (b = 0xFF), rp_an := ''TMA''\<rparr>)))
         readings)) [0..<4] []
    = Inr ([] @ map (tm4_reading s data) (filter (\<lambda>i. tm_known s (uint (data ! 1) + int i)) [0..<4]))"
  proof (rule efold_readings)
    fix i :: nat and readings :: "Reading list" assume i: "i \<in> set [0..<4]"
    then have rd: "rd data (2 + i) = Inr (data ! (2 + i))" using assms by (simp add: rd_def)
    have u: "u32 (uint (data ! 1) + int i) = uint (data ! 1) + int i"
      using i byte_range [of "data ! 1"] by simp
    show "ebind (rd data 1) (\<lambda>adr. point_reading s ''TM'' (u32 (uint adr + int i)) (\<lambda>params.
         ebind (rd data (2 + i)) (\<lambda>b.
         Inr (params\<lparr>rp_value := tma_value b, rp_valid := of_bool (b = 0xFF), rp_an := ''TMA''\<rparr>)))
         readings)
       = Inr (if tm_known s (uint (data ! 1) + int i) then readings @ [tm4_reading s data i] else readings)"
      unfolding r1 rd ebind.simps u point_reading_def Let_def tm_known_def tm4_reading_def tma_value_eq byte_255
      by simp
  qed
  then show ?thesis by (simp add: m_handleTM4_def)
qed

lemma tm4_readings_witness:
  "m_handleTM4 running_state [0x02, 254, 1, 0x80, 0xFF, 7] =
    Inr (map (tm4_reading running_state [0x02, 254, 1, 0x80, 0xFF, 7])
      (filter (\<lambda>i. tm_known running_state (uint ([0x02, 254, 1, 0x80, 0xFF, 7 :: byte] ! 1) + int i)) [0..<4]))"
  by (rule tm4_readings) simp

text \<open>
  A 16-bit measure is the signed number its two bytes, low one first, make in two's
  complement.
\<close>
lemma tm16_signed:
  "tm16_value low high = sint (word_of_int (256 * uint high + uint low) :: 16 word)"
proof -
  define v where "v = 256 * uint high + uint low"
  have v: "0 \<le> v" "v < 65536" using byte_range [of high] byte_range [of low] by (auto simp: v_def)
  have "sint (word_of_int v :: 16 word) = signed_take_bit 15 v" by (simp add: sint_sbintrunc')
  also have "\<dots> = (v + 32768) mod 65536 - 32768"
    unfolding signed_take_bit_eq_take_bit_shift take_bit_eq_mod by simp
  also have "\<dots> = (if v \<ge> 32768 then v - 65536 else v)"
  proof (cases "v \<ge> 32768")
    case True
    have "(v + 32768) mod 65536 = (v - 32768 + 65536) mod 65536" by (simp add: add.commute)
    also have "\<dots> = (v - 32768) mod 65536" by (rule mod_add_self2)
    also have "\<dots> = v - 32768" using True v by (intro mod_pos_pos_trivial) auto
    finally show ?thesis using True by simp
  next
    case False
    with v have "(v + 32768) mod 65536 = v + 32768" by (intro mod_pos_pos_trivial) auto
    with False show ?thesis by (simp only: if_False)
  qed
  finally show ?thesis by (simp add: tm16_value_eq v_def Let_def)
qed

section \<open>Commands\<close>

lemma command_sent_acknowledge:
  "command_sent (paths (acknowledge typ a s) p) =
     (if m_paths s p
      then filter (\<lambda>c. \<not> (cmd_type c = typ \<and> cmd_addr c = s32 a)) (command_sent (paths s p))
      else command_sent (paths s p))"
proof -
  define f where "f q u = (if m_paths u q then receivedCommandACK q typ (s32 a) u else u)" for q u
  have f: "m_paths (f q u) = m_paths u"
    "command_sent (paths (f q u) r) = (if r = q \<and> m_paths u q
       then filter (\<lambda>c. \<not> (cmd_type c = typ \<and> cmd_addr c = s32 a)) (command_sent (paths u r))
       else command_sent (paths u r))" for q u r
    by (auto simp: f_def receivedCommandACK_def upd_path_def)
  have "acknowledge typ a s = f Path_B (f Path_A s)"
    by (simp add: acknowledge_def path_order_def f_def)
  then show ?thesis by (cases p) (simp_all add: f)
qed

text \<open>
  An acknowledgement removes, on every path that exists, exactly the pending commands of its
  type and address.
\<close>
lemma acknowledge_removes_matching:
  "command_sent (paths (acknowledge typ a s) p) =
     (if m_paths s p
      then filter (\<lambda>c. \<not> (cmd_type c = typ \<and> cmd_addr c = s32 a)) (command_sent (paths s p))
      else command_sent (paths s p))"
  by (rule command_sent_acknowledge)

text \<open>
  What Fledge is told of the acknowledgement of a telecommand: nothing when the point has no label,
  otherwise the value and whether the result \<open>CR\<close>, the three low bits, says that it is executed.
\<close>

definition tc_ack_readings :: "sys \<Rightarrow> int \<Rightarrow> byte \<Rightarrow> Reading list" where
  "tc_ack_readings s a b =
     (let label = getLabel (m_hnz_conf s) ''TC'' a
      in if label = [] then []
         else [Reading label ''data_object'' (DP_dict
           [(''do_type'', DP_str ''TC''), (''do_station'', DP_int (hnz_remote_address s)),
            (''do_addr'', DP_int a), (''do_value'', DP_int (uint b div 8 mod 4)),
            (''do_valid'', DP_int (if uint b mod 8 = 1 then 0 else 1))])])"

lemma acknowledge_keeps:
  "outs (acknowledge typ a s) = outs s" "m_hnz_conf (acknowledge typ a s) = m_hnz_conf s"
  "hnz_remote_address (acknowledge typ a s) = hnz_remote_address s"
  by (simp_all add: acknowledge_def path_order_def receivedCommandACK_def upd_path_def)

lemma handleATC_effect:
  assumes "0 \<le> a" and "a div 10 \<le> 255" and "uint b div 32 = a mod 10"
  shows "m_handleATC [c, u8 (a div 10), b] s = Inr (tc_ack_readings s a b, acknowledge ''TC'' a s)"
proof -
  have "uint (u8 (a div 10)) = a div 10" using assms by (simp add: uint_u8 pos_imp_zdiv_nonneg_iff)
  then have "ts_address (u8 (a div 10)) b = Inr a" using assms(3) by (simp add: ts_address_eq)
  moreover have "drop_bit 3 (uint b) AND 0x3 = uint b div 8 mod 4" "uint b AND 0x7 = uint b mod 8"
    by (simp_all add: drop_bit_eq_div and_mask_int)
  ultimately show ?thesis
    by (simp add: m_handleATC_def point_reading_def acknowledge_keeps tc_ack_readings_def Let_def
        m_prepare_reading_def new_ReadingParameters_def)
qed

text \<open>A telecommand that is sent is in the frame and registered as pending, in front of the others.\<close>

lemma tc_sent:
  assumes "0 \<le> a" and "a div 10 \<le> 255" and "sendTCCommand E p a v s = Inr (True, u)"
  shows "\<exists>ctl deadline.
    outs u = outs s @ [SendFrame p (m_address_ARP (paths s p))
      [ctl, TC_CODE E, u8 (a div 10), u8 (32 * (a mod 10) + 8 * (uint v mod 4))]] \<and>
    (\<forall>q. command_sent (paths u q) =
       (if q = p then \<lparr>cmd_type = ''TC'', cmd_addr = a, timestamp_max = deadline\<rparr> # command_sent (paths s p)
        else command_sent (paths s q)))"
proof -
  define msg where "msg = [TC_CODE E, u8 (a div 10), u8 (32 * (a mod 10) + 8 * (uint v mod 4))]"
  have "a < 2 ^ 31" using assms(2) by simp
  then have m: "tc_message E a v = Inr msg"
    using tc_message_eq [OF assms(1), of E v, unfolded tc_byte_sum] by (simp add: msg_def)
  obtain sent t where si: "m_sendInfo E p msg s = (sent, t)" by fastforce
  with assms(3) m have u: "sent" "u = m_registerCommandIfSent E p ''TC'' True a t"
    by (auto simp: sendTCCommand_def)
  have "path_only p s t" using link_step_sendInfo [of p s E msg] si by (simp add: link_step_def)
  then have "paths t = (paths s)(p := paths t p)"
    unfolding path_only_def by (rule arg_cong [where f = paths, THEN trans]) simp
  then have other: "paths t q = paths s q" if "q \<noteq> p" for q
    using that by (metis fun_upd_other)
  from si u(1) have "m_sendInfoImmediately E p \<lparr>ns = 0, payload = msg\<rparr> s = (True, t)"
    by (simp add: m_sendInfo_def Let_def split: if_splits)
  then show ?thesis
  proof (cases rule: sendInfoImmediately_cases)
    case (sent time time')
    then show ?thesis
      by (auto simp: u(2) m_registerCommandIfSent_def other msg_def)
  qed simp
qed

lemma tc_sends:
  assumes "0 \<le> a" and "a div 10 \<le> 255" and "window_open (paths s p)" and "m_protocol_state (paths s p) = CONNECTED"
  shows "\<exists>u. sendTCCommand E p a v s = Inr (True, u) \<and> m_paths u = m_paths s \<and> m_hnz_conf u = m_hnz_conf s \<and>
    hnz_remote_address u = hnz_remote_address s"
proof -
  have "a < 2 ^ 31" using assms(2) by simp
  then obtain msg where m: "tc_message E a v = Inr msg" using tc_message_eq [OF assms(1)] by blast
  obtain sent t where si: "m_sendInfo E p msg s = (sent, t)" by fastforce
  then have "m_sendInfoImmediately E p \<lparr>ns = 0, payload = msg\<rparr> s = (sent, t)"
    using assms(3,4) by (simp add: m_sendInfo_def Let_def discarded_def)
  then have "sent" using assms(4) by (cases rule: sendInfoImmediately_cases) (simp_all add: discarded_def)
  with m si show ?thesis
    using sendInfo_connection(2,3,6) [of E p msg s]
    by (simp add: sendTCCommand_def m_registerCommandIfSent_def upd_path_def asked_def)
qed

text \<open>
  C23. Sending and acknowledging a telecommand whose address ends with a digit up to 7: the frame
  carries the address in decimal, the last digit above the value, and the command is pending on its
  path, in front of the others.  Whatever the acknowledgement of this address carries in its value
  and result bits, and in whatever state it arrives, it removes from every path that exists exactly
  the pending telecommands of this address, keeps all others in order, and is reported to Fledge
  with the value and result it carries.
\<close>
theorem tc_acknowledged:
  assumes "0 \<le> a" and "a div 10 \<le> 255" and "a mod 10 \<le> 7"
    and "sendTCCommand E p a v s = Inr (True, u)"
  shows "(\<exists>ctl deadline.
      outs u = outs s @ [SendFrame p (m_address_ARP (paths s p))
        [ctl, TC_CODE E, u8 (a div 10), u8 (32 * (a mod 10) + 8 * (uint v mod 4))]] \<and>
      (\<forall>q. command_sent (paths u q) =
         (if q = p then \<lparr>cmd_type = ''TC'', cmd_addr = a, timestamp_max = deadline\<rparr> # command_sent (paths s p)
          else command_sent (paths s q)))) \<and>
    uint (u8 (32 * (a mod 10) + 8 * (uint v mod 4))) div 32 = a mod 10 \<and>
    (\<forall>w b. uint b div 32 = a mod 10 \<longrightarrow>
      (\<exists>t. m_handleATC [TCACK_CODE E, u8 (a div 10), b] w = Inr (tc_ack_readings w a b, t) \<and> outs t = outs w \<and>
        (\<forall>q. command_sent (paths t q) =
           (if m_paths w q then filter (\<lambda>c. \<not> (cmd_type c = ''TC'' \<and> cmd_addr c = a)) (command_sent (paths w q))
            else command_sent (paths w q)))))"
proof -
  have "a mod 10 mod 8 = a mod 10" using assms(3) by (intro mod_pos_pos_trivial) auto
  then have "uint (u8 (32 * (a mod 10) + 8 * (uint v mod 4))) div 32 = a mod 10"
    using tc_last_byte [of "a mod 10" v, unfolded tc_byte_sum] by simp
  moreover have "s32 a = a" using assms(1,2) by simp
  ultimately show ?thesis
    using tc_sent [OF assms(1,2,4)] handleATC_effect [OF assms(1,2)]
    by (simp add: acknowledge_keeps command_sent_acknowledge)
qed

text \<open>
  The command of the tests: point 142, value 1, sent as 0x0e 0x48 while two other commands are
  pending, and its positive acknowledgement 0x0e 0x49.
\<close>

definition commanding_state :: sys where
  "commanding_state = running_state\<lparr>
     m_hnz_conf := default_conf\<lparr>get_all_messages := [''TC'' \<mapsto> [12 \<mapsto> [(142, ''TC1'')]]]\<rparr>,
     paths := (\<lambda>_. (connected_path ''A'' ACTIVE)\<lparr>command_sent :=
       [\<lparr>cmd_type = ''TC'', cmd_addr = 143, timestamp_max = 7\<rparr>,
        \<lparr>cmd_type = ''TVC'', cmd_addr = 142, timestamp_max = 8\<rparr>]\<rparr>)\<rparr>"

theorem tc_acknowledged_witness:
  "\<exists>u t. sendTCCommand default_env Path_A 142 1 commanding_state = Inr (True, u) \<and>
     map cmd_addr (command_sent (paths u Path_A)) = [142, 143, 142] \<and>
     m_handleATC [TCACK_CODE default_env, 0x0e, 0x49] u = Inr ([Reading ''TC1'' ''data_object'' (DP_dict
       [(''do_type'', DP_str ''TC''), (''do_station'', DP_int 12), (''do_addr'', DP_int 142),
        (''do_value'', DP_int 1), (''do_valid'', DP_int 0)])], t) \<and>
     command_sent (paths t Path_A) = command_sent (paths commanding_state Path_A)"
proof -
  have s: "window_open (paths commanding_state q)" "m_protocol_state (paths commanding_state q) = CONNECTED"
    "m_paths commanding_state q" "hnz_remote_address commanding_state = 12"
    "command_sent (paths commanding_state q) =
       [\<lparr>cmd_type = ''TC'', cmd_addr = 143, timestamp_max = 7\<rparr>, \<lparr>cmd_type = ''TVC'', cmd_addr = 142, timestamp_max = 8\<rparr>]"
    "getLabel (m_hnz_conf commanding_state) ''TC'' 142 = ''TC1''" for q
    by (simp_all add: commanding_state_def window_open_def getLabel_def msg_leaf_def u32_def) (simp add: default_conf_def)
  obtain u where u: "sendTCCommand default_env Path_A 142 1 commanding_state = Inr (True, u)"
    "m_paths u = m_paths commanding_state" "m_hnz_conf u = m_hnz_conf commanding_state"
    "hnz_remote_address u = hnz_remote_address commanding_state"
    using tc_sends [of 142 commanding_state Path_A default_env 1] s(1,2) by auto
  have rd: "tc_ack_readings u 142 0x49 = [Reading ''TC1'' ''data_object'' (DP_dict
       [(''do_type'', DP_str ''TC''), (''do_station'', DP_int 12), (''do_addr'', DP_int 142),
        (''do_value'', DP_int 1), (''do_valid'', DP_int 0)])]"
    using u(3,4) s(4,6) by (simp add: tc_ack_readings_def)
  have e: "u8 (142 div 10) = 0x0e" "uint (0x49 :: byte) div 32 = 142 mod 10" by (simp_all add: u8_def)
  have a: "(0 :: int) \<le> 142" "(142 :: int) div 10 \<le> 255" "(142 :: int) mod 10 \<le> 7" by simp_all
  note both = tc_acknowledged [OF a u(1)]
  obtain deadline where pending: "command_sent (paths u Path_A)
      = \<lparr>cmd_type = ''TC'', cmd_addr = 142, timestamp_max = deadline\<rparr> # command_sent (paths commanding_state Path_A)"
    using conjunct1 [OF both] by auto
  obtain t where t: "m_handleATC [TCACK_CODE default_env, 0x0e, 0x49] u = Inr (tc_ack_readings u 142 0x49, t)"
    "command_sent (paths t Path_A)
       = filter (\<lambda>c. \<not> (cmd_type c = ''TC'' \<and> cmd_addr c = 142)) (command_sent (paths u Path_A))"
    using conjunct2 [OF conjunct2 [OF both], rule_format, OF e(2), of u] u(2) s(3) unfolding e(1) by auto
  have "command_sent (paths t Path_A) = command_sent (paths commanding_state Path_A)"
    unfolding t(2) pending s(5) by simp
  moreover have "map cmd_addr (command_sent (paths u Path_A)) = [142, 143, 142]"
    unfolding pending s(5) by simp
  ultimately show ?thesis using u(1) t(1) unfolding rd by - (intro exI [of _ u] exI [of _ t] conjI, assumption+)
qed

text \<open>
  An address that ends with 8 or 9 does not fit: the message addresses another point, eight
  below, and the acknowledgement of that message leaves the pending command where it is.
\<close>
lemma tc_last_digit_lost:
  assumes "0 \<le> a" and "a div 10 \<le> 255" and "8 \<le> a mod 10"
  shows "tc_message E a v = tc_message E (a - 8) v \<and>
    (\<exists>b1 b2. tc_message E a v = Inr [TC_CODE E, b1, b2] \<and>
      (\<forall>rs t p. m_handleATC [TCACK_CODE E, b1, b2] s = Inr (rs, t) \<longrightarrow>
         filter (\<lambda>c. cmd_addr c = a) (command_sent (paths t p))
           = filter (\<lambda>c. cmd_addr c = a) (command_sent (paths s p))))"
proof -
  have a: "(a - 8) div 10 = a div 10" "(a - 8) mod 10 = a mod 10 - 8" using assms(3) by presburger+
  have d: "a mod 10 mod 8 = a mod 10 - 8"
    using assms(3) by (cases "a mod 10 = 8") (auto, presburger)
  have "u8 (32 * (a mod 10) + 8 * (uint v mod 4)) = u8 (32 * (a mod 10 - 8) + 8 * (uint v mod 4))"
  proof -
    have "32 * (a mod 10) + 8 * (uint v mod 4) = 32 * (a mod 10 - 8) + 8 * (uint v mod 4) + 256" by simp
    then show ?thesis by (simp only: byte_eq_iff uint_u8 mod_add_self2)
  qed
  moreover have "a < 2560" "0 \<le> a - 8" using assms by presburger+
  then have r: "0 \<le> a - 8" "a < 2 ^ 31" "a - 8 < 2 ^ 31" by simp_all
  ultimately have "tc_message E a v = tc_message E (a - 8) v"
    using tc_message_eq [OF assms(1) r(2), of E v] tc_message_eq [OF r(1,3), of E v]
    unfolding a tc_byte_sum by simp
  moreover obtain b1 b2 where b: "tc_message E a v = Inr [TC_CODE E, b1, b2]"
    "ts_address b1 b2 = Inr (a - 8)"
    using tc_ack_address [OF assms(1,2), of E v] d by auto
  moreover have "t = acknowledge ''TC'' (a - 8) s" if "m_handleATC [TCACK_CODE E, b1, b2] s = Inr (rs, t)" for rs t
    using that b(2) by (auto simp: m_handleATC_def rd_def ebind_Inr_conv Let_def)
  moreover have "s32 (a - 8) = a - 8" using r by simp
  then have "filter (\<lambda>c. cmd_addr c = a) (command_sent (paths (acknowledge ''TC'' (a - 8) s) p))
           = filter (\<lambda>c. cmd_addr c = a) (command_sent (paths s p))" for p
    by (auto simp: command_sent_acknowledge intro!: filter_cong)
  ultimately show ?thesis by blast
qed

lemma tc_last_digit_lost_witness:
  "tc_message default_env 518 1 = tc_message default_env (518 - 8) 1"
  using tc_last_digit_lost [of 518 default_env 1 running_state] by simp

section \<open>Time\<close>

text \<open>
  C28. With the clocks in UTC, the time of an event the station reports by its section of the day
  and its 10 ms steps is found exactly, as long as it is at most ten minutes away from the
  plugin's clock, also when midnight lies between the two.
\<close>
theorem tsce_time_utc:
  assumes "get_use_utc (m_hnz_conf s)" and "m_daySection s = day_section e"
    and "172800000 \<le> now" and "now < 2 ^ 62" and "\<bar>now - e\<bar> \<le> 600000" and "e mod 10 = 0"
  shows "tsce_timestamp E s now (section_ts e) = e"
proof -
  have "getEpochMsTimestamp now (day_section e) (section_ts e) = e"
    by (rule epoch_within_ten_minutes) (use assms in simp_all)
  moreover have "0 \<le> e" "e < 2 ^ 63" using assms(3-5) by simp_all
  ultimately show ?thesis
    using assms(1,2) by (simp add: tsce_timestamp_def real_utc_offset_s_def)
qed

theorem tsce_time_utc_witness:
  "tsce_timestamp default_env (running_state\<lparr>m_hnz_conf := default_conf\<lparr>get_use_utc := True\<rparr>,
      m_daySection := 143\<rparr>) 1700006500000 (section_ts 1700006390000) = 1700006390000"
  by (rule tsce_time_utc) (simp_all add: day_section_def u8_def)

lemma mult_1000_div_mod: "1000 * (n div 1000 mod 86400) = n mod 86400000 - n mod (1000 :: int)"
  using zmod_zmult2_eq [of 86400 n 1000] by simp

lemma scale_diff:
  fixes a b c d m :: int
  assumes "1000 * a = c - m" and "1000 * b = d - m"
  shows "(a - b) * 1000 = c - d"
  using assms by simp

lemma shift_sum: "(q + k) * D + e - (n - m) = q * D + m + k * D + (e - n)" for q k D e n m :: int
  by (simp add: algebra_simps)

lemma tsce_local:
  assumes "\<not> get_use_utc (m_hnz_conf s)" and "tz_offset E (now div 1000) = z"
    and "m_daySection s = day_section (e + 1000 * z)" and "e mod 10 = 0"
    and "(e + 1000 * z) div 86400000 = (now + 1000 * z) div 86400000"
    and "172800000 \<le> now" and "now < 2 ^ 62"
  shows "tsce_timestamp E s now (section_ts (e + 1000 * z)) = e + day_shift now (m_daySection s) * 86400000"
proof -
  define e' where "e' = e + 1000 * z"
  define n' where "n' = now + 1000 * z"
  define k where "k = day_shift now (m_daySection s)"
  have k: "k \<in> {-1..1}" by (auto simp: k_def day_shift_def)
  have "n' div 1000 = now div 1000 + z" "n' mod 1000 = now mod 1000" by (simp_all add: n'_def)
  with mult_1000_div_mod [of n']
  have m: "1000 * ((now div 1000 + z) mod 86400) = n' mod 86400000 - now mod 1000" by (simp only:)
  have "real_utc_offset_s E s (now div 1000) = (now div 1000 + z) mod 86400 - now div 1000 mod 86400"
    using assms(1,2) by (simp add: real_utc_offset_s_def localtime_def tm_sod_gmtime)
  then have off: "real_utc_offset_s E s (now div 1000) * 1000 = n' mod 86400000 - now mod 86400000"
    by (simp only: scale_diff [OF m mult_1000_div_mod])
  have "e' = e + (100 * z) * 10" by (simp add: e'_def)
  then have e10: "e' mod 10 = 0" using assms(4) by (simp only: mod_mult_self1)
  have "getEpochMsTimestamp now (m_daySection s) (section_ts e')
      = (now div 86400000 + k) * 86400000 + e' mod 86400000"
    using epoch_of_section [OF _ assms(7) e10] assms(3,6) by (simp add: k_def e'_def)
  then have "getEpochMsTimestamp now (m_daySection s) (section_ts e')
      - real_utc_offset_s E s (now div 1000) * 1000
    = now div 86400000 * 86400000 + now mod 86400000 + k * 86400000 + (e' mod 86400000 - n' mod 86400000)"
    by (simp only: off shift_sum)
  also have "now div 86400000 * 86400000 + now mod 86400000 = now" by (rule div_mult_mod_eq)
  also have d: "e' mod 86400000 - n' mod 86400000 = e - now"
  proof -
    have "e' mod 86400000 - n' mod 86400000
        = (e' - e' div 86400000 * 86400000) - (n' - n' div 86400000 * 86400000)"
      by (simp only: minus_div_mult_eq_mod)
    also have "e' div 86400000 = n' div 86400000" using assms(5) by (simp only: e'_def n'_def)
    finally show ?thesis by (simp add: e'_def n'_def)
  qed
  finally have r: "getEpochMsTimestamp now (m_daySection s) (section_ts e')
      - real_utc_offset_s E s (now div 1000) * 1000 = e + k * 86400000" by simp
  have "\<bar>e - now\<bar> < 86400000"
    unfolding d [symmetric] using pos_mod_bound [of 86400000 e'] pos_mod_bound [of 86400000 n']
      pos_mod_sign [of 86400000 e'] pos_mod_sign [of 86400000 n'] by linarith
  then have "0 \<le> e + k * 86400000" "e + k * 86400000 < 2 ^ 63" using k assms(6,7) by (simp_all add: abs_less_iff)
  then show ?thesis
    unfolding tsce_timestamp_def r [unfolded e'_def] k_def [symmetric] by simp
qed

text \<open>
  C29. With the clocks in local time, the time of an event of the same local day is found exactly
  unless the section is the first of the day while the UTC hour is 23, or the last while it
  is 0.
\<close>
theorem tsce_time_local:
  assumes "\<not> get_use_utc (m_hnz_conf s)" and "tz_offset E (now div 1000) = z"
    and "m_daySection s = day_section (e + 1000 * z)" and "e mod 10 = 0"
    and "(e + 1000 * z) div 86400000 = (now + 1000 * z) div 86400000"
    and "172800000 \<le> now" and "now < 2 ^ 62"
    and "\<not> (m_daySection s = 0 \<and> now mod 86400000 div 3600000 = 23)"
    and "\<not> (m_daySection s = 143 \<and> now mod 86400000 div 3600000 = 0)"
  shows "tsce_timestamp E s now (section_ts (e + 1000 * z)) = e"
  using tsce_local [OF assms(1-7)] assms(8,9) by (auto simp: day_shift_def)

theorem tsce_time_local_witness:
  "tsce_timestamp default_env (running_state\<lparr>m_daySection := 1\<rparr>) 1700089980000
     (section_ts (1700089910000 + 1000 * 3600)) = 1700089910000"
  by (rule tsce_time_local) (simp_all add: default_conf_def default_env_def day_section_def u8_def)

text \<open>
  The exception is real: in a zone ahead of UTC by an hour, an event in the first ten minutes
  of a local day is dated one day late, because the hour that decides on the correction at
  midnight is the one of UTC while the section is the one of the local day.
\<close>
lemma tsce_midnight_one_day_late:
  assumes "\<not> get_use_utc (m_hnz_conf s)" and "tz_offset E (now div 1000) = z"
    and "m_daySection s = day_section (e + 1000 * z)" and "e mod 10 = 0"
    and "(e + 1000 * z) div 86400000 = (now + 1000 * z) div 86400000"
    and "172800000 \<le> now" and "now < 2 ^ 62"
    and "m_daySection s = 0" and "now mod 86400000 div 3600000 = 23"
  shows "tsce_timestamp E s now (section_ts (e + 1000 * z)) = e + 86400000"
  using tsce_local [OF assms(1-7)] assms(8,9) by (simp add: day_shift_def)

lemma tsce_midnight_one_day_late_witness:
  "tsce_timestamp default_env (running_state\<lparr>m_daySection := 0\<rparr>) 1700089380000
     (section_ts (1700089310000 + 1000 * 3600)) = 1700089310000 + 86400000"
  by (rule tsce_midnight_one_day_late) (simp_all add: default_conf_def default_env_def day_section_def u8_def)

text \<open>
  C27. The message that sets the clock of the station says, in the form of a TSCE time, exactly the
  reference time of the plugin, and the plugin takes over the section of the day it has sent
  (for a zone whose offset is a number of ten minutes).
\<close>
theorem time_setting_roundtrip:
  assumes "0 \<le> now_ms E s" and "z mod 600 = 0"
    and "z = (if m_use_utc (paths s p) then 0 else tz_offset E (now_ms E s div 1000))"
  shows "\<exists>hi lo. m_send_time_setting E p s =
      setDaySection (day_section (now_ms E s + 1000 * z))
        (snd (m_sendInfo E p [SETTIME_CODE E, day_section (now_ms E s + 1000 * z), hi, lo, 0] (asked s))) \<and>
    256 * uint hi + uint lo = section_ts (now_ms E s + 1000 * z)"
proof -
  define t where "t = now_ms E s"
  define L where "L = t + 1000 * z"
  define n where "n = L div 1000 mod 86400"
  have ref: "reference_tm E (paths s p) (t div 1000) = gmtime (L div 1000)"
    using assms(3) by (simp add: reference_tm_def localtime_def L_def t_def add.commute)
  have n: "0 \<le> n" "n < 86400" by (simp_all add: n_def)
  have "n mod 3600 div 60 div 10 = n mod 3600 div 600" by (simp add: zdiv_zmult2_eq [symmetric])
  moreover have "n div 3600 * 6 + n mod 3600 div 600 = n div 600"
  proof -
    have "n = n mod 3600 + n div 3600 * 6 * 600" by simp
    then have "n div 600 = (n mod 3600 + n div 3600 * 6 * 600) div 600" by simp
    also have "\<dots> = n div 3600 * 6 + n mod 3600 div 600" by (subst div_mult_self1) auto
    finally show ?thesis by simp
  qed
  ultimately have m: "mod10m_of (gmtime (L div 1000)) = n div 600"
    unfolding mod10m_of_def gmtime_hour gmtime_min n_def [symmetric] by (simp only:)
  have "L mod 86400000 = 1000 * n + L mod 1000" using mult_1000_div_mod [of L] by (simp add: n_def)
  then have "L mod 86400000 div 600000 = (L mod 1000 + n * 1000) div 1000 div 600"
    by (simp add: zdiv_zmult2_eq [symmetric] add.commute)
  also have "\<dots> = n div 600" by (subst div_mult_self1) auto
  finally have d: "u8 (n div 600) = day_section L" by (simp add: day_section_def)
  have "z = 600 * (z div 600)" using assms(2) by (simp add: minus_mod_eq_mult_div [symmetric])
  then have "L = t + (z div 600) * 600000" by (simp add: L_def)
  then have "L mod 600000 = t mod 600000" by (simp only: mod_mult_self1)
  then have f: "t mod 600000 div 10 = section_ts L" by (simp add: section_ts_def)
  have ts: "0 \<le> section_ts L" "section_ts L < 65536"
  proof -
    have "0 \<le> L mod 600000" "L mod 600000 < 600000" by simp_all
    then show "0 \<le> section_ts L" "section_ts L < 65536" by (simp_all add: section_ts_def)
  qed
  have r: "n div 600 AND 0xFF = n div 600"
    using n by (simp add: and_mask_int)
  have hl: "uint (u8 (drop_bit 8 (section_ts L))) = section_ts L div 256"
    "uint (u8 (section_ts L AND 0xFF)) = section_ts L mod 256"
    using ts by (simp_all add: uint_u8 shr_int and_mask_int)
  have "m_send_time_setting E p s = setDaySection (day_section L)
      (snd (m_sendInfo E p [SETTIME_CODE E, day_section L, u8 (drop_bit 8 (section_ts L)),
          u8 (section_ts L AND 0xFF), 0] (asked s)))"
    using ref by (simp add: m_send_time_setting_def Let_def t_def [symmetric] ref m f time_message_def r d)
  moreover have "256 * uint (u8 (drop_bit 8 (section_ts L))) + uint (u8 (section_ts L AND 0xFF)) = section_ts L"
    unfolding hl by simp
  ultimately show ?thesis unfolding L_def t_def by blast
qed

theorem time_setting_roundtrip_witness:
  "\<exists>hi lo. m_send_time_setting default_env Path_A running_state =
      setDaySection (day_section (now_ms default_env running_state + 1000 * 3600))
        (snd (m_sendInfo default_env Path_A [SETTIME_CODE default_env,
          day_section (now_ms default_env running_state + 1000 * 3600), hi, lo, 0] (asked running_state))) \<and>
    256 * uint hi + uint lo = section_ts (now_ms default_env running_state + 1000 * 3600)"
  by (rule time_setting_roundtrip) (simp_all add: now_ms_def default_env_def)

end
