(* ===== verification/HNZ_Queue_Spec.thy ===== *)
theory HNZ_Queue_Spec
  imports HNZ_Link_Properties
begin

text \<open>
  An abstract specification of the outgoing messages of a connected path, and the proof that the
  operations of the path implement it: a window of messages in flight, a queue of pending ones,
  the two ends of the window on the circle of the numbers, and the number of repetitions.  No
  bytes of frames, times or TCP states are left in it.
\<close>

section \<open>The specification\<close>

record sender =
  base :: int
  next_nr :: int
  tries :: int
  flight :: "byte list list"
  pend :: "byte list list"

datatype link_op = Send "byte list" | Ack int bool | Repeat

text \<open>Pending messages enter the window, in order, as long as it has room.\<close>

definition refill :: "nat \<Rightarrow> sender \<Rightarrow> sender" where
  "refill cap q =
     (let n = min (cap - length (flight q)) (length (pend q))
      in q\<lparr>next_nr := (next_nr q + int n) mod 8, flight := flight q @ take n (pend q),
           pend := drop n (pend q)\<rparr>)"

definition covered :: "int \<Rightarrow> sender \<Rightarrow> nat" where
  "covered nr q = nat ((nr - base q) mod 8)"

text \<open>
  A number acknowledges when it is new and lies in the window; as the answer to a repetition it
  must follow one.
\<close>

definition acknowledges :: "int \<Rightarrow> bool \<Rightarrow> sender \<Rightarrow> bool" where
  "acknowledges nr repetition q \<longleftrightarrow>
     nr \<noteq> base q \<and> (nr - base q) mod 8 \<le> (next_nr q - base q) mod 8 \<and> (repetition \<longrightarrow> tries q > 0)"

fun spec_op :: "nat \<Rightarrow> int \<Rightarrow> link_op \<Rightarrow> sender \<Rightarrow> sender" where
  "spec_op cap limit (Send m) q =
     (if length (flight q) < cap
      then q\<lparr>next_nr := (next_nr q + 1) mod 8, flight := flight q @ [m]\<rparr>
      else q\<lparr>pend := pend q @ [m]\<rparr>)"
| "spec_op cap limit (Ack nr repetition) q =
     (if acknowledges nr repetition q
      then refill cap (q\<lparr>base := nr, tries := 0, flight := drop (covered nr q) (flight q)\<rparr>)
      else q)"
| "spec_op cap limit Repeat q =
     (if flight q = [] \<or> tries q \<ge> limit then q
      else q\<lparr>tries := tries q + 1, flight := take 1 (flight q), pend := tl (flight q) @ pend q\<rparr>)"

section \<open>The implementation\<close>

definition sender_of :: "HNZPath \<Rightarrow> sender" where
  "sender_of pa = \<lparr>base = m_NRR pa, next_nr = m_ns pa, tries = m_repeat pa,
     flight = map payload (msg_sent pa), pend = map payload (msg_waiting pa)\<rparr>"

definition capacity :: "HNZPath \<Rightarrow> nat" where
  "capacity pa = nat (u64 (m_anticipation_ratio pa))"

fun link_run :: "env \<Rightarrow> path_id \<Rightarrow> link_op \<Rightarrow> sys \<Rightarrow> sys res" where
  "link_run E p (Send m) s = Inr (snd (m_sendInfo E p m s))"
| "link_run E p (Ack nr repetition) s = ebind (m_receivedRR E p nr repetition s) (\<lambda>(ok, t). Inr t)"
| "link_run E p Repeat s =
     (if msg_sent (paths s p) = [] \<or> m_repeat (paths s p) \<ge> repeat_max (paths s p) then Inr s
      else Inr (repeat_or_give_up E p s))"

text \<open>The state of a path on which the two descriptions are compared.\<close>

definition connected_ok :: "nat \<Rightarrow> int \<Rightarrow> HNZPath \<Rightarrow> bool" where
  "connected_ok cap limit pa \<longleftrightarrow>
     path_ok pa \<and> m_protocol_state pa = CONNECTED \<and> capacity pa = cap \<and> repeat_max pa = limit"

lemma window_open_capacity: "window_open pa \<longleftrightarrow> length (msg_sent pa) < capacity pa"
  using u64_range(1) [of "m_anticipation_ratio pa"]
  by (simp add: window_open_def capacity_def zless_nat_eq_int_zless)

lemma window_ok_capacity: "path_ok pa \<Longrightarrow> length (msg_sent pa) \<le> capacity pa"
  using u64_range(1) [of "m_anticipation_ratio pa"]
  by (simp add: path_ok_def window_ok_def capacity_def le_nat_iff)

lemma connected_ok_step:
  "connected_ok cap limit (paths s p) \<Longrightarrow> link_step p s t \<Longrightarrow> path_ok (paths t p) \<Longrightarrow>
   connected_ok cap limit (paths t p)"
  using same_states_settings [of "paths s p" "paths t p"]
  by (simp add: connected_ok_def capacity_def link_step_def)

section \<open>Every operation implements its specification\<close>

lemma send_refines:
  assumes "connected_ok cap limit (paths s p)" and "t = snd (m_sendInfo E p m s)"
  shows "connected_ok cap limit (paths t p) \<and>
    sender_of (paths t p) = spec_op cap limit (Send m) (sender_of (paths s p))"
proof -
  have ok: "path_ok (paths s p)" "\<not> discarded (paths s p) m" "capacity (paths s p) = cap"
    using assms(1) by (simp_all add: connected_ok_def discarded_def)
  have "connected_ok cap limit (paths t p)"
    using connected_ok_step [OF assms(1) link_step_sendInfo] sendInfo_path_ok_snd [OF ok(1)]
    by (simp add: assms(2))
  moreover have "sender_of (paths t p) = spec_op cap limit (Send m) (sender_of (paths s p))"
  proof (cases "window_open (paths s p)")
    case False
    with ok show ?thesis
      by (simp add: assms(2) m_sendInfo_def Let_def sender_of_def window_open_capacity)
  next
    case True
    obtain b u where r: "m_sendInfoImmediately E p \<lparr>ns = 0, payload = m\<rparr> s = (b, u)" by fastforce
    then have t: "t = u" using True ok(2) by (simp add: assms(2) m_sendInfo_def Let_def)
    from r show ?thesis
    proof (cases rule: sendInfoImmediately_cases)
      case (sent time time')
      with True ok show ?thesis
        unfolding t by (simp add: sender_of_def window_open_capacity)
    qed (use ok in simp)
  qed
  ultimately show ?thesis by simp
qed

lemma repeat_refines:
  assumes "connected_ok cap limit (paths s p)" and "link_run E p Repeat s = Inr t"
  shows "connected_ok cap limit (paths t p) \<and>
    sender_of (paths t p) = spec_op cap limit Repeat (sender_of (paths s p))"
proof (cases "msg_sent (paths s p) = [] \<or> m_repeat (paths s p) \<ge> repeat_max (paths s p)")
  case True
  with assms show ?thesis by (auto simp: sender_of_def connected_ok_def)
next
  case False
  then have t: "t = give_back p (sendBackInfo E p (hd (msg_sent (paths s p))) s)"
    using assms(2) by (auto simp: repeat_or_give_up_eq)
  obtain time time' where b: "paths (sendBackInfo E p (hd (msg_sent (paths s p))) s) p
      = (paths s p)\<lparr>m_repeat := m_repeat (paths s p) + 1, m_last_msg_sent_time := time, last_sent_time := time'\<rparr>"
    using paths_sendBackInfo by blast
  have ok: "path_ok (paths s p)" using assms(1) by (simp add: connected_ok_def)
  have "path_ok (paths t p)"
    using path_ok_taken_back [OF sendBackInfo_path_ok [OF ok]] by (simp add: t give_back_def)
  moreover have "link_step p s t" unfolding t give_back_def
    by (rule link_step_trans [OF link_step_sendBackInfo link_step_upd_path])
      (simp add: same_states_def path_settings.truncate_def)
  ultimately have "connected_ok cap limit (paths t p)"
    using connected_ok_step [OF assms(1)] by simp
  moreover have "sender_of (paths t p) = spec_op cap limit Repeat (sender_of (paths s p))"
    using False assms(1)
    by (auto simp: t give_back_def b sender_of_def connected_ok_def take_map map_tl)
  ultimately show ?thesis by simp
qed

text \<open>
  The refill of the specification is what the loop over the waiting messages amounts to: it is
  determined by its stop condition.
\<close>

lemma refill_determined:
  assumes "length f \<le> cap" and "f' = f @ take k w" and "w' = drop k w" and "length f' \<le> cap"
    and "w' = [] \<or> \<not> length f' < cap"
  shows "f' = f @ take (min (cap - length f) (length w)) w \<and> w' = drop (min (cap - length f) (length w)) w"
proof (cases "w' = []")
  case True
  with assms have w: "take k w = w" "length w \<le> cap - length f" by auto
  from w(2) have "min (cap - length f) (length w) = length w" by simp
  with True w(1) assms(2) show ?thesis by simp
next
  case False
  with assms have "k < length w" "length f' = cap" by auto
  then have "cap - length f = k" using assms(2) by simp
  then show ?thesis using assms \<open>k < length w\<close> by simp
qed

lemma NRAccepted_refines:
  assumes "connected_ok cap limit (paths s p)" and "nr \<in> {0..7}"
  shows "\<exists>t. m_NRAccepted E p nr s = Inr t \<and> connected_ok cap limit (paths t p) \<and>
    sender_of (paths t p) = refill cap ((sender_of (paths s p))
      \<lparr>base := nr, tries := 0, flight := drop (covered nr (sender_of (paths s p))) (flight (sender_of (paths s p)))\<rparr>)"
proof -
  define pa where "pa = paths s p"
  have ok: "path_ok pa" "capacity pa = cap" using assms(1) by (simp_all add: connected_ok_def pa_def)
  define d where "d = nat ((nr - m_NRR pa) mod 8)"
  obtain t k where t: "m_NRAccepted E p nr s = Inr t" "link_step p s t" "path_ok (paths t p)"
    "m_NRR (paths t p) = nr" "m_repeat (paths t p) = 0"
    "msg_waiting (paths t p) = drop k (msg_waiting pa)"
    "map payload (msg_sent (paths t p)) = map payload (drop d (msg_sent pa) @ take k (msg_waiting pa))"
    "msg_waiting (paths t p) = [] \<or> \<not> window_open (paths t p)"
    using NRAccepted_total [OF ok(1) [unfolded pa_def] assms(2), of E] unfolding pa_def d_def by blast
  have c: "connected_ok cap limit (paths t p)" by (rule connected_ok_step [OF assms(1) t(2,3)])
  then have cap: "capacity (paths t p) = cap" by (simp add: connected_ok_def)
  define f where "f = map payload (drop d (msg_sent pa))"
  define w where "w = map payload (msg_waiting pa)"
  have r: "map payload (msg_sent (paths t p)) = f @ take (min (cap - length f) (length w)) w \<and>
      map payload (msg_waiting (paths t p)) = drop (min (cap - length f) (length w)) w"
  proof (rule refill_determined [where k = k])
    show "length f \<le> cap" using window_ok_capacity [OF ok(1)] ok(2) by (simp add: f_def)
    show "map payload (msg_sent (paths t p)) = f @ take k w" using t(7) by (simp add: f_def w_def take_map)
    show "map payload (msg_waiting (paths t p)) = drop k w" using t(6) by (simp add: w_def drop_map)
    show "length (map payload (msg_sent (paths t p))) \<le> cap" using window_ok_capacity [OF t(3)] cap by simp
    show "map payload (msg_waiting (paths t p)) = [] \<or> \<not> length (map payload (msg_sent (paths t p))) < cap"
      using t(8) cap by (simp add: window_open_capacity)
  qed
  define P where "P x \<longleftrightarrow> m_ns x = (m_ns pa + (int (length (msg_sent x)) - int (length f))) mod 8" for x :: HNZPath
  have "P (paths t p)"
  proof (rule NRAccepted_inv [OF ok(1) [unfolded pa_def] assms(2) t(1)])
    show "P ((paths s p)\<lparr>msg_sent := drop (nat ((nr - m_NRR (paths s p)) mod 8)) (msg_sent (paths s p)),
       m_NRR := nr, m_repeat := 0, last_sent_time := time\<rparr>)" for time
      using ok(1) by (simp add: P_def f_def pa_def d_def path_ok_def numbers_ok_def)
    show "P (x\<lparr>m_last_msg_sent_time := time, last_sent_time := time',
            msg_sent := msg_sent x @ [m\<lparr>ns := m_ns x\<rparr>], m_ns := (m_ns x + 1) mod 8,
            msg_waiting := ms\<rparr>)" if "P x" for x :: HNZPath and m ms time time'
      using that unfolding P_def by (simp add: mod_add_left_eq mod_add_right_eq algebra_simps)
  qed
  define n where "n = min (cap - length f) (length w)"
  note r' = r [folded n_def]
  have "length (msg_sent (paths t p)) = length (map payload (msg_sent (paths t p)))" by simp
  also have "\<dots> = length f + n" unfolding conjunct1 [OF r'] by (simp add: n_def)
  finally have len: "length (msg_sent (paths t p)) = length f + n" .
  have ns: "m_ns (paths t p) = (m_ns pa + int n) mod 8"
    using \<open>P (paths t p)\<close> unfolding P_def len by simp
  have spec: "(sender_of pa)\<lparr>base := nr, tries := 0, flight := drop (covered nr (sender_of pa)) (flight (sender_of pa))\<rparr>
      = \<lparr>base = nr, next_nr = m_ns pa, tries = 0, flight = f, pend = w\<rparr>"
    by (simp add: sender_of_def covered_def d_def f_def w_def drop_map)
  have "sender_of (paths t p) = refill cap \<lparr>base = nr, next_nr = m_ns pa, tries = 0, flight = f, pend = w\<rparr>"
    by (simp add: refill_def Let_def n_def [symmetric]) (simp add: sender_of_def t(4,5) ns r')
  with t(1) c show ?thesis unfolding pa_def [symmetric] spec by blast
qed

lemma ack_refines:
  assumes "connected_ok cap limit (paths s p)" and "nr \<in> {0..7}"
  shows "\<exists>t. link_run E p (Ack nr repetition) s = Inr t \<and> connected_ok cap limit (paths t p) \<and>
    sender_of (paths t p) = spec_op cap limit (Ack nr repetition) (sender_of (paths s p))"
proof -
  have n: "numbers_ok (paths s p)" using assms(1) by (simp add: connected_ok_def path_ok_def)
  have acc: "acknowledges nr repetition (sender_of (paths s p)) \<longleftrightarrow>
      nr \<noteq> m_NRR (paths s p) \<and> m_isNRValid (paths s p) nr \<and> (\<not> repetition \<or> m_repeat (paths s p) > 0)"
    using isNRValid_iff [OF n assms(2)] by (auto simp: acknowledges_def sender_of_def)
  show ?thesis
    using NRAccepted_refines [OF assms, of E] acc assms(1)
    by (auto simp: m_receivedRR_def Let_def)
qed

section \<open>Refinement\<close>

definition valid_op :: "link_op \<Rightarrow> bool" where
  "valid_op op \<longleftrightarrow> (case op of Ack nr _ \<Rightarrow> nr \<in> {0..7} | _ \<Rightarrow> True)"

lemma link_run_refines:
  assumes "connected_ok cap limit (paths s p)" and "valid_op op"
  shows "\<exists>t. link_run E p op s = Inr t \<and> connected_ok cap limit (paths t p) \<and>
    sender_of (paths t p) = spec_op cap limit op (sender_of (paths s p))"
proof (cases op)
  case (Send m)
  then show ?thesis using send_refines [OF assms(1) refl, of E m] by simp
next
  case (Ack nr repetition)
  then show ?thesis using ack_refines [OF assms(1)] assms(2) by (simp add: valid_op_def)
next
  case Repeat
  obtain t where "link_run E p Repeat s = Inr t"
    by (cases "msg_sent (paths s p) = [] \<or> m_repeat (paths s p) \<ge> repeat_max (paths s p)") simp_all
  with repeat_refines [OF assms(1) this] show ?thesis unfolding Repeat by blast
qed

interpretation sender: simulation "link_run E p" "spec_op cap limit" "\<lambda>s. sender_of (paths s p)"
    "\<lambda>s. connected_ok cap limit (paths s p)" valid_op
  for E p cap limit
  by unfold_locales (rule link_run_refines)

text \<open>
  C3. Refinement: whatever messages are handed to a connected path, whatever acknowledgements it
  receives and however often its oldest message is repeated, in any order, the code returns and
  its queues, numbers and repetition counter are those of the specification, in which a window on
  the circle of the numbers is refilled in order from a queue.
\<close>
theorem window_refinement:
  assumes "connected_ok cap limit (paths s p)" and "\<forall>op \<in> set ops. valid_op op"
  shows "\<exists>t. efold (link_run E p) ops s = Inr t \<and>
    sender_of (paths t p) = fold (spec_op cap limit) ops (sender_of (paths s p)) \<and>
    connected_ok cap limit (paths t p)"
  by (rule sender.run [OF assms])

theorem window_refinement_witness:
  "\<exists>t. efold (link_run default_env Path_A) [Send [1], Send [2], Send [3], Send [4], Ack 2 False] running_state = Inr t \<and>
     flight (sender_of (paths t Path_A)) = [[3], [4]] \<and> pend (sender_of (paths t Path_A)) = [] \<and>
     next_nr (sender_of (paths t Path_A)) = 4"
proof -
  have c: "connected_ok 3 2 (paths running_state Path_A)"
    by (simp add: connected_ok_def capacity_def)
  have s0: "sender_of (paths running_state Path_A) = \<lparr>base = 0, next_nr = 0, tries = 0, flight = [], pend = []\<rparr>"
    by (simp add: sender_of_def)
  have "fold (spec_op 3 2) [Send [1], Send [2], Send [3], Send [4]] (sender_of (paths running_state Path_A))
      = \<lparr>base = 0, next_nr = 3, tries = 0, flight = [[1], [2], [3]], pend = [[4]]\<rparr>"
    unfolding s0 by simp
  moreover have "spec_op 3 2 (Ack 2 False) \<lparr>base = 0, next_nr = 3, tries = 0, flight = [[1], [2], [3]], pend = [[4]]\<rparr>
      = \<lparr>base = 2, next_nr = 4, tries = 0, flight = [[3], [4]], pend = []\<rparr>"
    by (simp add: acknowledges_def refill_def covered_def Let_def)
  ultimately have "fold (spec_op 3 2) [Send [1], Send [2], Send [3], Send [4], Ack 2 False]
      (sender_of (paths running_state Path_A)) = \<lparr>base = 2, next_nr = 4, tries = 0, flight = [[3], [4]], pend = []\<rparr>"
    by (simp del: spec_op.simps running_state_fields)
  with window_refinement [OF c, of "[Send [1], Send [2], Send [3], Send [4], Ack 2 False]" default_env]
  show ?thesis by (force simp: valid_op_def simp del: spec_op.simps link_run.simps fold_simps)
qed

section \<open>What follows from the specification\<close>



text \<open>The messages that a sequence of operations hands over.\<close>

fun handed_over :: "link_op list \<Rightarrow> byte list list" where
  "handed_over [] = []"
| "handed_over (Send m # ops) = m # handed_over ops"
| "handed_over (_ # ops) = handed_over ops"



text \<open>
  A history is calm when no message is handed over while a repetition is unanswered.  It is so
  in particular without repetitions, and when the repetitions come after the last message.
\<close>

fun calm :: "nat \<Rightarrow> int \<Rightarrow> link_op list \<Rightarrow> sender \<Rightarrow> bool" where
  "calm cap limit [] q \<longleftrightarrow> True"
| "calm cap limit (Send m # ops) q \<longleftrightarrow> tries q = 0 \<and> calm cap limit ops (spec_op cap limit (Send m) q)"
| "calm cap limit (op # ops) q \<longleftrightarrow> calm cap limit ops (spec_op cap limit op q)"

lemma calm_append:
  "calm cap limit (ops @ ops') q \<longleftrightarrow> calm cap limit ops q \<and> calm cap limit ops' (fold (spec_op cap limit) ops q)"
  by (induction cap limit ops q rule: calm.induct) simp_all

lemma tries_refill [simp]: "tries (refill cap q) = tries q"
  by (simp add: refill_def Let_def)

lemma tries_without_repeat: "op \<noteq> Repeat \<Longrightarrow> tries q = 0 \<Longrightarrow> tries (spec_op cap limit op q) = 0"
  by (cases op) simp_all

lemma calm_without_repeat:
  "Repeat \<notin> set ops \<Longrightarrow> tries q = 0 \<Longrightarrow>
   calm cap limit ops q \<and> tries (fold (spec_op cap limit) ops q) = 0"
proof (induction ops arbitrary: q)
  case (Cons op ops)
  then have "tries (spec_op cap limit op q) = 0" by (intro tries_without_repeat) auto
  with Cons show ?case by (cases op) auto
qed simp

lemma calm_without_send: "handed_over ops = [] \<Longrightarrow> calm cap limit ops q"
  by (induction cap limit ops q rule: calm.induct) simp_all

lemma calm_repeats_last:
  assumes "tries q = 0" and "Repeat \<notin> set ops" and "handed_over ops' = []"
  shows "calm cap limit (ops @ ops') q"
  using assms calm_without_repeat calm_without_send by (simp add: calm_append)

text \<open>
  A sender is settled when, unless a repetition is unanswered, a message waits only if the
  window is full.  Every operation keeps it so, and a path on which nothing waits is.
\<close>

definition settled :: "nat \<Rightarrow> sender \<Rightarrow> bool" where
  "settled cap q \<longleftrightarrow> 0 \<le> tries q \<and> (tries q = 0 \<longrightarrow> pend q = [] \<or> cap \<le> length (flight q))"

lemma settled_refill: "tries q = 0 \<Longrightarrow> settled cap (refill cap q)"
  by (auto simp: settled_def refill_def Let_def min_def)

lemma settled_spec_op: "settled cap q \<Longrightarrow> settled cap (spec_op cap limit op q)"
proof (cases op)
  case (Ack nr repetition)
  then show "settled cap q \<Longrightarrow> settled cap (spec_op cap limit op q)" by (simp add: settled_refill)
qed (auto simp: settled_def)

lemma settled_run:
  assumes "connected_ok cap limit (paths s p)" and "msg_waiting (paths s p) = []" and "0 \<le> m_repeat (paths s p)"
    and "\<forall>op \<in> set ops. valid_op op" and "efold (link_run E p) ops s = Inr t"
  shows "settled cap (sender_of (paths t p))"
proof -
  have "settled cap q \<Longrightarrow> settled cap (fold (spec_op cap limit) ops q)" for q
    by (induction ops arbitrary: q) (simp_all add: settled_spec_op)
  moreover have "settled cap (sender_of (paths s p))" using assms(2,3) by (simp add: settled_def sender_of_def)
  ultimately show ?thesis using sender.run [OF assms(1,4), of E] assms(5) by auto
qed









text \<open>
  A message handed over after a repetition overtakes older ones: the repetition has taken the
  messages after the oldest one back to the queue, which opens the window, and the new message is
  sent at once, before those that wait.
\<close>
lemma repetition_overtaken:
  assumes "connected_ok cap limit (paths s p)" and "2 \<le> cap"
    and "msg_sent (paths s p) = m # m' # ms" and "m_repeat (paths s p) < repeat_max (paths s p)"
  shows "\<exists>t. efold (link_run E p) [Repeat, Send new] s = Inr t \<and>
    map payload (msg_sent (paths t p)) = [payload m, new] \<and>
    map payload (msg_waiting (paths t p)) = payload m' # map payload (ms @ msg_waiting (paths s p))"
proof -
  have "fold (spec_op cap limit) [Repeat, Send new] (sender_of (paths s p))
      = (sender_of (paths s p))\<lparr>tries := m_repeat (paths s p) + 1, flight := [payload m, new],
          pend := payload m' # map payload (ms @ msg_waiting (paths s p)),
          next_nr := (m_ns (paths s p) + 1) mod 8\<rparr>"
    using assms by (simp add: sender_of_def connected_ok_def)
  moreover obtain t where "efold (link_run E p) [Repeat, Send new] s = Inr t"
    "sender_of (paths t p) = fold (spec_op cap limit) [Repeat, Send new] (sender_of (paths s p))"
    using sender.run [OF assms(1), of "[Repeat, Send new]" E] by (auto simp: valid_op_def)
  ultimately show ?thesis by (intro exI [of _ t]) (simp add: sender_of_def)
qed

lemma repetition_overtaken_witness:
  "\<exists>t. efold (link_run default_env Path_A) [Repeat, Send [0x13, 0x01]] busy_state = Inr t \<and>
    map payload (msg_sent (paths t Path_A)) = [payload (test_message 0), [0x13, 0x01]]"
  using repetition_overtaken [of 3 2 busy_state Path_A "test_message 0" "test_message 1" "[test_message 2]"
      default_env "[0x13, 0x01]"]
  by (auto simp: connected_ok_def capacity_def)

text \<open>
  A window of eight or more: the configuration does not limit the anticipation ratio, although
  numbers are counted modulo 8.  When eight messages are in flight, the number that acknowledges
  them all is the one that acknowledges none, and nothing leaves the window.
\<close>
lemma window_of_eight_stuck:
  assumes "path_ok (paths s p)" and "consecutive (paths s p)" and "length (msg_sent (paths s p)) = 8"
  shows "m_receivedRR E p (m_ns (paths s p)) repetition s = Inr (True, s)"
proof -
  have "m_NRR (paths s p) \<in> {0..7}" using assms(1) by (simp add: path_ok_def numbers_ok_def)
  then have "m_ns (paths s p) = m_NRR (paths s p)" using assms(2,3) by (simp add: consecutive_def)
  then show ?thesis by (simp add: m_receivedRR_def Let_def)
qed

lemma window_of_eight_stuck_witness:
  "m_receivedRR default_env Path_A (m_ns (connected_path ''A'' ACTIVE)) False
     (running_state\<lparr>paths := (\<lambda>_. (connected_path ''A'' ACTIVE)\<lparr>m_anticipation_ratio := 8,
        msg_sent := map test_message [0..<8]\<rparr>)\<rparr>)
   = Inr (True, running_state\<lparr>paths := (\<lambda>_. (connected_path ''A'' ACTIVE)\<lparr>m_anticipation_ratio := 8,
        msg_sent := map test_message [0..<8]\<rparr>)\<rparr>)"
proof -
  define s where "s = running_state\<lparr>paths := (\<lambda>_. (connected_path ''A'' ACTIVE)\<lparr>m_anticipation_ratio := 8,
        msg_sent := map test_message [0..<8]\<rparr>)\<rparr>"
  have p: "paths s Path_A = (connected_path ''A'' ACTIVE)\<lparr>m_anticipation_ratio := 8,
        msg_sent := map test_message [0..<8]\<rparr>" by (simp add: s_def)
  have "path_ok (paths s Path_A)" by (simp add: p path_ok_defs)
  moreover have "consecutive (paths s Path_A)"
    by (auto simp: p consecutive_def test_message_def)
  ultimately show ?thesis
    using window_of_eight_stuck [of s Path_A default_env False] by (simp add: p s_def [symmetric])
qed

end
