(* ===== verification/HNZ_Switch_Properties.thy ===== *)
theory HNZ_Switch_Properties
  imports HNZ_Default
begin

text \<open>
  What the two paths promise together: the handshake that makes a path active, the failover to
  the standby path, the limit on unanswered SARM, connection and disconnection.
\<close>

text \<open>A connected path is active or on standby.\<close>

lemma connected_state:
  assumes "sys_ok s" and "m_protocol_state (paths s p) = CONNECTED"
  shows "m_connection_state (paths s p) = (if m_active_path s = Some p then ACTIVE else PASSIVE)"
  using sys_okD(3) [OF assms(1), of p] sys_okD(6) [OF assms(1)] assms(2)
  by (auto simp: agree_def arbitration_defs)

section \<open>Failover\<close>

text \<open>What actions and transitions do to the status and the counter of the GI.\<close>

lemma action_gi_status: "m_giStatus (run_action E p a s) = m_giStatus s"
proof (cases rule: action_effect [of a p s E])
  case (request r)
  then show ?thesis using path_only_fields [OF request(3)] by simp
next
  case local
  then show ?thesis using path_only_fields [OF local(2)] by simp
qed

lemma transition_gi_status: "m_giStatus (protocolStateTransition E p ev s) = m_giStatus s"
proof -
  have "m_giStatus (fold (run_action E p) acts t) = m_giStatus t" for acts t
    by (induction acts arbitrary: t) (simp_all add: action_gi_status)
  then show ?thesis
    by (simp add: protocolStateTransition_def Let_def upd_path_def split: option.split)
qed

lemma action_gi_reset:
  assumes "m_active_path s = Some p \<or> m_gi_repeat s = 0"
  shows "m_active_path (run_action E p a s) = Some p \<or> m_gi_repeat (run_action E p a s) = 0"
proof (cases rule: action_effect [of a p s E])
  case (request r)
  have "m_active_path r = Some p \<or> m_gi_repeat r = 0"
    unfolding request(2)
    by (cases rule: request_cases [OF refl, where p = p and st = "requested a" and s = s])
      (use assms in auto)
  then show ?thesis using path_only_fields [OF request(3)] by simp
next
  case local
  then show ?thesis using assms path_only_fields [OF local(2)] by simp
qed

lemma transition_gi_reset:
  assumes "m_active_path s = Some p \<or> m_gi_repeat s = 0"
  shows "m_active_path (protocolStateTransition E p ev s) = Some p \<or>
    m_gi_repeat (protocolStateTransition E p ev s) = 0"
proof -
  have "m_active_path (fold (run_action E p) acts t) = Some p \<or> m_gi_repeat (fold (run_action E p) acts t) = 0"
    if "m_active_path t = Some p \<or> m_gi_repeat t = 0" for acts t
    using that by (induction acts arbitrary: t) (simp_all add: action_gi_reset)
  with assms show ?thesis
    by (simp add: protocolStateTransition_def Let_def upd_path_def split: option.split)
qed

text \<open>An event that takes a connected path out of the state CONNECTED.\<close>

definition loses_connection :: "ConnectionEvent \<Rightarrow> bool" where
  "loses_connection ev \<longleftrightarrow> ev \<in> {MAX_SEND, TO_TCACK, RECEIVED_SARM, TO_RECV, TCP_CNX_LOST}"

lemma lost_connection:
  assumes "m_protocol_state (paths s p) = CONNECTED" and "loses_connection ev"
  shows "m_protocol_state (paths (protocolStateTransition E p ev s) p) \<noteq> CONNECTED"
  using assms(2) unfolding loses_connection_def
  by (elim insertE emptyE; simp add: transition_state m_protocolStateTransitionMap_def assms(1))

text \<open>
  C11. Failover: when the active path loses its connection, for whatever reason, while the other
  path is connected and on standby, the other path is the active one at once and Fledge is not
  told of an interruption.  The running general interrogation is forgotten: its counter is
  cleared, while its status stays as it was.
\<close>
theorem failover:
  assumes "plugin_ok s" and "m_active_path s = Some p" and "conn_running s"
    and "q \<noteq> p" and "m_paths s q" and "m_protocol_state (paths s q) = CONNECTED"
    and "loses_connection ev"
  shows "m_active_path (protocolStateTransition E p ev s) = Some q \<and>
    m_connection_state (paths (protocolStateTransition E p ev s) q) = ACTIVE \<and>
    m_connection_state (paths (protocolStateTransition E p ev s) p) \<in> {DISCONNECTED, PENDING_HNZ} \<and>
    m_connStatus (protocolStateTransition E p ev s) = CS_STARTED \<and>
    m_gi_repeat (protocolStateTransition E p ev s) = 0 \<and>
    m_giStatus (protocolStateTransition E p ev s) = m_giStatus s"
proof -
  define t where "t = protocolStateTransition E p ev s"
  have pp: "m_paths s p" by (rule inv_active_present [OF assms(1,2)])
  have ok: "sys_ok t" using transition_inv [OF assms(1) pp] by (simp add: plugin_ok_def t_def)
  have sp: "m_protocol_state (paths s p) = CONNECTED"
    using active_is_connected(1) assms(1,2) by (simp add: plugin_ok_def)
  have st: "m_protocol_state (paths t p) \<noteq> CONNECTED"
    unfolding t_def by (rule lost_connection [OF sp assms(7)])
  have sq: "m_protocol_state (paths t q) = CONNECTED" "conn_running t" "m_paths t q"
    using transition_other_state(1) [OF assms(4)] transition_other_state(2) transition_conf [of s E p ev]
      assms(3,5,6) by (simp_all add: t_def same_conf_def)
  have not_p: "m_active_path t \<noteq> Some p" using active_is_connected(1) [OF ok] st by blast
  have cq: "m_connection_state (paths t q) \<in> {ACTIVE, PASSIVE}"
    using sys_okD(3) [OF ok, of q] sq(1) by (simp add: agree_def)
  have act: "m_active_path t = Some q"
  proof (rule ccontr)
    assume n: "m_active_path t \<noteq> Some q"
    then have "m_active_path t = None" using not_p assms(4) by (metis option.exhaust path_id.exhaust)
    moreover have "m_connection_state (paths t q) = PASSIVE"
      using cq n sys_okD(6) [OF ok] by (auto simp: arbitration_defs)
    ultimately show False using sys_okD(6) [OF ok] sq(2,3) by (auto simp: arbitration_defs)
  qed
  moreover have "m_connection_state (paths t q) = ACTIVE" "m_connStatus t = CS_STARTED"
    using act sys_okD(6) [OF ok] by (simp_all add: arbitration_defs)
  moreover have "m_connection_state (paths t p) \<in> {DISCONNECTED, PENDING_HNZ}"
    using sys_okD(3) [OF ok, of p] st by (auto simp: agree_def split: ProtocolState.splits)
  moreover have "m_gi_repeat t = 0" "m_giStatus t = m_giStatus s"
    using transition_gi_reset [of s p E ev] assms(2) not_p by (auto simp: t_def transition_gi_status)
  ultimately show ?thesis by (simp add: t_def)
qed

theorem failover_witness:
  "m_active_path (protocolStateTransition default_env Path_A TCP_CNX_LOST busy_state) = Some Path_B \<and>
   m_connStatus (protocolStateTransition default_env Path_A TCP_CNX_LOST busy_state) = CS_STARTED"
  using failover [of busy_state Path_A Path_B TCP_CNX_LOST default_env] by (simp add: loses_connection_def)

section \<open>Handshake\<close>

text \<open>
  A path becomes connected only by the answer it waits for: an event takes a path that is not
  connected to the state CONNECTED exactly when the path has an input connection and receives
  UA, or has an output connection and receives SARM; with that the path asks to be active.
\<close>
lemma connected_by_handshake:
  assumes "m_protocol_state (paths s p) \<noteq> CONNECTED"
  shows "m_protocol_state (paths (protocolStateTransition E p ev s) p) = CONNECTED \<longleftrightarrow>
    (m_protocol_state (paths s p), ev) \<in> {(INPUT_CONNECTED, RECEIVED_UA), (OUTPUT_CONNECTED, RECEIVED_SARM)}"
proof (cases "map_of m_protocolStateTransitionMap (m_protocol_state (paths s p), ev)")
  case None
  then have "protocolStateTransition E p ev s = s" by (simp add: protocolStateTransition_def)
  with None assms show ?thesis
    by (auto simp: m_protocolStateTransitionMap_def split: if_splits)
next
  case (Some entry)
  obtain target acts where e: "entry = (target, acts)" by (cases entry)
  show ?thesis
    using Some [unfolded e] assms unfolding transition_state [OF Some [unfolded e]]
    by (auto simp: m_protocolStateTransitionMap_def split: if_splits)
qed

text \<open>The two steps of the handshake on a path that is not active.\<close>

lemma pending_active:
  "m_active_path s \<noteq> Some p \<Longrightarrow> m_active_path (setConnectionPending p s) = m_active_path s"
  unfolding setConnectionPending_def
  by (cases rule: request_cases [OF refl, where p = p and st = PENDING_HNZ and s = s]) simp_all

lemma request_active:
  "m_active_path s \<noteq> Some p \<Longrightarrow>
   m_active_path (requestConnectionState p ACTIVE s) = (if m_active_path s = None then Some p else m_active_path s)"
  by (cases rule: request_cases [OF refl, where p = p and st = ACTIVE and s = s]) simp_all

lemma request_times [simp]:
  "m_last_connected (paths (requestConnectionState p st s) q) = m_last_connected (paths s q)"
  using same_link_fields(9) [OF request_same_link] .

lemma request_repeat_timeout [simp]:
  "m_repeat_timeout (paths (requestConnectionState p st s) q) = m_repeat_timeout (paths s q)"
  by (subst request_same_link [of s q p st, unfolded same_link_def]) simp

lemma handshake_begins:
  assumes "m_protocol_state (paths s p) = CONNECTION" and "m_active_path s \<noteq> Some p"
    and "ev \<in> {RECEIVED_SARM, RECEIVED_UA}" and "t = protocolStateTransition E p ev s"
  shows "m_protocol_state (paths t p) = (if ev = RECEIVED_SARM then INPUT_CONNECTED else OUTPUT_CONNECTED)"
    and "m_active_path t = m_active_path s" and "m_last_connected (paths t p) = m_last_connected (paths s p)"
    and "m_repeat_timeout (paths t p) = m_repeat_timeout (paths s p)"
  using assms(3) pending_active [of "upd_path p f s" p for f] assms(1,2)
  by (auto simp: assms(4) protocolStateTransition_def m_protocolStateTransitionMap_def Let_def action_defs
      upd_path_def asked_def)

lemma resolve_connected_active:
  "m_active_path u \<noteq> Some p \<Longrightarrow>
   m_active_path (resolveProtocolStateConnected E p u) = (if m_active_path u = None then Some p else m_active_path u)"
  using request_active [of u p]
  by (simp add: resolveProtocolStateConnected_def Let_def upd_path_def asked_def)

lemma handshake_ends:
  assumes "(m_protocol_state (paths s p), ev) \<in> {(INPUT_CONNECTED, RECEIVED_UA), (OUTPUT_CONNECTED, RECEIVED_SARM)}"
    and "m_active_path s \<noteq> Some p" and "t = protocolStateTransition E p ev s"
  shows "m_protocol_state (paths t p) = CONNECTED"
    and "m_active_path t = (if m_active_path s = None then Some p else m_active_path s)"
proof -
  show "m_protocol_state (paths t p) = CONNECTED"
    using assms(1,2) connected_by_handshake [of s p E ev] by (auto simp: assms(3))
  obtain a where a: "\<not> is_request a" "map_of m_protocolStateTransitionMap (m_protocol_state (paths s p), ev)
      = Some (CONNECTED, [a, Do_resolveProtocolStateConnected])"
    using assms(1) by (auto simp: m_protocolStateTransitionMap_def is_request_def)
  define u where "u = run_action E p a (upd_path p (\<lambda>x. x\<lparr>m_protocol_state := CONNECTED\<rparr>) s)"
  have "m_active_path u = m_active_path s"
    unfolding u_def
    by (cases rule: action_effect [of a p "upd_path p (\<lambda>x. x\<lparr>m_protocol_state := CONNECTED\<rparr>) s" E])
      (use a(1) path_only_fields(2) in \<open>auto simp: upd_path_def\<close>)
  moreover have "m_active_path t = m_active_path (resolveProtocolStateConnected E p u)"
    unfolding assms(3) protocolStateTransition_def a(2)
    by (simp add: Let_def u_def run_action_def) (simp add: upd_path_def)
  ultimately show "m_active_path t = (if m_active_path s = None then Some p else m_active_path s)"
    using resolve_connected_active assms(2) by simp
qed

text \<open>The handshake sets numbers to zero, each event those of its direction, and keeps the queues.\<close>

lemma handshake_numbers:
  assumes "m_protocol_state (paths s p) = CONNECTION \<or>
      (m_protocol_state (paths s p), ev) \<in> {(INPUT_CONNECTED, RECEIVED_UA), (OUTPUT_CONNECTED, RECEIVED_SARM)}"
    and "ev \<in> {RECEIVED_SARM, RECEIVED_UA}" and "t = protocolStateTransition E p ev s"
  shows "msg_sent (paths t p) = msg_sent (paths s p)" "msg_waiting (paths t p) = msg_waiting (paths s p)"
    and "m_ns (paths t p) = (if ev = RECEIVED_UA then 0 else m_ns (paths s p))"
    and "m_NRR (paths t p) = (if ev = RECEIVED_UA then 0 else m_NRR (paths s p))"
    and "m_nr (paths t p) = (if ev = RECEIVED_UA then m_nr (paths s p) else 0)"
proof -
  have r: "msg_sent (paths (requestConnectionState q st u) q) = msg_sent (paths u q)"
    "msg_waiting (paths (requestConnectionState q st u) q) = msg_waiting (paths u q)"
    "m_ns (paths (requestConnectionState q st u) q) = m_ns (paths u q)"
    "m_NRR (paths (requestConnectionState q st u) q) = m_NRR (paths u q)"
    "m_nr (paths (requestConnectionState q st u) q) = m_nr (paths u q)" for q st u
    by (subst request_same_link [of u q q st, unfolded same_link_def], simp)+
  show "msg_sent (paths t p) = msg_sent (paths s p)" "msg_waiting (paths t p) = msg_waiting (paths s p)"
    and "m_ns (paths t p) = (if ev = RECEIVED_UA then 0 else m_ns (paths s p))"
    and "m_NRR (paths t p) = (if ev = RECEIVED_UA then 0 else m_NRR (paths s p))"
    and "m_nr (paths t p) = (if ev = RECEIVED_UA then m_nr (paths s p) else 0)"
    using assms(1,2)
    by (auto simp: assms(3) protocolStateTransition_def m_protocolStateTransitionMap_def Let_def action_defs
        r resolveProtocolStateConnected_def)
qed

lemma sendUA_fields:
  "msg_sent (paths (asked (m_sendUA E p s)) q) = msg_sent (paths s q)"
  "msg_waiting (paths (asked (m_sendUA E p s)) q) = msg_waiting (paths s q)"
  "m_ns (paths (asked (m_sendUA E p s)) q) = m_ns (paths s q)"
  "m_nr (paths (asked (m_sendUA E p s)) q) = m_nr (paths s q)"
  "m_NRR (paths (asked (m_sendUA E p s)) q) = m_NRR (paths s q)"
  by (simp_all add: m_sendUA_def m_sendFrame_def Let_def)

text \<open>A SARM is answered by UA, and heeded when the last connection is old enough.\<close>

lemma receivedSARM_heeded:
  assumes "\<forall>n. clock_ms E n - m_last_connected (paths s p) > m_repeat_timeout (paths s p)"
  obtains u where "m_receivedSARM E p s = protocolStateTransition E p RECEIVED_SARM u"
    "plugin_ok s \<Longrightarrow> plugin_ok u" "m_protocol_state (paths u p) = m_protocol_state (paths s p)"
    "m_active_path u = m_active_path s" "m_paths u = m_paths s"
    "m_last_connected (paths u p) = m_last_connected (paths s p)"
    "m_repeat_timeout (paths u p) = m_repeat_timeout (paths s p)"
    "outs u = outs s @ [SendFrame p (m_address_PA (paths s p)) [UA_CODE E]]"
    "msg_sent (paths u p) = msg_sent (paths s p)" "msg_waiting (paths u p) = msg_waiting (paths s p)"
    "m_ns (paths u p) = m_ns (paths s p)" "m_NRR (paths u p) = m_NRR (paths s p)"
    "m_nr (paths u p) = m_nr (paths s p)"
proof -
  define u where "u = asked (m_sendUA E p s)"
  have l: "link_step p s u"
    unfolding u_def by (rule link_step_trans [OF send_ua.frame link_step_asked])
  note ss = same_states_settings [of "paths s p" "paths u p"]
  have po: "path_only p s u" and st: "same_states (paths s p) (paths u p)"
    using l by (simp_all add: link_step_def)
  have "plugin_ok s \<Longrightarrow> plugin_ok u"
    unfolding u_def asked_inv
    using send_ua.sys_ok [of s E p] link_step_gi [OF send_ua.frame, of s E p]
    by (simp add: plugin_ok_def)
  moreover have "m_receivedSARM E p s = protocolStateTransition E p RECEIVED_SARM u"
    using assms ss(10,13) [OF st]
    by (simp add: m_receivedSARM_def Let_def u_def [symmetric] now_ms_def)
      (simp add: u_def)
  moreover have "outs u = outs s @ [SendFrame p (m_address_PA (paths s p)) [UA_CODE E]]"
    by (simp add: u_def m_sendUA_def outs_sendFrame)
  ultimately show thesis
    using ss [OF st] path_only_fields [OF po] sendUA_fields [of E p s p, folded u_def]
    by (intro that [of u]) simp_all
qed

definition handshake :: "env \<Rightarrow> path_id \<Rightarrow> bool \<Rightarrow> sys \<Rightarrow> sys" where
  "handshake E p ua_first s =
     (if ua_first then m_receivedSARM E p (m_receivedUA E p s)
      else m_receivedUA E p (m_receivedSARM E p s))"

text \<open>
  C13. Handshake: a path without connection that receives UA and SARM, in either order, is
  connected; it becomes the active path when there is none, and stays on standby otherwise; its
  numbers start at zero and nothing waits.  This holds when the previous connection is older than
  the repetition timeout.
\<close>
theorem handshake_activates:
  assumes "plugin_ok s" and "m_paths s p" and "m_protocol_state (paths s p) = CONNECTION"
    and "\<forall>n. clock_ms E n - m_last_connected (paths s p) > m_repeat_timeout (paths s p)"
  shows "plugin_ok (handshake E p ua_first s) \<and>
    m_protocol_state (paths (handshake E p ua_first s) p) = CONNECTED \<and>
    m_active_path (handshake E p ua_first s) = (if m_active_path s = None then Some p else m_active_path s) \<and>
    m_connection_state (paths (handshake E p ua_first s) p) = (if m_active_path s = None then ACTIVE else PASSIVE) \<and>
    msg_sent (paths (handshake E p ua_first s) p) = [] \<and> msg_waiting (paths (handshake E p ua_first s) p) = [] \<and>
    m_ns (paths (handshake E p ua_first s) p) = 0 \<and> m_NRR (paths (handshake E p ua_first s) p) = 0 \<and>
    m_nr (paths (handshake E p ua_first s) p) = 0"
proof -
  have na: "m_active_path s \<noteq> Some p"
    using active_is_connected(1) [of s p] assms(1,3) by (auto simp: plugin_ok_def)
  define t where "t = handshake E p ua_first s"
  have q: "msg_sent (paths s p) = []" "msg_waiting (paths s p) = []"
    using sys_okD(2) [of s p] assms(1,3) by (simp_all add: plugin_ok_def path_ok_defs)
  have t: "plugin_ok t \<and> m_protocol_state (paths t p) = CONNECTED \<and>
      m_active_path t = (if m_active_path s = None then Some p else m_active_path s) \<and>
      msg_sent (paths t p) = [] \<and> msg_waiting (paths t p) = [] \<and>
      m_ns (paths t p) = 0 \<and> m_NRR (paths t p) = 0 \<and> m_nr (paths t p) = 0"
  proof (cases ua_first)
    case True
    define s1 where "s1 = protocolStateTransition E p RECEIVED_UA s"
    note b = handshake_begins [OF assms(3) na _ s1_def]
    have s1: "plugin_ok s1" "m_paths s1 p"
      using transition_inv [OF assms(1,2)] transition_conf assms(2) by (simp_all add: s1_def same_conf_def)
    have b': "m_protocol_state (paths s1 p) = OUTPUT_CONNECTED" "m_active_path s1 = m_active_path s"
        "\<forall>n. clock_ms E n - m_last_connected (paths s1 p) > m_repeat_timeout (paths s1 p)"
      using b assms(4) by simp_all
    obtain u where u: "m_receivedSARM E p s1 = protocolStateTransition E p RECEIVED_SARM u" "plugin_ok u"
        "m_protocol_state (paths u p) = OUTPUT_CONNECTED" "m_active_path u = m_active_path s" "m_paths u p"
        "msg_sent (paths u p) = msg_sent (paths s1 p)" "msg_waiting (paths u p) = msg_waiting (paths s1 p)"
        "m_ns (paths u p) = m_ns (paths s1 p)" "m_NRR (paths u p) = m_NRR (paths s1 p)"
        "m_nr (paths u p) = m_nr (paths s1 p)"
      using receivedSARM_heeded [OF b'(3)] b' s1 by metis
    then have tu: "t = protocolStateTransition E p RECEIVED_SARM u"
      using True by (simp add: t_def handshake_def m_receivedUA_def s1_def)
    have "msg_sent (paths t p) = []" "msg_waiting (paths t p) = []" "m_ns (paths t p) = 0"
        "m_NRR (paths t p) = 0" "m_nr (paths t p) = 0"
      using handshake_numbers [OF _ _ s1_def] handshake_numbers [OF _ _ tu] u(3,6-10) assms(3) q by simp_all
    with handshake_ends [OF _ _ tu] transition_inv [OF u(2,5)] u(1-5) na tu show ?thesis by simp
  next
    case False
    obtain u where u: "m_receivedSARM E p s = protocolStateTransition E p RECEIVED_SARM u" "plugin_ok u"
        "m_protocol_state (paths u p) = CONNECTION" "m_active_path u = m_active_path s" "m_paths u p"
        "msg_sent (paths u p) = msg_sent (paths s p)" "msg_waiting (paths u p) = msg_waiting (paths s p)"
        "m_ns (paths u p) = m_ns (paths s p)" "m_NRR (paths u p) = m_NRR (paths s p)"
        "m_nr (paths u p) = m_nr (paths s p)"
      using receivedSARM_heeded [OF assms(4)] assms(1-3) by metis
    define s1 where "s1 = protocolStateTransition E p RECEIVED_SARM u"
    note b = handshake_begins [OF u(3) _ _ s1_def]
    have s1: "plugin_ok s1" "m_paths s1 p"
      using transition_inv [OF u(2,5)] transition_conf [of u E p RECEIVED_SARM] u(5)
      by (simp_all add: s1_def same_conf_def)
    have tu: "t = protocolStateTransition E p RECEIVED_UA s1"
      using False by (simp add: t_def handshake_def m_receivedUA_def s1_def u(1))
    have "msg_sent (paths t p) = []" "msg_waiting (paths t p) = []" "m_ns (paths t p) = 0"
        "m_NRR (paths t p) = 0" "m_nr (paths t p) = 0"
      using handshake_numbers [OF _ _ s1_def] handshake_numbers [OF _ _ tu] b(1) u(3,4,6-10) na q by simp_all
    with handshake_ends [OF _ _ tu] transition_inv [OF s1] b u(4) na tu show ?thesis by simp
  qed
  have "m_connection_state (paths t p) = (if m_active_path s = None then ACTIVE else PASSIVE)"
    using t na connected_state [of t p] by (auto simp: plugin_ok_def)
  with t show ?thesis by (simp add: t_def)
qed

theorem handshake_activates_witness:
  "m_active_path (handshake default_env Path_A True
       (protocolStateTransition default_env Path_A TCP_CNX_LOST busy_state)) = Some Path_B \<and>
   m_protocol_state (paths (handshake default_env Path_A True
       (protocolStateTransition default_env Path_A TCP_CNX_LOST busy_state)) Path_A) = CONNECTED"
proof -
  define s where "s = protocolStateTransition default_env Path_A TCP_CNX_LOST busy_state"
  have ok: "plugin_ok s" unfolding s_def by (rule transition_inv) simp_all
  have f: "m_active_path s = Some Path_B"
    using failover [of busy_state Path_A Path_B TCP_CNX_LOST default_env]
    by (simp add: s_def loses_connection_def)
  have st: "m_protocol_state (paths s Path_A) = CONNECTION"
    by (simp add: s_def transition_state m_protocolStateTransitionMap_def)
  have tm: "m_last_connected (paths s Path_A) = 0 \<and> m_repeat_timeout (paths s Path_A) = 3000"
    by (simp add: s_def protocolStateTransition_def m_protocolStateTransitionMap_def Let_def action_defs
        busy_path_def connected_path_def new_HNZPath_def default_conf_def)
  have clock: "clock_ms default_env n = 1700000000000 + int n" for n by (simp add: default_env_def)
  show ?thesis
    using handshake_activates [of s Path_A default_env True] ok st tm f
      transition_conf [of busy_state default_env Path_A TCP_CNX_LOST]
    by (simp add: clock s_def [symmetric] same_conf_def)
qed

section \<open>Unanswered SARM\<close>

lemma sendSARM_effect:
  "outs (m_sendSARM E p s) = outs s @ [SendFrame p (m_address_ARP (paths s p)) [SARM_CODE E]]"
  "m_nbr_sarm_sent (paths (m_sendSARM E p s) p) = m_nbr_sarm_sent (paths s p) + 1"
  "m_protocol_state (paths (m_sendSARM E p s) p) = m_protocol_state (paths s p)"
  "m_connection_state (paths (m_sendSARM E p s) p) = m_connection_state (paths s p)"
proof -
  note f = paths_sendFrame [of E p "[SARM_CODE E]" False s]
  show "outs (m_sendSARM E p s) = outs s @ [SendFrame p (m_address_ARP (paths s p)) [SARM_CODE E]]"
    by (simp add: m_sendSARM_def Let_def outs_sendFrame)
  show "m_nbr_sarm_sent (paths (m_sendSARM E p s) p) = m_nbr_sarm_sent (paths s p) + 1"
    "m_protocol_state (paths (m_sendSARM E p s) p) = m_protocol_state (paths s p)"
    "m_connection_state (paths (m_sendSARM E p s) p) = m_connection_state (paths s p)"
    by (simp_all add: m_sendSARM_def Let_def f)
qed

text \<open>What has been sent out stays: an operation only adds to it.\<close>

definition adds :: "sys \<Rightarrow> sys \<Rightarrow> bool" where
  "adds s t \<longleftrightarrow> (\<exists>xs. outs t = outs s @ xs)"

lemma adds_same: "outs t = outs s \<Longrightarrow> adds s t"
  by (simp add: adds_def)

lemma adds_trans: "adds s t \<Longrightarrow> adds t u \<Longrightarrow> adds s u"
  by (auto simp: adds_def)

lemma adds_emit: "adds s t \<Longrightarrow> adds s (emit x t)"
  by (auto simp: adds_def)

lemma adds_monitoring: "adds s (m_sendSouthMonitoringEvent a b s)"
proof -
  have "adds u (m_sendToFledge rs u)" for rs u
    unfolding m_sendToFledge_def
  proof (induction rs arbitrary: u)
    case (Cons r rs)
    have "adds u (ingest r u)" by (simp add: ingest_def adds_emit adds_same)
    with Cons show ?case by (auto intro: adds_trans)
  qed (simp add: adds_same)
  then show ?thesis by (simp add: m_sendSouthMonitoringEvent_def Let_def adds_same)
qed

lemma adds_update_status: "adds s (conn_updateConnectionStatus c s)"
proof -
  have "adds s (m_sendSouthMonitoringEvent True False (s\<lparr>m_connStatus := c, m_qualityUpdateTimer := k\<rparr>))" for k
    by (rule adds_trans [OF adds_same adds_monitoring]) simp
  then have "adds s (updateConnectionStatus c s)"
    by (auto simp: updateConnectionStatus_def Let_def audit_defs intro!: adds_emit intro: adds_same)
  then show ?thesis
    by (auto simp: conn_updateConnectionStatus_def Let_def adds_def)
qed

lemma adds_set_state: "adds s (setConnectionState p st s)"
  by (simp add: setConnectionState_def Let_def sendAuditSuccess_def sendAuditFail_def audit_defs
      m_refreshNameLog_def adds_def)

lemma outs_note_first_input: "outs (note_first_input p s) = outs s"
  by (simp add: note_first_input_def Let_def)

lemma adds_request: "adds s (requestConnectionState p st s)"
proof -
  have set: "adds s (setConnectionState q c u)" if "outs u = outs s" for q c u
    by (rule adds_trans [OF adds_same [OF that] adds_set_state])
  have both: "adds s (conn_updateConnectionStatus c (setConnectionState q c' v))"
    if "adds s v" for c c' q v
    by (rule adds_trans [OF adds_trans [OF that adds_set_state] adds_update_status])
  have lose: "adds s ((setConnectionState p st (note_first_input p s))\<lparr>m_active_path := a, m_gi_repeat := 0\<rparr>)"
    and lose': "adds s ((setConnectionState p st (note_first_input p s))\<lparr>m_gi_repeat := 0, m_active_path := a\<rparr>)" for a
    by (rule adds_trans [OF set [of "note_first_input p s"] adds_same]; simp add: outs_note_first_input)+
  have first: "adds s ((note_first_input p s)\<lparr>m_active_path := a\<rparr>)" for a
    by (simp add: adds_same outs_note_first_input)
  show ?thesis
    by (cases rule: request_cases [OF refl, where p = p and st = st and s = s])
      (use set both [OF lose'] both [OF first] adds_trans [OF lose adds_update_status] in
        \<open>simp_all add: outs_note_first_input\<close>)
qed

text \<open>
  C32. Unanswered SARM: when it is time for the next SARM, a path that has not sent the maximum
  sends it and counts it; a path that has sent the maximum closes its TCP connection, goes back
  to the state without connection and starts counting again.
\<close>
theorem sarm_limit:
  assumes "plugin_ok s" and "m_paths s p"
    and "m_protocol_state (paths s p) \<in> {CONNECTION, INPUT_CONNECTED}"
    and "now - m_last_msg_time (paths s p) \<le> inacc_ms (paths s p)"
    and "now - m_last_sarm_sent_time (paths s p) \<ge> m_repeat_timeout (paths s p)"
  shows "if m_nbr_sarm_sent (paths s p) \<noteq> m_max_sarm (paths s p)
    then outs (snd (m_manageHNZProtocolState E p now s))
           = outs s @ [SendFrame p (m_address_ARP (paths s p)) [SARM_CODE E]] \<and>
         m_nbr_sarm_sent (paths (snd (m_manageHNZProtocolState E p now s)) p) = m_nbr_sarm_sent (paths s p) + 1 \<and>
         m_protocol_state (paths (snd (m_manageHNZProtocolState E p now s)) p) = m_protocol_state (paths s p)
    else (\<exists>xs a. outs (snd (m_manageHNZProtocolState E p now s))
           = outs s @ [StopClient p] @ xs @ [SendFrame p a [SARM_CODE E]]) \<and>
         m_nbr_sarm_sent (paths (snd (m_manageHNZProtocolState E p now s)) p) = 1 \<and>
         m_protocol_state (paths (snd (m_manageHNZProtocolState E p now s)) p) = CONNECTION \<and>
         m_connection_state (paths (snd (m_manageHNZProtocolState E p now s)) p) = DISCONNECTED"
proof -
  have eq: "snd (m_manageHNZProtocolState E p now s)
      = m_sendSARM E p (if m_nbr_sarm_sent (paths s p) = m_max_sarm (paths s p)
                        then protocolStateTransition E p MAX_SARM_SENT s else s)"
    using assms(3-5) by (simp add: m_manageHNZProtocolState_def manage_unconnected_def Let_def)
  define t where "t = protocolStateTransition E p MAX_SARM_SENT s"
  have st: "m_protocol_state (paths t p) = CONNECTION"
    using assms(3) by (auto simp: t_def transition_state m_protocolStateTransitionMap_def)
  have ok: "plugin_ok t" unfolding t_def by (rule transition_inv [OF assms(1,2)])
  have "m_connection_state (paths t p) = DISCONNECTED"
    using sys_okD(3) [of t p] ok st by (simp add: plugin_ok_def agree_def)
  moreover have "m_nbr_sarm_sent (paths t p) = 0"
    unfolding t_def by (rule max_sarm_resets [OF assms(3)])
  moreover have "\<exists>xs. outs t = outs s @ [StopClient p] @ xs"
  proof -
    define u where "u = emit (StopClient p) (upd_path p (\<lambda>x. x\<lparr>m_protocol_state := CONNECTION\<rparr>) s)"
    have "outs t = outs (requestConnectionState p DISCONNECTED u)"
      using assms(3)
      by (auto simp: t_def protocolStateTransition_def m_protocolStateTransitionMap_def Let_def action_defs u_def)
    then show ?thesis using adds_request [of u p DISCONNECTED] by (auto simp: adds_def u_def)
  qed
  ultimately show ?thesis
    unfolding eq using st by (auto simp: sendSARM_effect t_def [symmetric])
qed

theorem sarm_limit_witness:
  "\<exists>xs a. outs (snd (m_manageHNZProtocolState default_env Path_B 5000
      (running_state\<lparr>paths := (paths running_state)(Path_B := (connected_path ''B'' DISCONNECTED)
         \<lparr>m_protocol_state := CONNECTION, m_nbr_sarm_sent := 30\<rparr>)\<rparr>)))
    = outs running_state @ [StopClient Path_B] @ xs @ [SendFrame Path_B a [SARM_CODE default_env]]"
proof -
  define s where "s = running_state\<lparr>paths := (paths running_state)(Path_B := (connected_path ''B'' DISCONNECTED)
         \<lparr>m_protocol_state := CONNECTION, m_nbr_sarm_sent := 30\<rparr>)\<rparr>"
  have b: "paths s Path_B = (connected_path ''B'' DISCONNECTED)\<lparr>m_protocol_state := CONNECTION, m_nbr_sarm_sent := 30\<rparr>"
    "paths s Path_A = connected_path ''A'' ACTIVE"
    by (simp_all add: s_def)
  have ok: "plugin_ok s"
    by (simp add: plugin_ok_def sys_ok_def path_all link_ok_def agree_def sarm_ok_def b path_ok_defs
        first_input_ok_def arbitration_defs present_ok_def gi_ok_def)
      (simp add: s_def)
  have times: "m_last_msg_time (paths s Path_B) = 0" "m_last_sarm_sent_time (paths s Path_B) = 0"
    "m_repeat_timeout (paths s Path_B) = 3000" "inacc_ms (paths s Path_B) = 180000"
    by (simp_all add: b inacc_ms_def connected_path_def new_HNZPath_def default_conf_def)
  show ?thesis
    using sarm_limit [OF ok, of Path_B 5000 default_env] times
    by (simp add: b) (simp add: s_def)
qed

section \<open>Connection and disconnection\<close>

text \<open>The number of attempts the loop makes is the index of the first answer that is positive.\<close>

lemma connect_loop_attempts:
  assumes "path_running (paths s p)" and "conn_running s"
    and "tcp_connected E (reads s + n)" and "\<forall>m < n. \<not> tcp_connected E (reads s + m)"
  shows "\<exists>t. connect_loop E p s = Some t \<and> m_connection_thread (paths t p) \<and>
    outs t = outs s @ replicate (Suc n) (ConnectServer p)"
  using assms
proof (induction n arbitrary: s)
  case 0
  then show ?case by (subst connect_loop_unfold) (simp add: now_connected_def)
next
  case (Suc n)
  define u where "u = asked (emit (ConnectServer p) s)"
  have u: "reads u = Suc (reads s)" "paths u = paths s" "conn_running u" "outs u = outs s @ [ConnectServer p]"
    using Suc.prems(2) by (simp_all add: u_def) (simp_all add: asked_def emit_def)
  have "\<exists>t. connect_loop E p u = Some t \<and> m_connection_thread (paths t p) \<and>
      outs t = outs u @ replicate (Suc n) (ConnectServer p)"
  proof (rule Suc.IH)
    show "\<forall>m < n. \<not> tcp_connected E (reads u + m)"
      using Suc.prems(4) unfolding u(1) add_Suc add_Suc_right [symmetric] by (meson Suc_less_eq)
  qed (use Suc.prems u in simp_all)
  moreover have "\<not> now_connected E s" using Suc.prems(4) by (auto simp: now_connected_def)
  then have "connect_loop E p s = connect_loop E p u"
    using Suc.prems(1,2) by (subst connect_loop_unfold) (simp add: u_def)
  ultimately show ?case by (simp add: u(4))
qed

lemma connect_loop_for_ever:
  assumes "connect_loop E p s = Some t"
  shows "path_running (paths s p) \<Longrightarrow> conn_running s \<Longrightarrow> \<exists>n \<ge> reads s. tcp_connected E n"
proof (rule ccontr)
  assume r: "path_running (paths s p)" "conn_running s" "\<not> (\<exists>n \<ge> reads s. tcp_connected E n)"
  have "path_running (paths s p) \<longrightarrow> conn_running s \<longrightarrow> (\<exists>n \<ge> reads s. tcp_connected E n)"
  proof (rule connect_loop.raw_induct [OF _ assms, where P = "\<lambda>E p s t. path_running (paths s p) \<longrightarrow>
      conn_running s \<longrightarrow> (\<exists>n \<ge> reads s. tcp_connected E n)"])
    fix loop :: "env \<Rightarrow> path_id \<Rightarrow> sys \<Rightarrow> sys option" and E p s t
    assume IH: "\<And>E p s t. loop E p s = Some t \<Longrightarrow> path_running (paths s p) \<longrightarrow> conn_running s \<longrightarrow>
        (\<exists>n \<ge> reads s. tcp_connected E n)"
      and b: "(if path_running (paths s p) \<and> conn_running s
      then
        let s1 = emit (ConnectServer p) s in
        if \<not> path_running (paths s1 p) \<or> \<not> conn_running s1 then Some s1
        else if isTCPConnected E s1
        then Some (upd_path p (\<lambda>x. x\<lparr>m_connection_thread := True\<rparr>) (asked s1))
        else loop E p (asked s1)
      else Some s) = Some t"
    show "path_running (paths s p) \<longrightarrow> conn_running s \<longrightarrow> (\<exists>n \<ge> reads s. tcp_connected E n)"
    proof (intro impI)
      assume s: "path_running (paths s p)" "conn_running s"
      define u where "u = asked (emit (ConnectServer p) s)"
      have u: "reads u = Suc (reads s)" "paths u = paths s" "conn_running u = conn_running s"
        by (simp_all add: u_def) (simp_all add: asked_def emit_def)
      show "\<exists>n \<ge> reads s. tcp_connected E n"
      proof (cases "tcp_connected E (reads s)")
        case False
        then have "loop E p u = Some t"
          using b s by (simp add: Let_def u_def isTCPConnected_def now_connected_def emit_def)
        with IH [OF this] s u show ?thesis by (metis Suc_leD)
      qed auto
    qed
  qed
  with r show False by blast
qed

text \<open>
  C31. Connecting: while nobody stops it, a path returns from \<open>connect\<close> exactly when the socket
  answers that it is connected at some later time; it has then tried once for each answer up to
  the first positive one, and its thread runs.
\<close>
theorem connect_returns:
  assumes "conn_running s"
  shows "((\<exists>t. connect E p s = Some t) \<longleftrightarrow> (\<exists>n > reads s. tcp_connected E n)) \<and>
    (\<forall>n > reads s. tcp_connected E n \<longrightarrow> (\<forall>m. reads s < m \<and> m < n \<longrightarrow> \<not> tcp_connected E m) \<longrightarrow>
       (\<exists>t. connect E p s = Some t \<and> m_connection_thread (paths t p) \<and>
          outs t = outs s @ replicate (n - reads s) (ConnectServer p)))"
proof -
  define u where "u = connect_begin E p s"
  have u: "path_running (paths u p)" "conn_running u" "reads u = Suc (reads s)" "outs u = outs s"
    using assms by (simp_all add: u_def connect_begin_def upd_path_def asked_def)
  have eq: "connect E p s = connect_loop E p u" by (simp add: connect_def u_def)
  have first: "\<exists>t. connect E p s = Some t \<and> m_connection_thread (paths t p) \<and>
      outs t = outs s @ replicate (n - reads s) (ConnectServer p)"
    if "n > reads s" "tcp_connected E n" "\<forall>m. reads s < m \<and> m < n \<longrightarrow> \<not> tcp_connected E m" for n
  proof -
    define k where "k = n - Suc (reads s)"
    have k: "reads u + k = n" "n - reads s = Suc k" using that(1) by (simp_all add: k_def u)
    have "\<forall>m < k. \<not> tcp_connected E (reads u + m)" using that(3) k by (auto simp: u)
    with connect_loop_attempts [OF u(1,2), of E k] that(2) show ?thesis
      unfolding eq k(2) by (simp add: k(1) u(4))
  qed
  have "\<exists>t. connect E p s = Some t" if "n > reads s" "tcp_connected E n" for n
  proof -
    define m where "m = (LEAST m. reads s < m \<and> tcp_connected E m)"
    have "reads s < m \<and> tcp_connected E m"
      unfolding m_def by (rule LeastI [of _ n]) (use that in simp)
    moreover have "\<not> tcp_connected E k" if "reads s < k" "k < m" for k
      using not_less_Least [of k "\<lambda>m. reads s < m \<and> tcp_connected E m"] that by (auto simp: m_def)
    ultimately show ?thesis using first [of m] by blast
  qed
  moreover have "\<exists>n > reads s. tcp_connected E n" if "connect E p s = Some t" for t
    using connect_loop_for_ever [of E p u t] that u by (auto simp: eq Suc_le_eq)
  ultimately show ?thesis using first by blast
qed

theorem connect_returns_witness:
  "\<exists>t. connect (default_env\<lparr>tcp_connected := (\<lambda>n. n \<ge> 3)\<rparr>) Path_B running_state = Some t \<and>
     m_connection_thread (paths t Path_B) \<and> outs t = outs running_state @ replicate 3 (ConnectServer Path_B)"
  using connect_returns [of running_state "default_env\<lparr>tcp_connected := (\<lambda>n. n \<ge> 3)\<rparr>" Path_B] by auto

text \<open>
  C25. Stopping the connection leaves no active path: every path is back in the state without
  connection, with empty queues, and Fledge has been told that the plugin is not connected.
\<close>
theorem stop_disconnects:
  assumes "plugin_ok s" and "m_paths s p"
  shows "m_active_path (connection_stop E s) = None \<and> m_connStatus (connection_stop E s) = CS_NOT_CONNECTED \<and>
    \<not> conn_running (connection_stop E s) \<and> m_gi_repeat (connection_stop E s) = 0 \<and>
    m_protocol_state (paths (connection_stop E s) p) = CONNECTION \<and>
    m_connection_state (paths (connection_stop E s) p) = DISCONNECTED \<and>
    msg_sent (paths (connection_stop E s) p) = [] \<and> msg_waiting (paths (connection_stop E s) p) = []"
proof -
  define t where "t = connection_stop E s"
  have t: "plugin_ok t" "m_active_path t = None" "\<not> conn_running t"
    "m_protocol_state (paths t p) = CONNECTION"
    using connection_stop_inv [OF assms(1), of E] assms(2) by (simp_all add: t_def)
  have "path_ok (paths t p)" "agree (paths t p)" "arbitration_ok t" "gi_ok t"
    using t(1) sys_okD by (auto simp: plugin_ok_def)
  with t show ?thesis
    by (cases "m_connStatus t")
      (simp_all add: t_def [symmetric] path_ok_defs agree_def arbitration_defs gi_ok_def)
qed

theorem stop_disconnects_witness:
  "m_active_path (connection_stop default_env busy_state) = None \<and>
   msg_waiting (paths (connection_stop default_env busy_state) Path_A) = []"
  using stop_disconnects [of busy_state Path_A default_env] by simp

end
