(* ===== verification/HNZ_GI_Properties.thy ===== *)
theory HNZ_GI_Properties
  imports HNZ_Switch_Properties
begin

text \<open>
  What the general interrogation promises: a request that is sent is counted and timed, it is
  repeated a bounded number of times as long as the window has room, its end reports the points that did not answer, a scheduled GI is sent
  once a day; and where it goes wrong when the active path is lost.
\<close>

section \<open>A request\<close>

lemma outs_sendToFledge:
  "outs (m_sendToFledge rs s) = outs s @ (if m_ingest s then map Ingest rs else [])"
proof -
  have "outs (fold ingest rs s) = outs s @ (if m_ingest s then map Ingest rs else []) \<and>
      m_ingest (fold ingest rs s) = m_ingest s"
    by (induction rs arbitrary: s) (simp_all add: ingest_def emit_def)
  then show ?thesis by (simp add: m_sendToFledge_def)
qed

lemma outs_updateGiStatus: "\<exists>ev. outs (updateGiStatus st s) = outs s @ ev \<and> length ev \<le> 1"
  by (auto simp: updateGiStatus_def m_sendSouthMonitoringEvent_def Let_def outs_sendToFledge)

lemma notifyGIsent_effect:
  "m_gi_repeat (notifyGIsent E s) = m_gi_repeat s + 1"
  "m_gi_start_time (notifyGIsent E s) \<in> range (clock_ms E)"
  "m_giStatus (notifyGIsent E s)
     = (if m_gi_repeat s = 0 \<or> m_giStatus s \<noteq> GI_IN_PROGRESS then GI_STARTED else GI_IN_PROGRESS)"
  "\<exists>ev. outs (notifyGIsent E s) = outs s @ ev \<and> length ev \<le> 1"
  using outs_updateGiStatus [of GI_STARTED s]
  by (auto simp: notifyGIsent_def Let_def getGiStatus_def asked_def now_ms_def)

text \<open>What a request on the active path does, with an open and with a full window.\<close>

definition request_waits :: "path_id \<Rightarrow> sys \<Rightarrow> sys" where
  "request_waits p = upd_path p (\<lambda>x. x\<lparr>msg_waiting := msg_waiting x @ [\<lparr>ns = 0, payload = gi_message\<rparr>]\<rparr>)"

lemma sendGI_effect:
  assumes "plugin_ok s" and "m_active_path s = Some p"
  shows "if window_open (paths s p)
    then (\<exists>ctl ev. outs (sendGeneralInterrogation E p s)
             = outs s @ [SendFrame p (m_address_ARP (paths s p)) (ctl # gi_message)] @ ev \<and> length ev \<le> 1) \<and>
         m_gi_repeat (sendGeneralInterrogation E p s) = m_gi_repeat s + 1 \<and>
         m_gi_start_time (sendGeneralInterrogation E p s) \<in> range (clock_ms E) \<and>
         m_giStatus (sendGeneralInterrogation E p s)
           = (if m_gi_repeat s = 0 \<or> m_giStatus s \<noteq> GI_IN_PROGRESS then GI_STARTED else GI_IN_PROGRESS)
    else sendGeneralInterrogation E p s = request_waits p s"
proof -
  have nd: "\<not> discarded (paths s p) gi_message"
    using active_is_connected(1) [of s p] assms by (simp add: discarded_def plugin_ok_def)
  show ?thesis
  proof (cases "window_open (paths s p)")
    case False
    with nd show ?thesis
      by (simp add: sendGeneralInterrogation_def m_sendInfo_def Let_def request_waits_def)
  next
    case True
    obtain ok t where r: "m_sendInfoImmediately E p \<lparr>ns = 0, payload = gi_message\<rparr> s = (ok, t)" by fastforce
    then have si: "m_sendInfo E p gi_message s = (ok, t)"
      using True nd by (simp add: m_sendInfo_def Let_def)
    have ok: "ok" "outs t = outs s @ [SendFrame p (m_address_ARP (paths s p))
         (u8 (m_nr (paths s p) * 0x20 + m_ns (paths s p) * 0x2) # gi_message)]"
      using r nd by (cases rule: sendInfoImmediately_cases; simp)+
    have "sendGeneralInterrogation E p s = notifyGIsent E t"
      using si ok by (simp add: sendGeneralInterrogation_def)
    moreover have "m_gi_repeat t = m_gi_repeat s" "m_giStatus t = m_giStatus s"
      using sendInfo_connection(5,11) [of E p gi_message s] si by simp_all
    ultimately show ?thesis
      using True ok(2) notifyGIsent_effect [of E t] by auto
  qed
qed

section \<open>The report of the missing signals\<close>

text \<open>The reading that reports a signal that did not answer: no value, invalid, not outdated.\<close>

definition missing_reading :: "sys \<Rightarrow> int \<Rightarrow> int \<times> string \<Rightarrow> Reading" where
  "missing_reading s now point =
     Reading (snd point) ''data_object'' (DP_dict
       [(''do_type'', DP_str ''TS''), (''do_station'', DP_int (hnz_remote_address s)),
        (''do_addr'', DP_int (fst point)), (''do_valid'', DP_int 1), (''do_cg'', DP_int 0),
        (''do_outdated'', DP_int 0), (''do_ts'', DP_int (s64 now)), (''do_ts_iv'', DP_int 0),
        (''do_ts_c'', DP_int 0), (''do_ts_s'', DP_int 0)])"

lemma sendAllTS_outs:
  assumes "msg_leaf (m_hnz_conf s) ''TS'' (hnz_remote_address s) = Some points"
    and "m_sendAllTSQualityReadings E True False received s = Inr t"
  shows "outs t = outs s @ (if m_ingest s
    then map (\<lambda>q. Ingest (missing_reading s (now_ms E s) q)) (filter (\<lambda>q. fst q \<notin> set received) points)
    else [])"
proof -
  have prep: "m_prepare_reading (new_ReadingParameters\<lparr>rp_msg_code := ''TS'',
      rp_station_addr := hnz_remote_address s, rp_valid := 1, rp_outdated := False, rp_cg := False,
      rp_ts := now_ms E s, rp_qualityUpdate := True, rp_label := snd q, rp_msg_address := fst q\<rparr>)
      = missing_reading s (now_ms E s) q" for q
    by (simp add: m_prepare_reading_def new_ReadingParameters_def missing_reading_def Let_def)
  have split: "(\<lambda>(msg_address, _). msg_address \<notin> set received) = (\<lambda>q. fst q \<notin> set received)"
    by auto
  define rs where "rs = map (missing_reading s (now_ms E s)) (filter (\<lambda>q. fst q \<notin> set received) points)"
  have "t = (if rs \<noteq> [] then m_sendToFledge rs (asked s) else asked s)"
    using assms(1) assms(2) [symmetric]
    unfolding m_sendAllTSQualityReadings_def m_sendAllTIQualityReadings_def Let_def rs_def split
    by (simp add: prep case_prod_beta' asked_def)
  then have "outs t = outs s @ (if m_ingest s then map Ingest rs else [])"
    by (simp add: outs_sendToFledge) (simp add: asked_def)
  then show ?thesis by (simp add: rs_def o_def)
qed

section \<open>The schedule\<close>

text \<open>What the check of the schedule depends on; a request and the end of a GI leave it alone.\<close>

definition schedule_of :: "sys \<Rightarrow> GIScheduleFormat \<times> bool \<times> int \<times> int \<times> int" where
  "schedule_of s = (m_gi_schedule s, m_gi_schedule_already_sent s, m_gi_scheduled_time s,
     m_days_since_epoch s, m_current s)"

definition schedule_due :: "sys \<Rightarrow> bool" where
  "schedule_due s \<longleftrightarrow> activate (m_gi_schedule s) \<and> \<not> m_gi_schedule_already_sent (new_day s) \<and>
     u64 (m_gi_scheduled_time (new_day s)) \<le> m_current s"

lemma schedule_of_path_only: "path_only p s t \<Longrightarrow> schedule_of t = schedule_of s"
  by (simp add: schedule_of_def path_only_fields)

lemma schedule_of_fledge_only: "fledge_only s t \<Longrightarrow> schedule_of t = schedule_of s"
  unfolding fledge_only_def by (erule ssubst) (simp add: schedule_of_def)

lemma schedule_of_sendGI: "schedule_of (sendGeneralInterrogation E p s) = schedule_of s"
proof -
  have "schedule_of (notifyGIsent E u) = schedule_of u" for u
    using schedule_of_fledge_only [OF fledge_only_updateGiStatus [of u GI_STARTED]]
    by (simp add: notifyGIsent_def Let_def asked_def schedule_of_def)
  moreover have "schedule_of (snd (m_sendInfo E p gi_message s)) = schedule_of s"
    using link_step_sendInfo [of p s E gi_message] unfolding link_step_def by (blast intro: schedule_of_path_only)
  ultimately show ?thesis by (simp add: sendGeneralInterrogation_def case_prod_beta)
qed

lemma schedule_not_due:
  assumes "schedule_of u = schedule_of s" and "\<not> schedule_due s"
  shows "scheduled_GI E (new_day u) = new_day u"
  using assms by (auto simp: schedule_of_def schedule_due_def scheduled_GI_def new_day_def gi_time_of_day_def)

lemma new_day_fields [simp]:
  "outs (new_day s) = outs s" "paths (new_day s) = paths s" "m_gi_repeat (new_day s) = m_gi_repeat s"
  "m_gi_start_time (new_day s) = m_gi_start_time s" "m_gi_time_max (new_day s) = m_gi_time_max s"
  "m_giStatus (new_day s) = m_giStatus s" "m_giInQueue (new_day s) = m_giInQueue s"
  "m_gi_addresses_received (new_day s) = m_gi_addresses_received s" "m_current (new_day s) = m_current s"
  by (simp_all add: new_day_def)

section \<open>Repetition of a request\<close>

text \<open>The state in which the end of a GI starts the delayed one: the closing has only reported.\<close>

lemma GICompleted_reports:
  assumes "plugin_ok s" and "points_ok ''TS'' s"
  obtains u reports where "GICompleted E success s = start_delayed_GI E u" "plugin_ok u"
    "m_gi_repeat u = 0" "m_giStatus u = (if success then GI_FINISHED else GI_FAILED)"
    "m_gi_addresses_received u = []" "m_active_path u = m_active_path s" "m_giInQueue u = m_giInQueue s"
    "paths u = paths s" "outs u = outs s @ reports" "schedule_of u = schedule_of s"
proof (rule GICompleted_closes [OF assms, of E success])
  fix u s2
  assume u: "GICompleted E success s = start_delayed_GI E u" "plugin_ok u"
    "m_gi_repeat u = 0" "m_giStatus u = (if success then GI_FINISHED else GI_FAILED)"
    "m_gi_addresses_received u = []" "m_active_path u = m_active_path s" "m_giInQueue u = m_giInQueue s"
    "paths u = paths s"
    and s2: "m_sendAllTSQualityReadings E True False (m_gi_addresses_received s) (onGICompleted s) = Inr s2"
      "fledge_only (onGICompleted s) s2"
      "u = resetGIQueue (updateGiStatus (if success then GI_FINISHED else GI_FAILED) s2)"
  have "schedule_of u = schedule_of s"
    using schedule_of_fledge_only [OF s2(2)] schedule_of_fledge_only [OF fledge_only_updateGiStatus]
    by (simp add: s2(3) resetGIQueue_def onGICompleted_def schedule_of_def)
  moreover obtain points where "msg_leaf (m_hnz_conf (onGICompleted s)) ''TS'' (hnz_remote_address (onGICompleted s)) = Some points"
    using assms(2) by (auto simp: points_ok_def onGICompleted_def)
  from sendAllTS_outs [OF this s2(1)] obtain r where "outs s2 = outs s @ r"
    by (simp add: onGICompleted_def)
  moreover obtain ev where "outs (updateGiStatus (if success then GI_FINISHED else GI_FAILED) s2) = outs s2 @ ev"
    using outs_updateGiStatus by blast
  ultimately show thesis
    using that u s2(3) by (simp add: resetGIQueue_def)
qed

text \<open>The outcome of a timeout, by the count and the window.\<close>

lemma checkGI_repeats:
  assumes "plugin_ok s" and "m_active_path s = Some p" and "\<not> m_gi_repeat s > m_gi_repeat_count_max s"
  shows "checkGICompleted E False s = Inr (sendGeneralInterrogation E p (resetGIQueue s))"
    and "plugin_ok (resetGIQueue s)" and "m_active_path (resetGIQueue s) = Some p"
  using assms inv_cong [of "resetGIQueue s" s]
  by (simp_all add: checkGICompleted_def Let_def resetGIQueue_def)

lemma resetGIQueue_fields [simp]:
  "outs (resetGIQueue s) = outs s" "paths (resetGIQueue s) = paths s"
  "m_gi_repeat (resetGIQueue s) = m_gi_repeat s" "m_giStatus (resetGIQueue s) = m_giStatus s"
  "m_giInQueue (resetGIQueue s) = m_giInQueue s" "m_gi_addresses_received (resetGIQueue s) = []"
  "schedule_of (resetGIQueue s) = schedule_of s"
  by (simp_all add: resetGIQueue_def schedule_of_def)

lemma request_waits_fields [simp]:
  "outs (request_waits p s) = outs s" "m_gi_repeat (request_waits p s) = m_gi_repeat s"
  "m_giStatus (request_waits p s) = m_giStatus s" "m_giInQueue (request_waits p s) = m_giInQueue s"
  "m_gi_addresses_received (request_waits p s) = m_gi_addresses_received s"
  by (simp_all add: request_waits_def upd_path_def)

lemma received_sendGI:
  "m_gi_addresses_received (sendGeneralInterrogation E p s) = m_gi_addresses_received s"
proof -
  have "path_only p s (snd (m_sendInfo E p gi_message s))"
    using link_step_sendInfo by (simp add: link_step_def)
  from path_only_fields(18) [OF this] show ?thesis
    by (simp add: sendGeneralInterrogation_def case_prod_beta notifyGIsent_def Let_def asked_def)
qed

lemma timeout_repeats:
  assumes "plugin_ok s" and "m_active_path s = Some p" and "gi_timed_out s"
    and "\<not> m_gi_repeat s > m_gi_repeat_count_max s" and "\<not> schedule_due s"
  shows "m_check_GI E s = Inr (new_day (sendGeneralInterrogation E p (resetGIQueue s)))"
  using assms(3,5) checkGI_repeats(1) [OF assms(1,2,4), of E]
    schedule_not_due [of "sendGeneralInterrogation E p (resetGIQueue s)" s]
  by (simp add: m_check_GI_def schedule_of_sendGI)

lemma timeout_full_window:
  assumes "plugin_ok s" and "m_active_path s = Some p" and "gi_timed_out s"
    and "\<not> m_gi_repeat s > m_gi_repeat_count_max s" and "\<not> schedule_due s" and "\<not> window_open (paths s p)"
  shows "m_check_GI E s = Inr (new_day (request_waits p (resetGIQueue s)))"
  using timeout_repeats [OF assms(1-5)] sendGI_effect [OF checkGI_repeats(2,3) [OF assms(1,2,4)]] assms(6)
  by simp

lemma timeout_closes:
  assumes "plugin_ok s" and "points_ok ''TS'' s" and "m_active_path s = Some p" and "gi_timed_out s"
    and "m_gi_repeat s > m_gi_repeat_count_max s" and "\<not> schedule_due s"
  obtains u reports where "plugin_ok u" "m_gi_repeat u = 0" "m_giStatus u = GI_FAILED"
    "m_gi_addresses_received u = []" "m_active_path u = Some p" "m_giInQueue u = m_giInQueue s"
    "paths u = paths s" "outs u = outs s @ reports"
    "m_check_GI E s = Inr (new_day (if m_giInQueue s
       then (sendGeneralInterrogation E p u)\<lparr>m_giInQueue := False\<rparr> else u))"
proof (rule GICompleted_reports [OF assms(1,2), of E False])
  fix u reports
  assume u: "GICompleted E False s = start_delayed_GI E u" "plugin_ok u"
    "m_gi_repeat u = 0" "m_giStatus u = (if False then GI_FINISHED else GI_FAILED)"
    "m_gi_addresses_received u = []" "m_active_path u = m_active_path s" "m_giInQueue u = m_giInQueue s"
    "paths u = paths s" "outs u = outs s @ reports" "schedule_of u = schedule_of s"
  define v where "v = (if m_giInQueue s
       then (sendGeneralInterrogation E p u)\<lparr>m_giInQueue := False\<rparr> else u)"
  have "checkGICompleted E False s = Inr v"
    using assms(3,5) u by (simp add: checkGICompleted_def start_delayed_GI_def getActivePath_def v_def)
  moreover have "schedule_of (w\<lparr>m_giInQueue := False\<rparr>) = schedule_of w" for w
    by (simp add: schedule_of_def)
  then have "schedule_of v = schedule_of s" using u(10) by (simp add: v_def schedule_of_sendGI)
  ultimately have "m_check_GI E s = Inr (new_day v)"
    using assms(4,6) schedule_not_due by (simp add: m_check_GI_def)
  with that u assms(3) show thesis by (simp add: v_def)
qed

text \<open>
  C16. The check of a general interrogation in a turn in which no scheduled one is due.  It does
  nothing unless a request is counted and the time since the last one has run out.  Then the
  addresses received so far are forgotten.  Up to the configured count the request is repeated:
  with room in the window it is sent, counted and timed anew; with a full window it joins the
  waiting messages, but is neither counted nor timed, so that the GI stays timed out and the next
  turn repeats it again.  Beyond the count the GI is closed as failed and a delayed one starts.
\<close>
theorem gi_timeout:
  assumes "plugin_ok s" and "points_ok ''TS'' s" and "m_active_path s = Some p" and "\<not> schedule_due s"
  shows "\<exists>t. m_check_GI E s = Inr t \<and>
    (if m_gi_repeat s = 0 \<or> m_current s \<le> u64 (m_gi_start_time s + m_gi_time_max s) then t = new_day s
     else m_gi_addresses_received t = [] \<and>
      (if m_gi_repeat s \<le> m_gi_repeat_count_max s
       then m_giInQueue t = m_giInQueue s \<and>
        (if window_open (paths s p)
         then (\<exists>ctl ev. outs t = outs s @ [SendFrame p (m_address_ARP (paths s p)) (ctl # gi_message)] @ ev
                 \<and> length ev \<le> 1) \<and>
              m_gi_repeat t = m_gi_repeat s + 1 \<and> m_gi_start_time t \<in> range (clock_ms E) \<and>
              m_giStatus t = (if m_giStatus s = GI_IN_PROGRESS then GI_IN_PROGRESS else GI_STARTED)
         else t = new_day (request_waits p (resetGIQueue s)) \<and> m_gi_repeat t = m_gi_repeat s \<and> gi_timed_out t)
       else \<not> m_giInQueue t \<and>
        (\<exists>reports.
          if m_giInQueue s \<and> window_open (paths s p)
          then (\<exists>ctl ev. outs t = outs s @ reports
                   @ [SendFrame p (m_address_ARP (paths s p)) (ctl # gi_message)] @ ev \<and> length ev \<le> 1) \<and>
               m_gi_repeat t = 1 \<and> m_gi_start_time t \<in> range (clock_ms E) \<and> m_giStatus t = GI_STARTED
          else outs t = outs s @ reports \<and> m_gi_repeat t = 0 \<and> m_giStatus t = GI_FAILED \<and>
               paths t = (if m_giInQueue s then paths (request_waits p s) else paths s))))"
proof (cases "gi_timed_out s")
  case False
  then have "m_check_GI E s = Inr (new_day s)"
    using assms(4) schedule_not_due [of s s] by (simp add: m_check_GI_def)
  with False show ?thesis by (intro exI [of _ "new_day s"]) (auto simp: gi_timed_out_def)
next
  case True
  then have late: "\<not> (m_gi_repeat s = 0 \<or> m_current s \<le> u64 (m_gi_start_time s + m_gi_time_max s))"
    by (auto simp: gi_timed_out_def)
  show ?thesis
  proof (cases "m_gi_repeat s > m_gi_repeat_count_max s")
    case False
    note r = checkGI_repeats(2,3) [OF assms(1,3) False]
    note eq = timeout_repeats [OF assms(1,3) True False assms(4), of E]
    show ?thesis
    proof (cases "window_open (paths s p)")
      case w: True
      show ?thesis
        using sendGI_effect [OF r, of E] late False w eq
        by (auto simp: sendGI_fields received_sendGI)
    next
      case w: False
      define t where "t = new_day (request_waits p (resetGIQueue s))"
      have "m_check_GI E s = Inr t"
        using timeout_full_window [OF assms(1,3) True False assms(4) w] by (simp add: t_def)
      moreover have "gi_timed_out t"
        using True by (simp add: t_def gi_timed_out_def) (simp add: request_waits_def upd_path_def resetGIQueue_def)
      ultimately show ?thesis
        using late False w by (intro exI [of _ t]) (simp add: t_def)
    qed
  next
    case beyond: True
    obtain u reports where u: "plugin_ok u" "m_gi_repeat u = 0" "m_giStatus u = GI_FAILED"
      "m_gi_addresses_received u = []" "m_active_path u = Some p" "m_giInQueue u = m_giInQueue s"
      "paths u = paths s" "outs u = outs s @ reports"
      "m_check_GI E s = Inr (new_day (if m_giInQueue s
         then (sendGeneralInterrogation E p u)\<lparr>m_giInQueue := False\<rparr> else u))"
      by (rule timeout_closes [OF assms(1-3) True beyond assms(4)])
    note e = sendGI_effect [OF u(1,5), of E]
    show ?thesis
    proof (cases "m_giInQueue s")
      case False
      with late beyond u show ?thesis by (intro exI [of _ "new_day u"]) auto
    next
      case q: True
      have "paths (request_waits p u) = paths (request_waits p s)"
        using u(7) by (simp add: request_waits_def upd_path_def)
      with e q late beyond u show ?thesis
        by (intro exI [of _ "new_day ((sendGeneralInterrogation E p u)\<lparr>m_giInQueue := False\<rparr>)"])
          (auto simp: received_sendGI split: if_splits)
    qed
  qed
qed

theorem gi_timeout_witness:
  "\<exists>t ctl ev. m_check_GI default_env (running_state\<lparr>m_gi_repeat := 2, m_giStatus := GI_IN_PROGRESS,
      m_gi_start_time := 1699999744999, m_gi_addresses_received := [16, 17]\<rparr>) = Inr t \<and>
    outs t = [SendFrame Path_A (m_address_ARP (connected_path ''A'' ACTIVE)) (ctl # gi_message)] @ ev \<and>
    m_gi_addresses_received t = [] \<and> m_gi_repeat t = 3"
proof -
  define s where "s = running_state\<lparr>m_gi_repeat := 2, m_giStatus := GI_IN_PROGRESS,
      m_gi_start_time := 1699999744999, m_gi_addresses_received := [16, 17]\<rparr>"
  have "plugin_ok s"
    by (simp add: s_def plugin_ok_def sys_ok_def path_all link_ok_def agree_def sarm_ok_def
      first_input_ok_def arbitration_defs present_ok_def gi_ok_def)
  moreover have "points_ok ''TS'' s"
    by (simp add: s_def points_ok_def msg_leaf_def default_conf_def)
  moreover have "\<not> schedule_due s"
    by (simp add: s_def schedule_due_def) (simp add: running_state_def new_HNZ_def)
  moreover have "m_active_path s = Some Path_A" "window_open (paths s Path_A)"
    "paths s Path_A = connected_path ''A'' ACTIVE" "outs s = []"
    "m_gi_repeat s = 2" "m_gi_repeat_count_max s = 3"
    "\<not> m_current s \<le> u64 (m_gi_start_time s + m_gi_time_max s)"
    by (simp_all add: s_def window_open_def) (simp_all add: running_state_def new_HNZ_def u64_def)
  ultimately show ?thesis
    using gi_timeout [of s Path_A default_env] by (auto simp: s_def [symmetric])
qed

text \<open>
  As long as the window stays full, every turn after the timeout leaves one more request in the
  queue and none is counted: the GI neither fails nor ends, however long this lasts.
\<close>

lemma uncounted_requests:
  assumes "plugin_ok s" and "m_active_path s = Some p" and "\<not> window_open (paths s p)"
    and "m_gi_repeat s \<noteq> 0" and "\<not> m_gi_repeat s > m_gi_repeat_count_max s" and "\<not> activate (m_gi_schedule s)"
    and "\<forall>now \<in> set nows. u64 (m_gi_start_time s + m_gi_time_max s) < now"
  shows "\<exists>t. efold (\<lambda>now s. m_check_GI E (s\<lparr>m_current := now\<rparr>)) nows s = Inr t \<and>
    outs t = outs s \<and> m_gi_repeat t = m_gi_repeat s \<and>
    msg_waiting (paths t p)
      = msg_waiting (paths s p) @ replicate (length nows) \<lparr>ns = 0, payload = gi_message\<rparr>"
  using assms
proof (induction nows arbitrary: s)
  case (Cons now nows)
  define s1 where "s1 = s\<lparr>m_current := now\<rparr>"
  define t where "t = new_day (request_waits p (resetGIQueue s1))"
  have s1: "plugin_ok s1" "m_active_path s1 = Some p" "gi_timed_out s1"
    "\<not> m_gi_repeat s1 > m_gi_repeat_count_max s1" "\<not> schedule_due s1" "\<not> window_open (paths s1 p)"
    using Cons.prems inv_cong [of s1 s] by (simp_all add: s1_def gi_timed_out_def schedule_due_def)
  have eq: "m_check_GI E s1 = Inr t"
    using timeout_full_window [OF s1] by (simp add: t_def)
  have f: "m_active_path t = m_active_path s" "m_gi_repeat_count_max t = m_gi_repeat_count_max s"
    "m_gi_schedule t = m_gi_schedule s" "m_gi_time_max t = m_gi_time_max s"
    "m_gi_start_time t = m_gi_start_time s" "m_gi_repeat t = m_gi_repeat s" "outs t = outs s"
    "paths t p = (paths s p)\<lparr>msg_waiting := msg_waiting (paths s p) @ [\<lparr>ns = 0, payload = gi_message\<rparr>]\<rparr>"
    by (simp_all add: t_def s1_def request_waits_def upd_path_def resetGIQueue_def new_day_def)
  have "request_waits p (resetGIQueue s1) = sendGeneralInterrogation E p (resetGIQueue s1)"
    using sendGI_effect [OF checkGI_repeats(2,3) [OF s1(1,2,4)], of E] s1(6) by simp
  then have "plugin_ok (request_waits p (resetGIQueue s1))"
    using sendGI_inv checkGI_repeats(2,3) [OF s1(1,2,4)] by simp
  then have "plugin_ok t"
    unfolding t_def by (subst inv_cong) (simp_all add: new_day_def)
  moreover have "\<not> window_open (paths t p)" using Cons.prems(3) by (simp add: f window_open_def)
  ultimately obtain u where "efold (\<lambda>now s. m_check_GI E (s\<lparr>m_current := now\<rparr>)) nows t = Inr u"
    "outs u = outs t" "m_gi_repeat u = m_gi_repeat t"
    "msg_waiting (paths u p) = msg_waiting (paths t p) @ replicate (length nows) \<lparr>ns = 0, payload = gi_message\<rparr>"
    using Cons.IH [of t] Cons.prems by (auto simp: f)
  with eq show ?case by (simp add: s1_def [symmetric] f)
qed simp

section \<open>The end of the interrogation\<close>

text \<open>The monitoring event that tells Fledge a new status of the GI.\<close>

definition gi_event :: "sys \<Rightarrow> GiStatus \<Rightarrow> effect list" where
  "gi_event s st =
     (let asset = get_connx_status_signal (m_hnz_conf s) in
      if asset = [] then []
      else [Ingest (Reading asset ''south_event'' (DP_dict [(''gi_status'', DP_str (gi_status_text st))]))])"

lemma outs_gi_event:
  assumes "m_ingest s"
  shows "outs (updateGiStatus st s) = outs s @ (if m_giStatus s = st then [] else gi_event s st)"
  using assms
  by (simp add: updateGiStatus_def gi_event_def m_sendSouthMonitoringEvent_def Let_def outs_sendToFledge)

lemma gi_event_cong: "m_hnz_conf t = m_hnz_conf s \<Longrightarrow> gi_event t = gi_event s"
  by (simp add: gi_event_def fun_eq_iff)

definition gi_outcome :: "bool \<Rightarrow> GiStatus" where
  "gi_outcome success = (if success then GI_FINISHED else GI_FAILED)"

definition missing_effects :: "env \<Rightarrow> sys \<Rightarrow> int list \<Rightarrow> (int \<times> string) list \<Rightarrow> effect list" where
  "missing_effects E s received points =
     map (\<lambda>q. Ingest (missing_reading s (now_ms E s) q)) (filter (\<lambda>q. fst q \<notin> set received) points)"

lemma gi_end:
  assumes "msg_leaf (m_hnz_conf s) ''TS'' (hnz_remote_address s) = Some points"
    and "m_ingest s" and "\<not> m_giInQueue s"
  shows "\<exists>t. GICompleted E success s = Inr t \<and>
    outs t = outs s @ missing_effects E s (m_gi_addresses_received s) points @
      (if m_giStatus s = gi_outcome success then [] else gi_event s (gi_outcome success)) \<and>
    m_giStatus t = gi_outcome success \<and> m_gi_repeat t = 0 \<and> m_gi_addresses_received t = []"
proof -
  define s1 where "s1 = onGICompleted s"
  have s1: "msg_leaf (m_hnz_conf s1) ''TS'' (hnz_remote_address s1) = Some points" "m_ingest s1"
    "outs s1 = outs s" "m_gi_addresses_received s1 = m_gi_addresses_received s" "m_gi_repeat s1 = 0"
    "missing_reading s1 = missing_reading s" "now_ms E s1 = now_ms E s" "\<not> m_giInQueue s1"
    "m_hnz_conf s1 = m_hnz_conf s" "m_giStatus s1 = m_giStatus s"
    using assms by (simp_all add: s1_def onGICompleted_def missing_reading_def now_ms_def fun_eq_iff)
  have "points_ok ''TS'' s1" using s1(1) by (simp add: points_ok_def)
  then obtain s2 where s2: "m_sendAllTSQualityReadings E True False (m_gi_addresses_received s1) s1 = Inr s2"
      "fledge_only s1 s2" "m_giStatus s2 = m_giStatus s1"
    using sendAllTS_total [of s1 E True False "m_gi_addresses_received s1"] by auto
  define t where "t = resetGIQueue (updateGiStatus (gi_outcome success) s2)"
  note f = fledge_only_fields [OF s2(2)] fledge_only_fields [OF fledge_only_updateGiStatus [of s2 "gi_outcome success"]]
  have "GICompleted E success s = start_delayed_GI E t"
    by (simp add: GICompleted_def Let_def s1_def [symmetric] s2(1) t_def gi_outcome_def)
  moreover have "\<not> m_giInQueue t" using s1(8) f by (simp add: t_def resetGIQueue_def)
  ultimately have eq: "GICompleted E success s = Inr t" by (simp add: start_delayed_GI_def)
  have "outs t = outs s2 @ (if m_giStatus s = gi_outcome success then [] else gi_event s (gi_outcome success))"
    using outs_gi_event [of s2 "gi_outcome success"] s1(2,9,10) s2(3) f gi_event_cong [of s2 s]
    by (simp add: t_def resetGIQueue_def)
  moreover have "m_giStatus t = gi_outcome success" "m_gi_repeat t = 0" "m_gi_addresses_received t = []"
    using s1(5) f by (simp_all add: t_def resetGIQueue_def)
  ultimately show ?thesis
    using eq sendAllTS_outs [OF s1(1) s2(1)] s1 by (simp add: missing_effects_def)
qed

text \<open>
  C15. The end of a general interrogation, successful or not: every signal of the station that has not
  answered, and no other, is reported as invalid, in the order of the addresses; then the status
  is set and told to Fledge, the counter and the received addresses are cleared.  A GI counts as
  finished although signals are missing.
\<close>
theorem gi_end_reports_missing:
  assumes "msg_leaf (m_hnz_conf s) ''TS'' (hnz_remote_address s) = Some points"
    and "m_ingest s" and "\<not> m_giInQueue s"
  shows "\<exists>t. GICompleted E success s = Inr t \<and>
    outs t = outs s @ missing_effects E s (m_gi_addresses_received s) points @
      (if m_giStatus s = gi_outcome success then [] else gi_event s (gi_outcome success)) \<and>
    m_giStatus t = gi_outcome success \<and> m_gi_repeat t = 0 \<and> m_gi_addresses_received t = []"
  by (rule gi_end [OF assms])

theorem gi_end_reports_missing_witness:
  "\<exists>t. GICompleted default_env True (running_state\<lparr>m_gi_repeat := 1, m_giStatus := GI_IN_PROGRESS,
      m_gi_addresses_received := [16, 17]\<rparr>) = Inr t \<and>
    outs t = [Ingest (missing_reading running_state 1700000000000 (511, ''TS1'')),
      Ingest (Reading ''CONNECTION-1'' ''south_event'' (DP_dict [(''gi_status'', DP_str ''finished'')]))] \<and>
    m_giStatus t = GI_FINISHED"
proof -
  define s where "s = running_state\<lparr>m_gi_repeat := 1, m_giStatus := GI_IN_PROGRESS,
      m_gi_addresses_received := [16, 17]\<rparr>"
  have "msg_leaf (m_hnz_conf s) ''TS'' (hnz_remote_address s) = Some [(511, ''TS1'')]"
    by (simp add: s_def msg_leaf_def default_conf_def)
  moreover have "m_ingest s" "\<not> m_giInQueue s" "outs s = []" "m_gi_addresses_received s = [16, 17]"
    "missing_reading s = missing_reading running_state" "now_ms default_env s = 1700000000000"
    "m_giStatus s = GI_IN_PROGRESS"
    by (simp_all add: s_def missing_reading_def now_ms_def fun_eq_iff)
      (simp_all add: running_state_def new_HNZ_def default_env_def)
  moreover have "gi_event s GI_FINISHED
      = [Ingest (Reading ''CONNECTION-1'' ''south_event'' (DP_dict [(''gi_status'', DP_str ''finished'')]))]"
    by (simp add: s_def gi_event_def gi_status_text_def default_conf_def)
  ultimately show ?thesis
    using gi_end_reports_missing [of s "[(511, ''TS1'')]" default_env True]
    by (auto simp: s_def [symmetric] missing_effects_def gi_outcome_def)
qed

section \<open>The scheduled interrogation\<close>

text \<open>
  The scheduled interrogation: when its time has come and there is an active path, one request is
  made and the day is marked, so that no further request is made before the day changes; without
  an active path the day is marked as well and the interrogation of the day is lost.
\<close>
lemma scheduled_gi_once:
  assumes "activate (m_gi_schedule s)" and "\<not> m_gi_schedule_already_sent s"
    and "u64 (m_gi_scheduled_time s) \<le> m_current s"
  shows "scheduled_GI E s = (case m_active_path s of None \<Rightarrow> s | Some p \<Rightarrow> sendGeneralInterrogation E p s)
       \<lparr>m_gi_schedule_already_sent := True\<rparr> \<and>
    (\<forall>now. now div day_ms = m_days_since_epoch s \<longrightarrow>
       scheduled_GI E (new_day ((scheduled_GI E s)\<lparr>m_current := now\<rparr>)) = (scheduled_GI E s)\<lparr>m_current := now\<rparr>)"
proof -
  define t where "t = scheduled_GI E s"
  have t: "t = (case m_active_path s of None \<Rightarrow> s | Some p \<Rightarrow> sendGeneralInterrogation E p s)
       \<lparr>m_gi_schedule_already_sent := True\<rparr>"
    using assms by (simp add: t_def scheduled_GI_def)
  have days: "m_days_since_epoch (updateGiStatus st u) = m_days_since_epoch u" for st u
    by (insert fledge_only_updateGiStatus [of u st, unfolded fledge_only_def], erule ssubst, simp)
  have "m_days_since_epoch (sendGeneralInterrogation E p s) = m_days_since_epoch s" for p
  proof -
    have "path_only p s (snd (m_sendInfo E p gi_message s))" using link_step_sendInfo by (simp add: link_step_def)
    from path_only_fields(14) [OF this] show ?thesis
      by (simp add: sendGeneralInterrogation_def case_prod_beta notifyGIsent_def Let_def asked_def days)
  qed
  then have "m_days_since_epoch t = m_days_since_epoch s" "m_gi_schedule_already_sent t"
    by (simp_all add: t split: option.split)
  then have "\<forall>now. now div day_ms = m_days_since_epoch s \<longrightarrow>
       scheduled_GI E (new_day (t\<lparr>m_current := now\<rparr>)) = t\<lparr>m_current := now\<rparr>"
    by (simp add: new_day_def scheduled_GI_def)
  with t show ?thesis by (simp add: t_def)
qed

lemma scheduled_gi_once_witness:
  "m_gi_schedule_already_sent (scheduled_GI default_env
     (running_state\<lparr>m_gi_schedule := \<lparr>activate = True, hour = 1, minute = 0\<rparr>\<rparr>))"
  by (subst conjunct1 [OF scheduled_gi_once]) (simp_all add: running_state_def new_HNZ_def)

section \<open>Loss of the active path\<close>

text \<open>
  A GI that was asked for while another one was running starts at the end of the running one, on
  the active path.  When there is none, because it has been lost meanwhile while the first path
  with an input connection still delivers the answers, the end of the GI follows a null pointer.
\<close>
lemma delayed_gi_without_path:
  assumes "plugin_ok s" and "points_ok ''TS'' s" and "m_giInQueue s" and "m_active_path s = None"
    and "m_gi_addresses_received s \<noteq> []"
    and "last (m_gi_addresses_received s) = getLastTSAddress (m_hnz_conf s)"
  shows "check_last_TS E s = Inl Null_deref"
proof -
  obtain u where "GICompleted E True s = start_delayed_GI E u" "m_giInQueue u" "m_active_path u = None"
    using GICompleted_closes [OF assms(1,2), of E True] assms(3,4) by metis
  then have "checkGICompleted E True s = Inl Null_deref"
    by (simp add: checkGICompleted_def start_delayed_GI_def getActivePath_def)
  moreover have "\<exists>r. m_getMismatchingTSCGAddresses s = Inr r"
    using assms(2) by (auto simp: m_getMismatchingTSCGAddresses_def points_ok_def)
  ultimately show ?thesis using assms(5,6) by (auto simp: check_last_TS_def)
qed

text \<open>
  C34. A general interrogation is orphaned by a failover: its counter is cleared, so that it never
  times out, but its status stays "started" or "in progress", so that the next request of the
  north service does not start a GI; it only waits for the end of one that no longer runs.
\<close>
theorem gi_orphaned_by_failover:
  assumes "plugin_ok s" and "m_active_path s = Some p" and "conn_running s" and "m_hnz_connection s"
    and "q \<noteq> p" and "m_paths s q" and "m_protocol_state (paths s q) = CONNECTED"
    and "loses_connection ev" and "m_giStatus s \<in> {GI_STARTED, GI_IN_PROGRESS}"
  shows "\<not> gi_timed_out (protocolStateTransition E p ev s) \<and>
    north_ready E (protocolStateTransition E p ev s)
      = Inr (True, (protocolStateTransition E p ev s)\<lparr>m_giInQueue := True\<rparr>)"
proof -
  define t where "t = protocolStateTransition E p ev s"
  have t: "m_active_path t = Some q" "m_gi_repeat t = 0" "m_giStatus t = m_giStatus s" "m_hnz_connection t"
    using failover [OF assms(1-3,5-8), of E] transition_conf [of s E p ev] assms(4)
    by (simp_all add: t_def same_conf_def)
  then show ?thesis
    using assms(9) by (auto simp: t_def [symmetric] gi_timed_out_def north_ready_def getActivePath_def)
qed

lemma request_received:
  "m_gi_addresses_received (requestConnectionState p st s) = m_gi_addresses_received s"
proof -
  have "m_gi_addresses_received (conn_updateConnectionStatus c u) = m_gi_addresses_received u" for c u
    by (simp add: conn_updateConnectionStatus_def Let_def)
  then show ?thesis
    by (cases rule: request_cases [OF refl, where p = p and st = st and s = s]) simp_all
qed

text \<open>A GI in progress whose messages have begun to arrive.\<close>

definition interrogated_state :: sys where
  "interrogated_state = running_state\<lparr>m_gi_repeat := 1, m_giStatus := GI_IN_PROGRESS,
     m_gi_addresses_received := [16, 511], m_giInQueue := True\<rparr>"

lemma interrogated_state_fields [simp]:
  "m_active_path interrogated_state = Some Path_A" "conn_running interrogated_state"
  "m_hnz_connection interrogated_state" "m_paths interrogated_state p"
  "m_protocol_state (paths interrogated_state p) = CONNECTED"
  "m_giStatus interrogated_state = GI_IN_PROGRESS" "m_hnz_conf interrogated_state = default_conf"
  by (cases p; simp add: interrogated_state_def)+

lemma interrogated_plugin_ok [simp]: "plugin_ok interrogated_state"
  by (simp add: interrogated_state_def plugin_ok_def sys_ok_def path_all link_ok_def agree_def sarm_ok_def
      first_input_ok_def arbitration_defs present_ok_def gi_ok_def)

theorem gi_orphaned_by_failover_witness:
  "\<not> gi_timed_out (protocolStateTransition default_env Path_A TCP_CNX_LOST interrogated_state) \<and>
   north_ready default_env (protocolStateTransition default_env Path_A TCP_CNX_LOST interrogated_state)
     = Inr (True, (protocolStateTransition default_env Path_A TCP_CNX_LOST interrogated_state)
         \<lparr>m_giInQueue := True\<rparr>)"
  by (rule gi_orphaned_by_failover [where q = Path_B]) (simp_all add: loses_connection_def)

lemma delayed_gi_without_path_witness:
  "check_last_TS default_env (connection_stop default_env interrogated_state) = Inl Null_deref"
proof -
  define t where "t = connection_stop default_env interrogated_state"
  have inv: "plugin_ok t" "m_active_path t = None" "same_conf interrogated_state t"
    using connection_stop_inv [of interrogated_state default_env] by (simp_all add: t_def)
  have po: "points_ok ''TS'' t"
    using same_conf_points [OF inv(3)]
    by (simp add: points_ok_def msg_leaf_def default_conf_def) (simp add: interrogated_state_def)
  have keep: "m_gi_addresses_received (disconnect_present E p u) = m_gi_addresses_received u \<and>
      m_giInQueue (disconnect_present E p u) = m_giInQueue u" for E p u
  proof -
    have act: "m_gi_addresses_received (run_action E p a v) = m_gi_addresses_received v \<and>
        m_giInQueue (run_action E p a v) = m_giInQueue v" for a v
      by (cases rule: action_effect [of a p v E])
        (use path_only_fields(18,22) in \<open>auto simp: request_received\<close>)
    have "m_gi_addresses_received (fold (run_action E p) acts v) = m_gi_addresses_received v \<and>
        m_giInQueue (fold (run_action E p) acts v) = m_giInQueue v" for acts v
      by (induction acts arbitrary: v) (simp_all add: act)
    then show ?thesis
      by (simp add: disconnect_present_def disconnect_def protocolStateTransition_def Let_def upd_path_def
          emit_def split: option.split)
  qed
  have "m_gi_addresses_received t = [16, 511]" "m_giInQueue t" "m_hnz_conf t = default_conf"
    using inv(3) keep
    by (simp_all add: t_def connection_stop_def path_order_def same_conf_def)
      (simp_all add: interrogated_state_def)
  then show ?thesis
    using delayed_gi_without_path [OF inv(1) po _ inv(2), of default_env]
    by (simp add: t_def [symmetric] default_conf_def)
qed

section \<open>The thread that watches the timers\<close>

text \<open>
  C22. A turn of the thread of the connection never fails and keeps the invariant, whatever the
  times, the state of the sockets and the timeouts, as long as the configuration has measures and
  signals for the station.
\<close>
theorem messages_turn_total:
  assumes "plugin_ok s" and "points_ok ''TM'' s" and "points_ok ''TS'' s"
  shows "\<exists>t. manage_messages_turn E s = Inr t \<and> plugin_ok t \<and> m_paths t = m_paths s \<and> m_hnz_conf t = m_hnz_conf s"
  using manage_messages_inv [OF assms, of E] by (auto simp: same_conf_def)

theorem messages_turn_total_witness:
  "\<exists>t. manage_messages_turn default_env busy_state = Inr t \<and> plugin_ok t"
proof -
  have "points_ok ''TM'' busy_state" "points_ok ''TS'' busy_state"
    by (simp_all add: points_ok_def msg_leaf_def busy_state_def) (simp_all add: default_conf_def)
  with messages_turn_total [of busy_state default_env] show ?thesis by auto
qed

end
