(* ===== verification/HNZ_Json.thy ===== *)
theory HNZ_Json
  imports HNZ_Default
begin

text \<open>
  JSON values and the accessors of the configuration on them, the two default documents of
  \<open>src/plugin.cpp\<close>, and what the import makes of them.  The text parser stays a parameter: the
  function from document texts to values.
\<close>

section \<open>Values\<close>

datatype json =
  JNull | JBool bool | JInt int | JStr string | JArr "json list" | JObj "(string \<times> json) list"

fun json_has :: "json \<Rightarrow> string \<Rightarrow> bool" where
  "json_has (JObj ms) key = (key \<in> fst ` set ms)"
| "json_has _ key = False"

fun json_member :: "json \<Rightarrow> string \<Rightarrow> json" where
  "json_member (JObj ms) key = (case map_of ms key of None \<Rightarrow> JNull | Some v \<Rightarrow> v)"
| "json_member _ key = JNull"

definition json_values :: "(string \<Rightarrow> json option) \<Rightarrow> json json_api" where
  "json_values parse =
    \<lparr>parse_doc = parse, has_member = json_has, member_of = json_member,
     is_object = (\<lambda>v. case v of JObj _ \<Rightarrow> True | _ \<Rightarrow> False),
     is_array = (\<lambda>v. case v of JArr _ \<Rightarrow> True | _ \<Rightarrow> False),
     is_string = (\<lambda>v. case v of JStr _ \<Rightarrow> True | _ \<Rightarrow> False),
     is_uint = (\<lambda>v. case v of JInt n \<Rightarrow> 0 \<le> n \<and> n < 2 ^ 32 | _ \<Rightarrow> False),
     is_int64 = (\<lambda>v. case v of JInt n \<Rightarrow> - (2 ^ 63) \<le> n \<and> n < 2 ^ 63 | _ \<Rightarrow> False),
     is_bool = (\<lambda>v. case v of JBool _ \<Rightarrow> True | _ \<Rightarrow> False),
     get_string = (\<lambda>v. case v of JStr s \<Rightarrow> s | _ \<Rightarrow> []),
     get_uint = (\<lambda>v. case v of JInt n \<Rightarrow> n | _ \<Rightarrow> 0),
     get_int64 = (\<lambda>v. case v of JInt n \<Rightarrow> n | _ \<Rightarrow> 0),
     get_bool = (\<lambda>v. case v of JBool b \<Rightarrow> b | _ \<Rightarrow> False),
     get_array = (\<lambda>v. case v of JArr vs \<Rightarrow> vs | _ \<Rightarrow> [])\<rparr>"

section \<open>The default documents\<close>

definition application_layer_def :: json where
  "application_layer_def =
     JObj [(''remote_station_addr'', JInt 12), (''inacc_timeout'', JInt 180), (''max_sarm'', JInt 30),
       (''repeat_path_A'', JInt 3), (''repeat_path_B'', JInt 3), (''repeat_timeout'', JInt 3000),
       (''anticipation_ratio'', JInt 3), (''test_msg_send'', JStr ''1304''),
       (''test_msg_receive'', JStr ''1304''), (''gi_schedule'', JStr ''99:99''),
       (''gi_repeat_count'', JInt 3), (''gi_time'', JInt 255), (''c_ack_time'', JInt 10)]"

definition PROTOCOL_STACK_DEF :: json where
  "PROTOCOL_STACK_DEF =
     JObj [(''protocol_stack'', JObj
       [(''name'', JStr ''hnzclient''), (''version'', JStr ''1.0''),
        (''transport_layer'', JObj [(''connections'', JArr
           [JObj [(''srv_ip'', JStr ''192.168.0.10''), (''port'', JInt 6001)],
            JObj [(''srv_ip'', JStr ''192.168.0.10''), (''port'', JInt 6002)]])]),
        (''application_layer'', application_layer_def),
        (''south_monitoring'', JObj [(''asset'', JStr ''CONNECTION-1'')])])]"

definition protocol_def :: "string \<Rightarrow> string \<Rightarrow> string \<Rightarrow> json" where
  "protocol_def name address type_id =
     JObj [(''name'', JStr name), (''address'', JStr address), (''typeid'', JStr type_id)]"

definition datapoint_def :: "string \<Rightarrow> string \<Rightarrow> string \<Rightarrow> json list \<Rightarrow> json" where
  "datapoint_def label pivot_id pivot_type protocols =
     JObj [(''label'', JStr label), (''pivot_id'', JStr pivot_id), (''pivot_type'', JStr pivot_type),
       (''protocols'', JArr protocols)]"

definition EXCHANGED_DATA_DEF :: json where
  "EXCHANGED_DATA_DEF =
     JObj [(''exchanged_data'', JObj
       [(''name'', JStr ''SAMPLE''), (''version'', JStr ''1.0''),
        (''datapoints'', JArr
          [datapoint_def ''TS1'' ''ID114562'' ''SpsTyp''
             [protocol_def ''iec104'' ''45-672'' ''M_SP_TB_1'',
              protocol_def ''tase2'' ''S_114562'' ''Data_StateQTimeTagExtended'',
              protocol_def ''hnzip'' ''511'' ''TS''],
           datapoint_def ''TM1'' ''ID99876'' ''DpsTyp''
             [protocol_def ''iec104'' ''45-984'' ''M_ME_NA_1'',
              protocol_def ''tase2'' ''S_114562'' ''Data_RealQ'',
              protocol_def ''hnzip'' ''511'' ''TM'']])])]"

text \<open>
  The default configuration the plugin announces to Fledge, with the name of the plugin, which the build
  defines, and its description; the flags and types are constants of Fledge.
\<close>

definition default_config :: "string \<Rightarrow> json" where
  "default_config plugin_name =
     JObj
       [(''plugin'', JObj
          [(''description'', JStr ''hnz south plugin''), (''type'', JStr ''string''),
           (''default'', JStr plugin_name), (''readonly'', JStr ''true'')]),
        (''protocol_stack'', JObj
          [(''description'', JStr ''protocol stack parameters''), (''type'', JStr ''JSON''),
           (''displayName'', JStr ''Protocol stack parameters''), (''order'', JStr ''2''),
           (''default'', PROTOCOL_STACK_DEF), (''mandatory'', JStr ''true'')]),
        (''exchanged_data'', JObj
          [(''description'', JStr ''exchanged data list''), (''type'', JStr ''JSON''),
           (''displayName'', JStr ''Exchanged data list''), (''order'', JStr ''3''),
           (''default'', EXCHANGED_DATA_DEF), (''mandatory'', JStr ''true'')])]"

record PLUGIN_INFORMATION =
  pi_name :: string
  pi_version :: string
  pi_options :: int
  pi_type :: string
  pi_interface :: string
  pi_config :: json

definition plugin_info :: "string \<Rightarrow> string \<Rightarrow> int \<Rightarrow> int \<Rightarrow> string \<Rightarrow> PLUGIN_INFORMATION" where
  "plugin_info plugin_name version sp_async sp_control plugin_type_south =
     \<lparr>pi_name = plugin_name, pi_version = version, pi_options = sp_async OR sp_control,
      pi_type = plugin_type_south, pi_interface = ''1.0.0'', pi_config = default_config plugin_name\<rparr>"

text \<open>The two documents \<open>plugin_init\<close> uses without a configuration are the defaults of their items.\<close>

lemma default_documents:
  "json_member (json_member (pi_config (plugin_info n v a c t)) ''protocol_stack'') ''default'' = PROTOCOL_STACK_DEF"
  "json_member (json_member (pi_config (plugin_info n v a c t)) ''exchanged_data'') ''default'' = EXCHANGED_DATA_DEF"
  by (simp_all add: plugin_info_def default_config_def)

section \<open>Their import\<close>

lemma json_values_simps [simp]:
  "parse_doc (json_values d) = d" "has_member (json_values d) = json_has"
  "member_of (json_values d) = json_member"
  "is_object (json_values d) v = (case v of JObj _ \<Rightarrow> True | _ \<Rightarrow> False)"
  "is_array (json_values d) v = (case v of JArr _ \<Rightarrow> True | _ \<Rightarrow> False)"
  "is_string (json_values d) v = (case v of JStr _ \<Rightarrow> True | _ \<Rightarrow> False)"
  "is_uint (json_values d) v = (case v of JInt n \<Rightarrow> 0 \<le> n \<and> n < 2 ^ 32 | _ \<Rightarrow> False)"
  "is_int64 (json_values d) v = (case v of JInt n \<Rightarrow> - (2 ^ 63) \<le> n \<and> n < 2 ^ 63 | _ \<Rightarrow> False)"
  "is_bool (json_values d) v = (case v of JBool _ \<Rightarrow> True | _ \<Rightarrow> False)"
  "get_string (json_values d) v = (case v of JStr s \<Rightarrow> s | _ \<Rightarrow> [])"
  "get_uint (json_values d) v = (case v of JInt n \<Rightarrow> n | _ \<Rightarrow> 0)"
  "get_int64 (json_values d) v = (case v of JInt n \<Rightarrow> n | _ \<Rightarrow> 0)"
  "get_bool (json_values d) v = (case v of JBool b \<Rightarrow> b | _ \<Rightarrow> False)"
  "get_array (json_values d) v = (case v of JArr vs \<Rightarrow> vs | _ \<Rightarrow> [])"
  by (simp_all add: json_values_def)

lemma bulle_1304: "parse_bulle ''1304'' = Inr default_bulle"
  by code_simp

lemma schedule_9999: "parse_schedule ''99:99'' = Some \<lparr>activate = False, hour = 99, minute = 99\<rparr>"
  by code_simp

lemma address_511: "parse_address ''511'' = (True, 511)"
  by code_simp

text \<open>The members of the application layer the code asks for, and those that are not there.\<close>

lemma application_members:
  "json_has application_layer_def ''cmd_recv_timeout'' = False"
  "json_has application_layer_def ''bulle_time'' = False"
  "json_has application_layer_def ''modulo_use_utc'' = False"
  by code_simp+

lemma application_values:
  "json_has application_layer_def ''remote_station_addr'' \<and>
   json_member application_layer_def ''remote_station_addr'' = JInt 12"
  "json_has application_layer_def ''inacc_timeout'' \<and> json_member application_layer_def ''inacc_timeout'' = JInt 180"
  "json_has application_layer_def ''max_sarm'' \<and> json_member application_layer_def ''max_sarm'' = JInt 30"
  "json_has application_layer_def ''repeat_path_A'' \<and> json_member application_layer_def ''repeat_path_A'' = JInt 3"
  "json_has application_layer_def ''repeat_path_B'' \<and> json_member application_layer_def ''repeat_path_B'' = JInt 3"
  "json_has application_layer_def ''repeat_timeout'' \<and> json_member application_layer_def ''repeat_timeout'' = JInt 3000"
  "json_has application_layer_def ''anticipation_ratio'' \<and>
   json_member application_layer_def ''anticipation_ratio'' = JInt 3"
  "json_has application_layer_def ''test_msg_send'' \<and> json_member application_layer_def ''test_msg_send'' = JStr ''1304''"
  "json_has application_layer_def ''test_msg_receive'' \<and>
   json_member application_layer_def ''test_msg_receive'' = JStr ''1304''"
  "json_has application_layer_def ''gi_schedule'' \<and> json_member application_layer_def ''gi_schedule'' = JStr ''99:99''"
  "json_has application_layer_def ''gi_repeat_count'' \<and> json_member application_layer_def ''gi_repeat_count'' = JInt 3"
  "json_has application_layer_def ''gi_time'' \<and> json_member application_layer_def ''gi_time'' = JInt 255"
  "json_has application_layer_def ''c_ack_time'' \<and> json_member application_layer_def ''c_ack_time'' = JInt 10"
  by code_simp+

text \<open>The readers of one field on a member that is there.\<close>

lemma json_readers:
  "json_has v key \<and> json_member v key = JInt n \<Longrightarrow> 0 \<le> n \<Longrightarrow> n < 2 ^ 32 \<Longrightarrow>
     m_retrieve_uint_def (json_values d) v key def target = (True, n)"
  "json_has v key \<and> json_member v key = JInt n \<Longrightarrow> 0 \<le> n \<Longrightarrow> n < 2 ^ 32 \<Longrightarrow>
     m_retrieve_uint (json_values d) v key target = (True, n)"
  "json_has v key \<and> json_member v key = JStr ''1304'' \<Longrightarrow>
     m_retrieve_bulle (json_values d) v key b = (True, default_bulle)"
  "json_has v key \<and> json_member v key = JStr ''99:99'' \<Longrightarrow>
     m_retrieve_schedule (json_values d) v key g = (True, \<lparr>activate = False, hour = 99, minute = 99\<rparr>)"
  "\<not> json_has v key \<Longrightarrow> m_retrieve_uint_def (json_values d) v key def target = (True, def)"
  "\<not> json_has v key \<Longrightarrow> m_retrieve_llong_def (json_values d) v key def target = (True, def)"
  "\<not> json_has v key \<Longrightarrow> m_retrieve_bool_def (json_values d) v key flag old = (True, flag)"
  by (simp_all add: m_retrieve_uint_def_def m_retrieve_uint_def m_retrieve_bulle_def m_retrieve_schedule_def
      m_retrieve_llong_def_def m_retrieve_bool_def_def bulle_1304 schedule_9999)

lemma import_application:
  "m_importApplicationLayer (json_values d) application_layer_def c =
     (True, c\<lparr>get_remote_station_addr := 12, get_inacc_timeout := 180, get_max_sarm := 30,
        get_paths_repeat := (get_paths_repeat c)[0 := 3, 1 := 3], get_repeat_timeout := 3000,
        get_anticipation_ratio := 3, get_test_msg_send := default_bulle,
        get_test_msg_receive := default_bulle,
        get_gi_schedule := \<lparr>activate = False, hour = 99, minute = 99\<rparr>, get_gi_repeat_count := 3,
        get_gi_time := 255, get_c_ack_time := 10, get_cmd_recv_timeout := DEFAULT_CMD_RECV_TIMEOUT,
        get_bulle_time := DEFAULT_BULLE_TIME\<rparr>)"
  unfolding m_importApplicationLayer_def application_steps_def fold_simps o_apply id_apply
  by (simp add: and_then_def into_def into_nth_def application_values(2-7,11-13) [THEN json_readers(1)]
      application_values(1) [THEN json_readers(2)] application_values(8,9) [THEN json_readers(3)]
      application_values(10) [THEN json_readers(4)] json_readers(5-7) application_members check_remote_addr_def)

definition transport_layer_def :: json where
  "transport_layer_def = JObj [(''connections'', JArr
     [JObj [(''srv_ip'', JStr ''192.168.0.10''), (''port'', JInt 6001)],
      JObj [(''srv_ip'', JStr ''192.168.0.10''), (''port'', JInt 6002)]])]"

lemma import_transport:
  assumes "get_paths_ip c = [[], []]" and "get_paths_port c = [0, 0]"
  shows "m_importTransportLayer (json_values d) transport_layer_def c =
     (True, c\<lparr>get_paths_ip := [''192.168.0.10'', ''192.168.0.10''], get_paths_port := [6001, 6002]\<rparr>)"
  using assms
  by (simp add: m_importTransportLayer_def transport_layer_def_def m_check_array_def MAXPATHS_def
      and_then_def into_def into_nth_def m_retrieve_string_def m_retrieve_uint_def_def)

text \<open>The members of the protocol stack.\<close>

lemma stack_members:
  assumes "v = JObj [(''name'', JStr ''hnzclient''), (''version'', JStr ''1.0''),
        (''transport_layer'', t), (''application_layer'', a), (''south_monitoring'', m)]"
  shows "json_has v ''name'' \<and> json_has v ''version'' \<and> json_has v ''transport_layer'' \<and>
      json_has v ''application_layer'' \<and> json_has v ''south_monitoring''"
    and "json_member v ''name'' = JStr ''hnzclient''" "json_member v ''version'' = JStr ''1.0''"
      "json_member v ''transport_layer'' = t" "json_member v ''application_layer'' = a"
      "json_member v ''south_monitoring'' = m"
  by (simp_all add: assms)

lemma import_stack:
  assumes "docs a = Some PROTOCOL_STACK_DEF"
  shows "importConfigJson (json_values docs) a new_HNZConf =
    default_conf\<lparr>getLastTSAddress := 0, get_all_messages := Map.empty, m_exchange_data_is_complete := False\<rparr>"
proof -
  define m where "m = JObj [(''asset'', JStr ''CONNECTION-1'')]"
  define v where "v = JObj [(''name'', JStr ''hnzclient''), (''version'', JStr ''1.0''),
        (''transport_layer'', transport_layer_def), (''application_layer'', application_layer_def),
        (''south_monitoring'', m)]"
  note mem = stack_members [OF v_def]
  have m: "json_has m ''asset''" "json_member m ''asset'' = JStr ''CONNECTION-1''" by (simp_all add: m_def)
  have obj: "is_object (json_values docs) transport_layer_def" "is_object (json_values docs) application_layer_def"
    "is_object (json_values docs) m"
    by (simp_all add: transport_layer_def_def application_layer_def_def m_def)
  have doc: "PROTOCOL_STACK_DEF = JObj [(''protocol_stack'', v)]" "is_object (json_values docs) v"
    by (simp_all add: PROTOCOL_STACK_DEF_def v_def transport_layer_def_def m_def)
  have chk: "m_check_string (json_values docs) v ''name''" "m_check_string (json_values docs) v ''version''"
    "m_check_object (json_values docs) v ''transport_layer''"
    "m_check_object (json_values docs) v ''application_layer''"
    "m_check_object (json_values docs) v ''south_monitoring''"
    "m_check_string (json_values docs) m ''asset''"
    using obj m(1) mem(1) by (simp_all add: m_check_string_def m_check_object_def mem(2-) m(2))
  have top: "m_check_object (json_values docs) PROTOCOL_STACK_DEF ''protocol_stack''"
    "json_member PROTOCOL_STACK_DEF ''protocol_stack'' = v" "is_object (json_values docs) PROTOCOL_STACK_DEF"
    using doc(2) by (simp_all add: m_check_object_def doc(1))
  have asset: "m_retrieve_string (json_values docs) m ''asset'' x = (True, ''CONNECTION-1'')" for x
    by (simp add: m_retrieve_string_def m)
  show ?thesis
    using assms top(3)
    by (simp add: importConfigJson_def Let_def top(1,2) chk mem import_transport import_application
        into_def asset json_readers application_members new_HNZConf_def default_conf_def)
qed

text \<open>A datapoint of which only the last protocol is the one of the plugin.\<close>

lemma protocol_members:
  "is_object (json_values d) (protocol_def n a t)" "json_has (protocol_def n a t) ''name''"
  "json_member (protocol_def n a t) ''name'' = JStr n" "json_has (protocol_def n a t) ''address''"
  "json_member (protocol_def n a t) ''address'' = JStr a" "json_has (protocol_def n a t) ''typeid''"
  "json_member (protocol_def n a t) ''typeid'' = JStr t"
  by (simp_all add: protocol_def_def)

lemma datapoint_members:
  "is_object (json_values d) (datapoint_def l i t ps)" "json_has (datapoint_def l i t ps) ''label''"
  "json_member (datapoint_def l i t ps) ''label'' = JStr l" "json_has (datapoint_def l i t ps) ''pivot_id''"
  "json_member (datapoint_def l i t ps) ''pivot_id'' = JStr i" "json_has (datapoint_def l i t ps) ''pivot_type''"
  "json_member (datapoint_def l i t ps) ''pivot_type'' = JStr t" "json_has (datapoint_def l i t ps) ''protocols''"
  "json_member (datapoint_def l i t ps) ''protocols'' = JArr ps"
  "\<not> json_has (datapoint_def l i t ps) ''pivot_subtypes''"
  by (simp_all add: datapoint_def_def)

lemma import_protocol:
  assumes "parse_address a = (True, n)"
  shows "import_hnz_protocol (json_values d) label (-1) (protocol_def ''hnzip'' a code) c =
    (True, c\<lparr>get_all_messages := msg_list_insert code (get_remote_station_addr c) n label (get_all_messages c),
             getLastTSAddress := max (getLastTSAddress c) n\<rparr>)"
  using assms
  by (simp add: import_hnz_protocol_def m_retrieve_string_def_def protocol_members Let_def max_def)

lemma import_datapoint:
  assumes "parse_address a = (True, n)" and "n1 \<noteq> ''hnzip''" and "n2 \<noteq> ''hnzip''"
  shows "m_importDatapoint (json_values d) (datapoint_def l i t
      [protocol_def n1 a1 t1, protocol_def n2 a2 t2, protocol_def ''hnzip'' a code]) c =
    (True, c\<lparr>get_all_messages := msg_list_insert code (get_remote_station_addr c) n l (get_all_messages c),
             getLastTSAddress := max (getLastTSAddress c) n\<rparr>)"
proof -
  define ps where "ps = [protocol_def n1 a1 t1, protocol_def n2 a2 t2, protocol_def ''hnzip'' a code]"
  define v where "v = datapoint_def l i t ps"
  note mem = datapoint_members(2-) [of l i t ps, folded v_def]
  have obj: "is_object (json_values d) v" unfolding v_def by (rule datapoint_members(1))
  have name: "m_retrieve_string (json_values d) (protocol_def m x y) ''name'' z = (True, m)" for m x y z
    by (simp add: m_retrieve_string_def protocol_members)
  have "m_isGiTriggeringTs (json_values d) v = -1" by (simp add: m_isGiTriggeringTs_def mem(9))
  moreover have "m_retrieve_string (json_values d) v ''label'' [] = (True, l)"
    by (simp add: m_retrieve_string_def mem)
  moreover have "m_check_string (json_values d) v ''pivot_id''" "m_check_string (json_values d) v ''pivot_type''"
    "m_check_array (json_values d) v ''protocols''"
    by (simp_all add: m_check_string_def m_check_array_def mem)
  moreover have "import_protocols (json_values d) l (-1) ps (True, c) =
    (True, c\<lparr>get_all_messages := msg_list_insert code (get_remote_station_addr c) n l (get_all_messages c),
             getLastTSAddress := max (getLastTSAddress c) n\<rparr>)"
    unfolding ps_def using assms(2,3)
    by (simp only: import_protocols.simps NAME_def HNZ_NAME_def protocol_members name Let_def prod.case fst_conv snd_conv simp_thms
        if_True if_False not_True_eq_False and_then_def import_protocol [OF assms(1)])
  ultimately show ?thesis
    unfolding ps_def [symmetric] v_def [symmetric] m_importDatapoint_def
    using obj by (simp add: mem Let_def)
qed

lemma import_data:
  assumes "docs b = Some EXCHANGED_DATA_DEF" and "get_remote_station_addr c = 12"
    and "get_all_messages c = Map.empty"
  shows "importExchangedDataJson (json_values docs) b c =
    c\<lparr>getLastTSAddress := 511, get_all_messages :=
        [''TS'' \<mapsto> [12 \<mapsto> [(511, ''TS1'')]], ''TM'' \<mapsto> [12 \<mapsto> [(511, ''TM1'')]]],
      m_exchange_data_is_complete := True\<rparr>"
proof -
  define ps1 where "ps1 = [protocol_def ''iec104'' ''45-672'' ''M_SP_TB_1'',
     protocol_def ''tase2'' ''S_114562'' ''Data_StateQTimeTagExtended'', protocol_def ''hnzip'' ''511'' ''TS'']"
  define ps2 where "ps2 = [protocol_def ''iec104'' ''45-984'' ''M_ME_NA_1'',
     protocol_def ''tase2'' ''S_114562'' ''Data_RealQ'', protocol_def ''hnzip'' ''511'' ''TM'']"
  define dps where "dps = [datapoint_def ''TS1'' ''ID114562'' ''SpsTyp'' ps1, datapoint_def ''TM1'' ''ID99876'' ''DpsTyp'' ps2]"
  define v where "v = JObj [(''name'', JStr ''SAMPLE''), (''version'', JStr ''1.0''), (''datapoints'', JArr dps)]"
  have doc: "EXCHANGED_DATA_DEF = JObj [(''exchanged_data'', v)]"
    by (simp add: EXCHANGED_DATA_DEF_def v_def dps_def ps1_def ps2_def)
  have v: "is_object (json_values docs) v" "m_check_string (json_values docs) v ''name''"
    "m_check_string (json_values docs) v ''version''" "m_check_array (json_values docs) v ''datapoints''"
    "json_member v ''datapoints'' = JArr dps"
    by (simp_all add: v_def m_check_string_def m_check_array_def)
  have top: "m_check_object (json_values docs) EXCHANGED_DATA_DEF ''exchanged_data''"
    "json_member EXCHANGED_DATA_DEF ''exchanged_data'' = v" "is_object (json_values docs) EXCHANGED_DATA_DEF"
    using v(1) by (simp_all add: m_check_object_def doc)
  have "fold (\<lambda>msg. and_then (m_importDatapoint (json_values docs) msg)) dps (True, c0) =
      (True, c0\<lparr>getLastTSAddress := max (max (getLastTSAddress c0) 511) 511,
        get_all_messages := msg_list_insert ''TM'' (get_remote_station_addr c0) 511 ''TM1''
          (msg_list_insert ''TS'' (get_remote_station_addr c0) 511 ''TS1'' (get_all_messages c0))\<rparr>)" for c0
    by (simp add: dps_def ps1_def ps2_def and_then_def import_datapoint [OF address_511])
  then show ?thesis
    using assms top(3)
    by (simp add: importExchangedDataJson_def Let_def top(1,2) v(2-) msg_list_insert_def)
qed

lemma import_default:
  assumes "docs a = Some PROTOCOL_STACK_DEF" and "docs b = Some EXCHANGED_DATA_DEF"
  shows "import_both (json_values docs) a b = default_conf"
proof -
  have "import_both (json_values docs) a b = (default_conf\<lparr>getLastTSAddress := 0, get_all_messages := Map.empty,
      m_exchange_data_is_complete := False\<rparr>)\<lparr>getLastTSAddress := 511, get_all_messages :=
        [''TS'' \<mapsto> [12 \<mapsto> [(511, ''TS1'')]], ''TM'' \<mapsto> [12 \<mapsto> [(511, ''TM1'')]]],
      m_exchange_data_is_complete := True\<rparr>"
    unfolding import_both_def import_stack [of docs a, OF assms(1)]
    by (rule import_data [of docs b, OF assms(2)]) (simp_all add: default_conf_def)
  then show ?thesis by (simp add: default_conf_def)
qed

lemma default_complete: "is_complete default_conf"
  by (simp add: default_conf_def is_complete_def)

definition default_docs :: "string \<Rightarrow> json option" where
  "default_docs = [''stack'' \<mapsto> PROTOCOL_STACK_DEF, ''data'' \<mapsto> EXCHANGED_DATA_DEF]"

lemma default_both:
  "import_both (json_values default_docs) ''stack'' ''data'' = default_conf \<and> is_complete default_conf"
  using import_default [of default_docs "''stack''" "''data''"] default_complete
  by (simp add: default_docs_def)

end
