(* ===== verification/HNZ_Conf_Properties.thy ===== *)
theory HNZ_Conf_Properties
  imports HNZ_Json
begin

text \<open>
  What the configuration promises: the values an import accepts, the labels it stores, and the
  values it accepts although the rest of the plugin cannot use them.
\<close>

section \<open>Well-formed configurations\<close>

text \<open>
  rapidjson's \<open>GetUint\<close> gives an unsigned 32-bit number when \<open>IsUint\<close> holds, and \<open>GetInt64\<close> a
  signed 64-bit one when \<open>IsInt64\<close> holds.
\<close>

definition json_numbers :: "('v, 'z) json_api_scheme \<Rightarrow> bool" where
  "json_numbers J \<longleftrightarrow>
     (\<forall>v. is_uint J v \<longrightarrow> 0 \<le> get_uint J v \<and> get_uint J v < 2 ^ 32) \<and>
     (\<forall>v. is_int64 J v \<longrightarrow> - (2 ^ 63) \<le> get_int64 J v \<and> get_int64 J v < 2 ^ 63)"

definition is_u32 :: "int \<Rightarrow> bool" where
  "is_u32 n \<longleftrightarrow> 0 \<le> n \<and> n < 2 ^ 32"

definition schedule_typed :: "GIScheduleFormat \<Rightarrow> bool" where
  "schedule_typed g \<longleftrightarrow> (activate g \<longrightarrow> 0 \<le> hour g \<and> hour g < 24 \<and> 0 \<le> minute g \<and> minute g < 60)"

text \<open>Every member has a value of its C++ type, and an active schedule is a time of day.\<close>

definition conf_typed :: "HNZConf \<Rightarrow> bool" where
  "conf_typed c \<longleftrightarrow>
     length (get_paths_ip c) = 2 \<and> length (get_paths_port c) = 2 \<and> length (get_paths_repeat c) = 2 \<and>
     (\<forall>n \<in> set (get_paths_port c) \<union> set (get_paths_repeat c). is_u32 n) \<and>
     is_u32 (get_remote_station_addr c) \<and> is_u32 (get_inacc_timeout c) \<and> is_u32 (get_max_sarm c) \<and>
     is_u32 (get_repeat_timeout c) \<and> is_u32 (get_anticipation_ratio c) \<and> is_u32 (get_gi_repeat_count c) \<and>
     is_u32 (get_gi_time c) \<and> is_u32 (get_c_ack_time c) \<and> is_u32 (get_bulle_time c) \<and>
     - (2 ^ 63) \<le> get_cmd_recv_timeout c \<and> get_cmd_recv_timeout c < 2 ^ 63 \<and>
     schedule_typed (get_gi_schedule c)"

section \<open>Readers and steps keep the types\<close>

lemma retrieve_uint_typed:
  assumes "json_numbers J" and "is_u32 target"
  shows "is_u32 (snd (m_retrieve_uint J v key target))"
    and "is_u32 def \<Longrightarrow> is_u32 (snd (m_retrieve_uint_def J v key def target))"
  using assms by (auto simp: m_retrieve_uint_def m_retrieve_uint_def_def json_numbers_def is_u32_def)

lemma retrieve_llong_typed:
  assumes "json_numbers J" and "- (2 ^ 63) \<le> target \<and> target < 2 ^ 63" and "- (2 ^ 63) \<le> def \<and> def < 2 ^ 63"
  shows "- (2 ^ 63) \<le> snd (m_retrieve_llong_def J v key def target) \<and>
    snd (m_retrieve_llong_def J v key def target) < 2 ^ 63"
  using assms by (auto simp: m_retrieve_llong_def_def json_numbers_def)

lemma parse_schedule_typed: "parse_schedule text = Some g \<Longrightarrow> schedule_typed g"
  by (auto simp: parse_schedule_def schedule_typed_def split: if_splits sum.splits)

lemma retrieve_schedule_typed:
  "schedule_typed target \<Longrightarrow> schedule_typed (snd (m_retrieve_schedule J v key target))"
  using parse_schedule_typed
  by (auto simp: m_retrieve_schedule_def schedule_typed_def split: option.split)

lemma defaults_u32:
  "is_u32 DEFAULT_PORT" "is_u32 DEFAULT_INACC_TIMEOUT" "is_u32 DEFAULT_MAX_SARM" "is_u32 DEFAULT_REPEAT_PATH"
  "is_u32 DEFAULT_REPEAT_TIMEOUT" "is_u32 DEFAULT_ANTICIPATION_RATIO" "is_u32 DEFAULT_GI_REPEAT_COUNT"
  "is_u32 DEFAULT_GI_TIME" "is_u32 DEFAULT_C_ACK_TIME" "is_u32 DEFAULT_BULLE_TIME"
  by (simp_all add: is_u32_def DEFAULT_PORT_def DEFAULT_INACC_TIMEOUT_def DEFAULT_MAX_SARM_def
      DEFAULT_REPEAT_PATH_def DEFAULT_REPEAT_TIMEOUT_def DEFAULT_ANTICIPATION_RATIO_def
      DEFAULT_GI_REPEAT_COUNT_def DEFAULT_GI_TIME_def DEFAULT_C_ACK_TIME_def DEFAULT_BULLE_TIME_def)

text \<open>A sequence of steps keeps what every step keeps.\<close>

lemma steps_keep:
  assumes "\<And>f c. f \<in> set fs \<Longrightarrow> P c \<Longrightarrow> P (snd (f c))" and "P (snd r)"
  shows "P (snd (fold and_then fs r))"
  using assms by (induction fs arbitrary: r) (simp_all add: and_then_def case_prod_beta)

lemma steps_fail: "\<not> fst r \<Longrightarrow> \<not> fst (fold and_then fs r)"
  by (induction fs arbitrary: r) (simp_all add: and_then_def case_prod_beta)

lemma in_set_updD: "x \<in> set (xs[i := v]) \<Longrightarrow> x = v \<or> x \<in> set xs"
  using set_update_subset_insert [of xs i v] by blast

lemma application_typed:
  assumes "json_numbers J" and "conf_typed c"
  shows "conf_typed (snd (m_importApplicationLayer J v c))"
  unfolding m_importApplicationLayer_def
proof (rule steps_keep)
  fix f c assume f: "f \<in> set (application_steps J v)" and c: "conf_typed c"
  note typed = retrieve_uint_typed [OF assms(1)] defaults_u32
  have rep: "is_u32 (get_paths_repeat c ! i)" if "i < 2" for i
    using c that by (auto simp: conf_typed_def)
  show "conf_typed (snd (f c))"
    using f c typed rep retrieve_schedule_typed [of "get_gi_schedule c" J v]
      retrieve_llong_typed [OF assms(1), of "get_cmd_recv_timeout c" DEFAULT_CMD_RECV_TIMEOUT]
    by (simp only: application_steps_def list.set insert_iff empty_iff simp_thms, elim disjE)
      (auto simp: into_def into_nth_def case_prod_beta conf_typed_def check_remote_addr_def
        DEFAULT_CMD_RECV_TIMEOUT_def dest: in_set_updD)
qed (use assms(2) in simp)

lemma connections_typed:
  "json_numbers J \<Longrightarrow> conf_typed (snd r) \<Longrightarrow> i + length es \<le> 2 \<Longrightarrow> conf_typed (snd (import_connections J es i r))"
proof (induction J es i r rule: import_connections.induct)
  case (2 J e es i r)
  define r' where "r' = and_then (into_nth (m_retrieve_uint_def J e ''port'' DEFAULT_PORT) i
                     get_paths_port get_paths_port_update)
        (and_then (into_nth (m_retrieve_string J e ''srv_ip'') i get_paths_ip get_paths_ip_update) r)"
  have port: "is_u32 (get_paths_port c ! i)" if "conf_typed c" for c
    using that "2.prems"(3) by (simp add: conf_typed_def)
  have "conf_typed (snd r')"
    using "2.prems" retrieve_uint_typed(2) [OF "2.prems"(1) port defaults_u32(1)]
    by (auto simp: r'_def and_then_def into_nth_def case_prod_beta conf_typed_def dest!: in_set_updD)
  with 2 show ?case by (simp add: r'_def)
qed simp

lemma transport_typed:
  "json_numbers J \<Longrightarrow> conf_typed c \<Longrightarrow> conf_typed (snd (m_importTransportLayer J v c))"
  by (simp add: m_importTransportLayer_def Let_def MAXPATHS_def connections_typed)

text \<open>The check of the address, and the steps after it, which leave the address alone.\<close>

lemma application_address:
  assumes "fst (m_importApplicationLayer J v c)"
  shows "get_remote_station_addr (snd (m_importApplicationLayer J v c)) \<le> 64"
proof -
  define f where "f = hd (application_steps J v)"
  define fs where "fs = drop 2 (application_steps J v)"
  have steps: "application_steps J v = f # check_remote_addr # fs"
    by (simp add: application_steps_def f_def fs_def)
  have "\<forall>g \<in> set fs. \<forall>c. get_remote_station_addr (snd (g c)) = get_remote_station_addr c"
    by (simp add: fs_def application_steps_def into_def into_nth_def case_prod_beta)
  then have keep: "g \<in> set fs \<Longrightarrow> get_remote_station_addr (snd (g c)) = get_remote_station_addr c" for g c
    by blast
  define r where "r = and_then check_remote_addr (and_then f (True, c))"
  have eq: "m_importApplicationLayer J v c = fold and_then fs r"
    by (simp add: m_importApplicationLayer_def steps r_def)
  have "get_remote_station_addr (snd (fold and_then fs r)) = get_remote_station_addr (snd r)"
    using steps_keep [of fs "\<lambda>c. get_remote_station_addr c = get_remote_station_addr (snd r)" r] keep by simp
  moreover have "fst r" using assms steps_fail unfolding eq by blast
  ultimately show ?thesis
    unfolding eq by (simp add: r_def and_then_def check_remote_addr_def case_prod_beta)
qed

lemma new_conf_typed: "conf_typed new_HNZConf"
  by (simp add: conf_typed_def new_HNZConf_def is_u32_def schedule_typed_def)

lemma conf_typed_updates [simp]:
  "conf_typed (c\<lparr>m_config_is_complete := b\<rparr>) = conf_typed c"
  "conf_typed (c\<lparr>m_exchange_data_is_complete := b\<rparr>) = conf_typed c"
  "conf_typed (c\<lparr>get_use_utc := b\<rparr>) = conf_typed c"
  "conf_typed (c\<lparr>get_connx_status_signal := x\<rparr>) = conf_typed c"
  "conf_typed (c\<lparr>get_all_messages := m\<rparr>) = conf_typed c"
  "conf_typed (c\<lparr>getLastTSAddress := n\<rparr>) = conf_typed c"
  "conf_typed (c\<lparr>m_cgTriggeringTsAdresses := t\<rparr>) = conf_typed c"
  by (simp_all add: conf_typed_def)

lemma stack_typed:
  assumes "json_numbers J" and "conf_typed c"
  shows "conf_typed (importConfigJson J text c)"
    and "m_config_is_complete (importConfigJson J text c) \<Longrightarrow>
      get_remote_station_addr (importConfigJson J text c) \<le> 64"
proof -
  let ?c = "c\<lparr>m_config_is_complete := False\<rparr>"
  have c: "conf_typed ?c" using assms(2) by simp
  note typed = transport_typed [OF assms(1)] application_typed [OF assms(1)]
  show "conf_typed (importConfigJson J text c)"
    using c typed
    by (auto simp: importConfigJson_def Let_def into_def case_prod_beta split: option.split)
  show "m_config_is_complete (importConfigJson J text c) \<Longrightarrow>
      get_remote_station_addr (importConfigJson J text c) \<le> 64"
    using application_address [of J]
    by (auto simp: importConfigJson_def Let_def into_def case_prod_beta split: option.splits if_splits)
qed

text \<open>The import of the exchanged data changes the points only.\<close>

definition same_stack :: "HNZConf \<Rightarrow> HNZConf \<Rightarrow> bool" where
  "same_stack c c' \<longleftrightarrow>
     c' = c\<lparr>getLastTSAddress := getLastTSAddress c', get_all_messages := get_all_messages c',
            m_cgTriggeringTsAdresses := m_cgTriggeringTsAdresses c',
            m_exchange_data_is_complete := m_exchange_data_is_complete c'\<rparr>"

lemma same_stack_refl [simp]: "same_stack c c"
  by (simp add: same_stack_def)

lemma same_stack_trans: "same_stack a b \<Longrightarrow> same_stack b c \<Longrightarrow> same_stack a c"
proof -
  assume a: "same_stack a b" and b: "same_stack b c"
  have "c = b\<lparr>getLastTSAddress := getLastTSAddress c, get_all_messages := get_all_messages c,
            m_cgTriggeringTsAdresses := m_cgTriggeringTsAdresses c,
            m_exchange_data_is_complete := m_exchange_data_is_complete c\<rparr>"
    using b by (simp add: same_stack_def)
  also have "\<dots> = a\<lparr>getLastTSAddress := getLastTSAddress c, get_all_messages := get_all_messages c,
            m_cgTriggeringTsAdresses := m_cgTriggeringTsAdresses c,
            m_exchange_data_is_complete := m_exchange_data_is_complete c\<rparr>"
    by (subst a [unfolded same_stack_def]) simp
  finally show ?thesis by (simp add: same_stack_def)
qed

lemma same_stack_fields:
  assumes "same_stack c c'"
  shows "conf_typed c' = conf_typed c" "m_config_is_complete c' = m_config_is_complete c"
    "get_remote_station_addr c' = get_remote_station_addr c"
  by (insert assms [unfolded same_stack_def], (erule ssubst, simp)+)

lemma import_hnz_same: "same_stack c (snd (import_hnz_protocol J l tr v c))"
  by (simp add: import_hnz_protocol_def same_stack_def Let_def case_prod_beta)

lemma import_protocols_same: "same_stack c (snd r) \<Longrightarrow> same_stack c (snd (import_protocols J l tr vs r))"
proof (induction vs arbitrary: r)
  case (Cons v vs)
  have "same_stack c (snd (and_then (import_hnz_protocol J l tr v) (b, snd r)))" for b
    using Cons.prems import_hnz_same [of "snd r" J l tr v] same_stack_trans
    by (auto simp: and_then_def case_prod_beta)
  with Cons show ?case by (simp add: case_prod_beta Let_def)
qed simp

lemma import_datapoint_same: "same_stack c (snd (m_importDatapoint J v c))"
  by (simp add: m_importDatapoint_def Let_def case_prod_beta import_protocols_same)

lemma import_data_same: "same_stack c (importExchangedDataJson J text c)"
proof -
  have "same_stack c (snd (fold (\<lambda>msg. and_then (m_importDatapoint J msg)) msgs r))" if "same_stack c (snd r)" for msgs r
    using that
  proof (induction msgs arbitrary: r)
    case (Cons m ms)
    have "same_stack c (snd (and_then (m_importDatapoint J m) r))"
      using Cons.prems import_datapoint_same [of "snd r" J m] same_stack_trans
      by (auto simp: and_then_def case_prod_beta)
    with Cons.IH show ?case by simp
  qed simp
  moreover have "same_stack c (c'\<lparr>m_exchange_data_is_complete := b\<rparr>)" if "same_stack c c'" for c' b
    using that by (rule same_stack_trans) (simp add: same_stack_def)
  moreover have "same_stack c (c\<lparr>m_exchange_data_is_complete := b\<rparr>)"
    "same_stack c (c\<lparr>m_exchange_data_is_complete := b, getLastTSAddress := n\<rparr>)" for b n
    by (simp_all add: same_stack_def)
  ultimately show ?thesis
    by (simp add: importExchangedDataJson_def Let_def case_prod_beta split: option.split)
qed

text \<open>
  C20. Whatever the documents, the members of an imported configuration have values of their types, and
  a complete configuration has a station address up to 64 and, when the interrogation is
  scheduled, a time of day.
\<close>
theorem imported_configuration_typed:
  assumes "json_numbers J"
  shows "conf_typed (import_both J stack_text data_text) \<and>
    (is_complete (import_both J stack_text data_text) \<longrightarrow>
       get_remote_station_addr (import_both J stack_text data_text) \<in> {0..64})"
proof -
  note s = stack_typed [OF assms new_conf_typed, of stack_text]
  note f = same_stack_fields [OF import_data_same [of "importConfigJson J stack_text new_HNZConf" J data_text]]
  have t: "conf_typed (import_both J stack_text data_text)" by (simp add: import_both_def f s)
  then have "0 \<le> get_remote_station_addr (import_both J stack_text data_text)"
    by (simp add: conf_typed_def is_u32_def)
  with t s(2) show ?thesis by (simp add: import_both_def is_complete_def f)
qed

theorem imported_configuration_typed_witness:
  "conf_typed (import_both (json_values default_docs) ''stack'' ''data'') \<and>
   get_remote_station_addr (import_both (json_values default_docs) ''stack'' ''data'') \<in> {0..64}"
proof -
  have "json_numbers (json_values default_docs)"
    by (simp add: json_numbers_def split: json.split)
  moreover have "is_complete (import_both (json_values default_docs) ''stack'' ''data'')"
    using default_both by simp
  ultimately show ?thesis
    using imported_configuration_typed [of "json_values default_docs" "''stack''" "''data''"] by simp
qed

section \<open>Points\<close>

lemma stoul_to_string:
  assumes "0 \<le> n" and "n < 2 ^ 32"
  shows "parse_address (to_string n) = (True, n)"
proof -
  obtain d r where dr: "d < 10" "dec_digits (nat n) = digit_char d # r"
    using dec_digits_head by blast
  have "digits_val 10 0 (dec_digits (nat n)) = nat n"
    using digits_val_dec_digits [of 0 "nat n" "[]"] by simp
  then have "stoul 10 (to_string n) = Inr n"
    using strto_digits [OF dr] assms by (simp add: stoul_def to_string_def)
  with assms show ?thesis by (simp add: parse_address_def u32_def)
qed

lemma leaf_insert:
  "(case msg_list_insert code station address label m code' of None \<Rightarrow> None | Some inner \<Rightarrow> inner station')
    = (if code' = code \<and> station' = station
       then Some (omap_insert address label
              (case (case m code of None \<Rightarrow> None | Some i \<Rightarrow> i station) of None \<Rightarrow> [] | Some l \<Rightarrow> l))
       else case m code' of None \<Rightarrow> None | Some inner \<Rightarrow> inner station')"
  by (auto simp: msg_list_insert_def Let_def split: option.split)

text \<open>
  C30. A point that has been imported is found again: its label is the one of the document, for its code
  and its address, and every other point keeps its label.
\<close>
theorem label_roundtrip:
  assumes "m_retrieve_string_def J protocol ''address'' [] [] = (True, to_string n)"
    and "m_retrieve_string_def J protocol ''typeid'' [] [] = (True, code)"
    and "0 \<le> n" and "n < 2 ^ 32"
  shows "\<exists>c'. import_hnz_protocol J label trigger protocol c = (True, c') \<and> getLabel c' code n = label \<and>
    (\<forall>code' n'. (code', u32 n') \<noteq> (code, n) \<longrightarrow> getLabel c' code' n' = getLabel c code' n')"
proof -
  obtain c' where c': "import_hnz_protocol J label trigger protocol c = (True, c')"
    "get_all_messages c' = msg_list_insert code (get_remote_station_addr c) n label (get_all_messages c)"
    "get_remote_station_addr c' = get_remote_station_addr c"
    using assms(1,2) stoul_to_string [OF assms(3,4)]
    by (auto simp: import_hnz_protocol_def Let_def)
  have leaf: "msg_leaf c' code' (get_remote_station_addr c') = (if code' = code
      then Some (omap_insert n label (case msg_leaf c code (get_remote_station_addr c) of None \<Rightarrow> [] | Some l \<Rightarrow> l))
      else msg_leaf c code' (get_remote_station_addr c))" for code'
    unfolding msg_leaf_def c'(2,3) leaf_insert by (auto split: option.split)
  have "getLabel c' code' n' = (if code' = code \<and> u32 n' = n then label else getLabel c code' n')" for code' n'
    unfolding getLabel_def leaf by (auto simp: map_of_omap_insert split: option.split)
  with c'(1) assms(3,4) show ?thesis by auto
qed

theorem label_roundtrip_witness:
  "\<exists>c'. import_hnz_protocol (json_values default_docs) ''TS2'' (-1) (protocol_def ''hnzip'' (to_string 512) ''TS'')
      default_conf = (True, c') \<and> getLabel c' ''TS'' 512 = ''TS2'' \<and> getLabel c' ''TS'' 511 = ''TS1''"
proof -
  have r: "m_retrieve_string_def (json_values default_docs) (protocol_def ''hnzip'' (to_string 512) ''TS'') ''address'' [] []
      = (True, to_string 512)"
    "m_retrieve_string_def (json_values default_docs) (protocol_def ''hnzip'' (to_string 512) ''TS'') ''typeid'' [] []
      = (True, ''TS'')"
    by (simp_all add: m_retrieve_string_def_def protocol_members)
  have "getLabel default_conf ''TS'' 511 = ''TS1''"
    by (simp add: getLabel_def msg_leaf_def default_conf_def u32_def)
  with label_roundtrip [OF r, of "''TS2''" "-1" default_conf] show ?thesis by (auto simp: u32_def)
qed

text \<open>
  The address that ends a general interrogation is the largest of all points, not of the signals:
  after the import of a measure, or of any other point, with an address above those of all
  signals, no answer to a general interrogation ends it.
\<close>
lemma last_address_of_any_type:
  assumes "m_retrieve_string_def J protocol ''address'' [] [] = (True, to_string n)"
    and "m_retrieve_string_def J protocol ''typeid'' [] [] = (True, code)"
    and "getLastTSAddress c < n" and "0 \<le> n" and "n < 2 ^ 32"
    and "import_hnz_protocol J label trigger protocol c = (ok, c')"
    and "m_hnz_conf s = c'" and "\<forall>a \<in> set (m_gi_addresses_received s). a \<le> getLastTSAddress c"
  shows "getLastTSAddress c' = n \<and> check_last_TS E s = Inr s"
proof -
  have l: "getLastTSAddress c' = n"
    using assms(1-3,6) stoul_to_string [OF assms(4,5)] by (auto simp: import_hnz_protocol_def Let_def)
  have "last (m_gi_addresses_received s) \<noteq> n" if "m_gi_addresses_received s \<noteq> []"
    using last_in_set [OF that] assms(3,8) by fastforce
  then show ?thesis using l assms(7) by (auto simp: check_last_TS_def)
qed

lemma last_address_of_any_type_witness:
  "check_last_TS default_env (running_state\<lparr>m_gi_addresses_received := [511], m_hnz_conf :=
     snd (import_hnz_protocol (json_values default_docs) ''TM2'' (-1)
            (protocol_def ''hnzip'' (to_string 600) ''TM'') default_conf)\<rparr>)
   = Inr (running_state\<lparr>m_gi_addresses_received := [511], m_hnz_conf :=
     snd (import_hnz_protocol (json_values default_docs) ''TM2'' (-1)
            (protocol_def ''hnzip'' (to_string 600) ''TM'') default_conf)\<rparr>)"
proof -
  have r: "m_retrieve_string_def (json_values default_docs) (protocol_def ''hnzip'' (to_string 600) ''TM'') ''address'' [] []
      = (True, to_string 600)"
    "m_retrieve_string_def (json_values default_docs) (protocol_def ''hnzip'' (to_string 600) ''TM'') ''typeid'' [] []
      = (True, ''TM'')"
    by (simp_all add: m_retrieve_string_def_def protocol_members)
  obtain ok c' where c': "import_hnz_protocol (json_values default_docs) ''TM2'' (-1)
      (protocol_def ''hnzip'' (to_string 600) ''TM'') default_conf = (ok, c')" by fastforce
  have l: "getLastTSAddress default_conf = 511" by (simp add: default_conf_def)
  show ?thesis
    using last_address_of_any_type [OF r _ _ _ c', of "running_state\<lparr>m_gi_addresses_received := [511],
      m_hnz_conf := c'\<rparr>" default_env] by (simp add: c' l)
qed

section \<open>The station address\<close>

text \<open>
  The check of the station address accepts 64, which the six bits of a frame cannot carry: a path
  with this address ignores every frame it receives.
\<close>
lemma address_64_deaf:
  assumes "m_remote_address pa = get_remote_station_addr (snd (check_remote_addr c))"
    and "get_remote_station_addr c = 64" and "paths s p = pa"
    and "length (aubTrame fr) \<ge> 2"
  shows "fst (check_remote_addr c) \<and> getData E p crc (Some fr) s = Inr ([], s)"
proof -
  obtain b0 b1 r where fr: "aubTrame fr = b0 # b1 # r"
    using assms(4) by (metis Suc_le_length_iff numeral_2_eq_2)
  have "frame_address b0 \<noteq> 64" using frame_field_range(4) [of b0] by auto
  then have "m_analyze_frame E p fr s = Inr ([], s)"
    using assms(1-3) by (simp add: m_analyze_frame_def fr rd_def check_remote_addr_def)
  then show ?thesis using assms(2) by (simp add: getData_def check_remote_addr_def)
qed

lemma address_64_deaf_witness:
  "getData default_env Path_A (\<lambda>_. True) (Some \<lparr>aubTrame = [0x01, 0x0F, 0, 0], usLgBuffer = 4\<rparr>)
     (running_state\<lparr>paths := (\<lambda>_. (connected_path ''A'' ACTIVE)\<lparr>m_remote_address := 64\<rparr>)\<rparr>)
   = Inr ([], running_state\<lparr>paths := (\<lambda>_. (connected_path ''A'' ACTIVE)\<lparr>m_remote_address := 64\<rparr>)\<rparr>)"
  by (rule conjunct2 [OF address_64_deaf [where c = "default_conf\<lparr>get_remote_station_addr := 64\<rparr>"
      and pa = "(connected_path ''A'' ACTIVE)\<lparr>m_remote_address := 64\<rparr>"]])
    (simp_all add: check_remote_addr_def)

end
