(* ===== verification/HNZ_Command_Properties.thy ===== *)
theory HNZ_Command_Properties
  imports HNZ_Default
begin

text \<open>
  What the operations requested by Fledge and the entry points promise: the outcomes of a
  command, its expiry, and the start of the plugin.
\<close>

section \<open>Commands\<close>

text \<open>A parameter is a number when \<open>stoi\<close> accepts it.\<close>

definition well_formed_command :: "(string \<times> string) list \<Rightarrow> bool" where
  "well_formed_command params \<longleftrightarrow>
     command_param ''co_type'' params \<in> {''TC'', ''TVC''} \<and>
     command_param ''co_addr'' params \<noteq> [] \<and> command_param ''co_value'' params \<noteq> [] \<and>
     stoi_caught (command_param ''co_addr'' params) \<noteq> None \<and>
     stoi_caught (command_param ''co_value'' params) \<noteq> None"

text \<open>
  A command whose type is unknown, whose address or value is missing or is not a number is
  refused, and a command without an active path is too: the operation fails and nothing changes.
\<close>
lemma malformed_command_refused:
  assumes "m_hnz_connection s"
    and "\<not> well_formed_command params \<or> m_active_path s = None"
  shows "plugin_operation E ''HNZCommand'' params (Some s) = Inr (False, s)"
  using assms
  by (auto simp: plugin_operation_def operation_def processCommandOperation_def well_formed_command_def
      Let_def getActivePath_def send_command_def split: option.split)

lemma malformed_command_refused_witness:
  "plugin_operation default_env ''HNZCommand'' [(''co_type'', ''TC''), (''co_addr'', ''abc''), (''co_value'', ''1'')]
     (Some busy_state) = Inr (False, busy_state)"
  by (rule malformed_command_refused)
    (simp_all add: well_formed_command_def command_param_def stoi_caught_def stoi_def strto_def
      strto_prefix_def strto_sign_def starts_digit_def is_space_def digit_in_def digit_value_def)

text \<open>The message of a command and the address it is registered with.\<close>

definition command_message :: "env \<Rightarrow> string \<Rightarrow> int \<Rightarrow> int \<Rightarrow> byte list res" where
  "command_message E type a v =
     (if type = ''TC'' then tc_message E a (u8 v) else Inr (tvc_message E (u8 a) v))"

definition command_address :: "string \<Rightarrow> int \<Rightarrow> int" where
  "command_address type a = (if type = ''TC'' then a else uint (u8 a))"

lemma send_command_eq:
  assumes "type \<in> {''TC'', ''TVC''}" and "command_message E type a v = Inr msg"
  shows "send_command E p type a v s =
    (let (sent, t) = m_sendInfo E p msg s
     in Inr (if sent then 0 else 2, m_registerCommandIfSent E p type sent (command_address type a) t))"
  using assms
  by (auto simp: send_command_def command_message_def command_address_def sendTCCommand_def
      sendTVCCommand_def Let_def case_prod_beta)

lemma operation_command:
  assumes "well_formed_command params" and "m_hnz_connection s" and "m_active_path s = Some p"
    and "stoi_caught (command_param ''co_addr'' params) = Some a"
    and "stoi_caught (command_param ''co_value'' params) = Some v"
    and "command_message E (command_param ''co_type'' params) a v = Inr msg"
  shows "plugin_operation E ''HNZCommand'' params (Some s) =
    (let (sent, t) = m_sendInfo E p msg s
     in Inr (sent, m_registerCommandIfSent E p (command_param ''co_type'' params) sent
               (command_address (command_param ''co_type'' params) a) t))"
proof -
  have ty: "command_param ''co_type'' params \<in> {''TC'', ''TVC''}"
    using assms(1) by (simp add: well_formed_command_def)
  have "processCommandOperation E params s = send_command E p (command_param ''co_type'' params) a v s"
    using assms ty by (auto simp: processCommandOperation_def Let_def getActivePath_def well_formed_command_def)
  then show ?thesis
    by (auto simp: plugin_operation_def operation_def send_command_eq [OF ty assms(6)] Let_def
        case_prod_beta)
qed

text \<open>
  C14. A well-formed command with an active path: when the window is open its message is sent at once
  and the command is registered with its deadline, in front of the pending ones.  When the window
  is full the operation reports a failure and no command is registered, but the message has joined
  the queue and will be sent with one of the next acknowledgements.
\<close>
theorem command_outcomes:
  assumes "plugin_ok s" and "m_hnz_connection s" and "m_active_path s = Some p"
    and "well_formed_command params"
    and "stoi_caught (command_param ''co_addr'' params) = Some a"
    and "stoi_caught (command_param ''co_value'' params) = Some v"
    and "command_message E (command_param ''co_type'' params) a v = Inr msg"
  shows "\<exists>t. plugin_operation E ''HNZCommand'' params (Some s) = Inr (window_open (paths s p), t) \<and> plugin_ok t \<and>
    (if window_open (paths s p)
     then (\<exists>ctl. outs t = outs s @ [SendFrame p (m_address_ARP (paths s p)) (ctl # msg)]) \<and>
          msg_sent (paths t p) = msg_sent (paths s p) @ [\<lparr>ns = m_ns (paths s p), payload = msg\<rparr>] \<and>
          (\<exists>deadline. command_sent (paths t p) = \<lparr>cmd_type = command_param ''co_type'' params,
             cmd_addr = command_address (command_param ''co_type'' params) a,
             timestamp_max = deadline\<rparr> # command_sent (paths s p))
     else outs t = outs s \<and> command_sent (paths t p) = command_sent (paths s p) \<and>
          msg_waiting (paths t p) = msg_waiting (paths s p) @ [\<lparr>ns = 0, payload = msg\<rparr>])"
proof -
  note op = operation_command [OF assms(4,2,3,5,6,7)]
  have nd: "\<not> discarded (paths s p) msg"
    using active_is_connected(1) [of s p] assms(1,3) by (simp add: discarded_def plugin_ok_def)
  obtain sent u where si: "m_sendInfo E p msg s = (sent, u)" by fastforce
  define t where "t = m_registerCommandIfSent E p (command_param ''co_type'' params) sent
               (command_address (command_param ''co_type'' params) a) u"
  have eq: "plugin_operation E ''HNZCommand'' params (Some s) = Inr (sent, t)" by (simp add: op si t_def)
  have ok: "plugin_ok t"
    using operation_inv [OF assms(1)] eq by (simp add: plugin_operation_def)
  show ?thesis
  proof (cases "window_open (paths s p)")
    case False
    with si nd have "sent = False" "u = upd_path p (\<lambda>x. x\<lparr>msg_waiting := msg_waiting x @ [\<lparr>ns = 0, payload = msg\<rparr>]\<rparr>) s"
      by (simp_all add: m_sendInfo_def Let_def)
    with False eq ok show ?thesis by (intro exI [of _ t]) (simp add: t_def m_registerCommandIfSent_def)
  next
    case True
    then have "m_sendInfoImmediately E p \<lparr>ns = 0, payload = msg\<rparr> s = (sent, u)"
      using si nd by (simp add: m_sendInfo_def Let_def)
    then show ?thesis
    proof (cases rule: sendInfoImmediately_cases)
      case (sent time time')
      with True eq ok show ?thesis
        by (intro exI [of _ t]) (auto simp: t_def m_registerCommandIfSent_def)
    qed (use nd in simp)
  qed
qed

text \<open>The operation fails on the full window of the busy state, the message waits.\<close>

lemma stoi_caught_small: "0 \<le> n \<Longrightarrow> n < 2 ^ 31 \<Longrightarrow> stoi_caught (to_string n) = Some n"
  by (simp add: stoi_caught_def stoi_to_string)

theorem command_outcomes_witness:
  "\<exists>t msg. plugin_operation default_env ''HNZCommand''
      [(''co_type'', ''TC''), (''co_addr'', to_string 511), (''co_value'', to_string 1)] (Some busy_state)
      = Inr (False, t) \<and> msg_waiting (paths t Path_A) = [test_message 0, \<lparr>ns = 0, payload = msg\<rparr>]"
proof -
  define params where "params = [(''co_type'', ''TC''), (''co_addr'', to_string 511), (''co_value'', to_string 1)]"
  have p: "command_param ''co_type'' params = ''TC''" "command_param ''co_addr'' params = to_string 511"
    "command_param ''co_value'' params = to_string 1"
    by (simp_all add: params_def command_param_def)
  have n: "stoi_caught (to_string 511) = Some 511" "stoi_caught (to_string 1) = Some 1"
    by (simp_all add: stoi_caught_small)
  have ne: "to_string 511 \<noteq> []" "to_string 1 \<noteq> []" by (simp_all add: to_string_def dec_digits.simps)
  obtain b1 b2 where m: "command_message default_env ''TC'' 511 1 = Inr [TC_CODE default_env, b1, b2]"
    using tc_ack_address [of 511 default_env "u8 1"] by (auto simp: command_message_def)
  have w: "\<not> window_open (paths busy_state Path_A)" by (simp add: window_open_def)
  show ?thesis
    using command_outcomes [of busy_state Path_A params 511 1 default_env "[TC_CODE default_env, b1, b2]"]
      m n ne w unfolding params_def [symmetric]
    by (auto simp: p well_formed_command_def)
qed

section \<open>Starting the plugin\<close>

lemma sendAllTM_total:
  assumes "points_ok ''TM'' s"
  obtains t where "m_sendAllTMQualityReadings iv od rej s = Inr t" "fledge_only s t"
proof -
  define par where "par = new_ReadingParameters\<lparr>rp_msg_code := ''TM'', rp_station_addr := hnz_remote_address s,
          rp_valid := of_bool iv, rp_outdated := od, rp_an := ''TMA'', rp_qualityUpdate := True\<rparr>"
  have "msg_leaf (m_hnz_conf s) (rp_msg_code par) (rp_station_addr par) \<noteq> None"
    using assms by (simp add: par_def points_ok_def)
  from sendAllTI_total [OF this, of rej] that show thesis
    by (auto simp: m_sendAllTMQualityReadings_def par_def)
qed

lemma start_runs:
  assumes "m_hnz_connection s" "\<not> hnz_running s" "is_complete (m_hnz_conf s)" "points_ok ''TM'' s" "points_ok ''TS'' s"
  shows "\<exists>t. plugin_start E (Some s) = Inr (Some t) \<and> hnz_running t \<and> m_should_run t \<and> m_messages_thread t \<and>
      m_receiving_thread_A t \<and> (m_paths s Path_B \<longrightarrow> m_receiving_thread_B t) \<and> paths t = paths s \<and>
      m_active_path t = m_active_path s \<and> m_paths t = m_paths s \<and> conn_running t = conn_running s \<and>
      m_hnz_connection t \<and> m_hnz_conf t = m_hnz_conf s"
proof -
  define s1 where "s1 = s\<lparr>m_should_run := True, hnz_running := True\<rparr>"
  have "points_ok ''TM'' s1" using assms(4) by (simp add: points_ok_def s1_def)
  then obtain u where u: "m_sendAllTMQualityReadings True False [] s1 = Inr u" "fledge_only s1 u"
    by (rule sendAllTM_total)
  note fu = fledge_only_fields [OF u(2)]
  have "points_ok ''TS'' u" using assms(5) by (simp add: points_ok_def fu s1_def)
  then obtain v where v: "m_sendAllTSQualityReadings E True False [] u = Inr v" "fledge_only u v"
    using sendAllTS_total by blast
  note fv = fledge_only_fields [OF v(2)]
  have "m_should_run u" by (insert u(2) [unfolded fledge_only_def], erule ssubst) (simp add: s1_def)
  moreover have "m_should_run v = m_should_run u"
    by (insert v(2) [unfolded fledge_only_def], erule ssubst) simp
  ultimately have "m_should_run v" by simp
  with assms(1-3) u(1) v(1) show ?thesis
    by (simp add: plugin_start_def hnz_start_def Let_def s1_def [symmetric])
      (simp add: fu fv s1_def connection_start_def)
qed

text \<open>
  C26. Starting: the request to run is remembered.  Without a complete configuration, or when the
  plugin runs already, nothing else happens.  With a complete one the threads start and Fledge
  has been sent the quality of every point; but a complete configuration without a measure or
  without a signal of the station makes the start fail with an exception that nobody catches.
\<close>
theorem start_outcomes:
  assumes "m_hnz_connection s"
  shows "if hnz_running s \<or> \<not> is_complete (m_hnz_conf s)
    then plugin_start E (Some s) = Inr (Some (s\<lparr>m_should_run := True\<rparr>))
    else if points_ok ''TM'' s \<and> points_ok ''TS'' s
    then (\<exists>t. plugin_start E (Some s) = Inr (Some t) \<and> hnz_running t \<and> m_should_run t \<and> m_messages_thread t \<and>
            m_receiving_thread_A t \<and> (m_paths s Path_B \<longrightarrow> m_receiving_thread_B t) \<and>
            paths t = paths s \<and> m_active_path t = m_active_path s)
    else plugin_start E (Some s) = Inl Out_of_range"
proof -
  define s1 where "s1 = s\<lparr>m_should_run := True, hnz_running := True\<rparr>"
  have tm: "m_sendAllTMQualityReadings True False [] s1 = Inl Out_of_range" if "\<not> points_ok ''TM'' s"
    using that by (simp add: m_sendAllTMQualityReadings_def m_sendAllTIQualityReadings_def points_ok_def s1_def)
  have ts: "m_sendAllTSQualityReadings E True False [] u = Inl Out_of_range"
    if "\<not> points_ok ''TS'' u" for u
    using that by (simp add: m_sendAllTSQualityReadings_def m_sendAllTIQualityReadings_def points_ok_def
        asked_def Let_def)
  consider (idle) "hnz_running s \<or> \<not> is_complete (m_hnz_conf s)"
    | (no_tm) "\<not> hnz_running s" "is_complete (m_hnz_conf s)" "\<not> points_ok ''TM'' s"
    | (run) "\<not> hnz_running s" "is_complete (m_hnz_conf s)" "points_ok ''TM'' s" by blast
  then show ?thesis
  proof cases
    case run
    then have "points_ok ''TM'' s1" by (simp add: points_ok_def s1_def)
    then obtain u where u: "m_sendAllTMQualityReadings True False [] s1 = Inr u" "fledge_only s1 u"
      by (rule sendAllTM_total)
    note fu = fledge_only_fields [OF u(2)]
    have pu: "points_ok ''TS'' u = points_ok ''TS'' s" by (simp add: points_ok_def fu s1_def)
    show ?thesis
    proof (cases "points_ok ''TS'' s")
      case False
      with run u ts [of u] pu show ?thesis
        by (simp add: plugin_start_def hnz_start_def Let_def s1_def)
    next
      case True
      with run start_runs [OF assms, of E] show ?thesis by auto
    qed
  qed (use tm in \<open>auto simp: plugin_start_def hnz_start_def Let_def s1_def\<close>)
qed

theorem start_outcomes_witness:
  "plugin_start default_env (Some (running_state\<lparr>hnz_running := False, m_hnz_conf := default_conf
      \<lparr>get_all_messages := [''TS'' \<mapsto> [12 \<mapsto> [(511, ''TS1'')]]]\<rparr>\<rparr>)) = Inl Out_of_range"
proof -
  define s where "s = running_state\<lparr>hnz_running := False, m_hnz_conf := default_conf
      \<lparr>get_all_messages := [''TS'' \<mapsto> [12 \<mapsto> [(511, ''TS1'')]]]\<rparr>\<rparr>"
  have "m_hnz_connection s" "\<not> hnz_running s" "is_complete (m_hnz_conf s)" "\<not> points_ok ''TM'' s"
    by (simp_all add: s_def is_complete_def points_ok_def msg_leaf_def) (simp_all add: default_conf_def)
  with start_outcomes [of s default_env] show ?thesis by (simp add: s_def [symmetric])
qed

end
