(* ===== verification/HNZ_Startup.thy ===== *)
theory HNZ_Startup
  imports HNZ_Command_Properties HNZ_Switch_Properties HNZ_Json
begin

text \<open>
  The plugin from its first call on: configured with the default documents of \<open>src/plugin.cpp\<close>,
  started, connected, and brought to an active path by the two answers of the station.
\<close>

section \<open>Construction\<close>

text \<open>A path as it is after its construction from a configuration.\<close>

definition fresh_path :: "HNZConf \<Rightarrow> HNZPath \<Rightarrow> bool" where
  "fresh_path conf pa \<longleftrightarrow>
     m_remote_address pa = get_remote_station_addr conf \<and> m_last_connected pa = 0 \<and>
     m_repeat_timeout pa = s32 (get_repeat_timeout conf) \<and> m_protocol_state pa = CONNECTION"

lemma create_path_fresh:
  assumes "inactive s" and "get_paths_ip conf ! (case p of Path_A \<Rightarrow> 0 | Path_B \<Rightarrow> 1) \<noteq> []"
    and "t = create_path E conf p s"
  shows "fresh_path conf (paths t p)" "q \<noteq> p \<Longrightarrow> paths t q = paths s q"
    "m_paths t = (m_paths s)(p := True)" "m_hnz_conf t = m_hnz_conf s" "hnz_remote_address t = hnz_remote_address s"
    "hnz_running t = hnz_running s" "m_should_run t = m_should_run s"
proof -
  define i :: nat where "i = (case p of Path_A \<Rightarrow> 0 | Path_B \<Rightarrow> 1)"
  define l where "l = (case p of Path_A \<Rightarrow> ''A'' | Path_B \<Rightarrow> ''B'')"
  define pa where "pa = new_HNZPath conf (get_paths_repeat conf ! i) (get_paths_ip conf ! i)
                          (get_paths_port conf ! i) l"
  define u where "u = construct_path E p pa s"
  have t: "t = u\<lparr>m_paths := (m_paths u)(p := True)\<rparr>"
    using assms(2) by (simp add: assms(3) create_path_def Let_def u_def pa_def i_def l_def)
  note e = construct_path_effect [OF assms(1) pa_def, of E p, folded u_def]
  show "fresh_path conf (paths t p)" "q \<noteq> p \<Longrightarrow> paths t q = paths s q"
    using e(1) by (auto simp: t fresh_path_def pa_def new_HNZPath_def)
  show "m_paths t = (m_paths s)(p := True)" "m_hnz_conf t = m_hnz_conf s" "hnz_remote_address t = hnz_remote_address s"
    "hnz_running t = hnz_running s"
    using e(6) by (simp_all add: t same_conf_def)
  show "m_should_run t = m_should_run s"
    using e(7) by (simp add: t)
qed

lemma construct_connection_fresh:
  assumes "m_connStatus s = CS_NOT_CONNECTED" and "get_paths_ip conf = [ip0, ip1]" "ip0 \<noteq> []" "ip1 \<noteq> []"
    and "t = construct_connection E conf s"
  shows "inactive t" "conn_running t" "fresh_path conf (paths t q)" "m_paths t q" "m_hnz_conf t = m_hnz_conf s"
    "hnz_remote_address t = hnz_remote_address s" "hnz_running t = hnz_running s" "m_should_run t = m_should_run s"
proof -
  define s0 where "s0 = blank_connection s"
  define s1 where "s1 = create_path E conf Path_A s0"
  define s2 where "s2 = create_path E conf Path_B s1"
  show "inactive t" unfolding assms(5) by (rule construct_connection_inactive [OF assms(1)])
  have i0: "inactive s0"
    using assms(1) path_ok_new by (simp add: s0_def inactive_def blank_connection_def) (simp add: new_HNZPath_def)
  have i1: "inactive s1" unfolding s1_def by (rule create_path_inactive [OF i0])
  note f1 = create_path_fresh [OF i0 _ s1_def] and f2 = create_path_fresh [OF i1 _ s2_def]
  have t: "paths t = paths s2" "m_paths t = m_paths s2" "m_hnz_conf t = m_hnz_conf s2"
      "hnz_remote_address t = hnz_remote_address s2" "hnz_running t = hnz_running s2"
      "m_should_run t = m_should_run s2" "conn_running t"
    using assms(2-4)
    by (simp_all add: assms(5) construct_connection_def Let_def path_order_def s0_def s1_def s2_def audit_defs)
      (simp_all add: emit_def)
  show "conn_running t" by (fact t)
  show "fresh_path conf (paths t q)"
    using f1(1,2) f2(1,2) assms(2-4) by (cases q) (simp_all add: t)
  show "m_paths t q" using f1(3) f2(3) assms(2-4) by (cases q) (simp_all add: t)
  show "m_hnz_conf t = m_hnz_conf s" "hnz_remote_address t = hnz_remote_address s" "hnz_running t = hnz_running s"
    "m_should_run t = m_should_run s"
    using f1(4-) f2(4-) assms(2-4) by (simp_all add: t s0_def blank_connection_def)
qed

text \<open>The state after \<open>plugin_init\<close> with documents that configure both paths.\<close>

definition configured :: "HNZConf \<Rightarrow> sys \<Rightarrow> bool" where
  "configured conf s \<longleftrightarrow>
     plugin_ok s \<and> m_active_path s = None \<and> m_hnz_connection s \<and> conn_running s \<and> \<not> hnz_running s \<and>
     m_hnz_conf s = conf \<and> hnz_remote_address s = get_remote_station_addr conf \<and>
     (\<forall>p. m_paths s p \<and> fresh_path conf (paths s p))"

lemma init_configures:
  assumes "conf = import_both J a b" and "is_complete conf" and "a \<noteq> []" "b \<noteq> []"
    and "get_paths_ip conf = [ip0, ip1]" "ip0 \<noteq> []" "ip1 \<noteq> []"
  shows "\<exists>s. plugin_init E J (a, b) None addr msg = Inr s \<and> configured conf s"
proof -
  define name where "name = ''newConfig''"
  define s0 where "s0 = new_HNZ addr msg"
  define s1 where "s1 = (if name \<noteq> [] then s0\<lparr>m_service_name := name\<rparr> else s0)
      \<lparr>m_hnz_conf := conf, hnz_remote_address := get_remote_station_addr conf,
       hnz_test_msg_receive := get_test_msg_receive conf\<rparr>"
  define s2 where "s2 = construct_connection E conf s1"
  have s1: "m_connStatus s1 = CS_NOT_CONNECTED" "\<not> m_hnz_connection s1" "\<not> hnz_running s1"
      "\<not> m_should_run s1" "m_hnz_conf s1 = conf" "hnz_remote_address s1 = get_remote_station_addr conf"
    by (simp_all add: s1_def s0_def new_HNZ_def)
  note f = construct_connection_fresh [OF s1(1) assms(5-7) s2_def]
  define t where "t = s2\<lparr>m_hnz_connection := True\<rparr>"
  have "\<not> hnz_running s0" by (simp add: s0_def new_HNZ_def)
  have c: "importExchangedDataJson J b (importConfigJson J a new_HNZConf) = conf"
    by (simp add: assms(1) import_both_def)
  have r: "replace_connection E conf s1 = t"
    using s1(2) by (simp add: replace_connection_def Let_def t_def s2_def)
  have "conn_running t" "\<not> m_should_run t" using f(2,8) s1(4) by (simp_all add: t_def)
  have s1': "(if name \<noteq> [] then s0\<lparr>m_service_name := name\<rparr> else s0)
      \<lparr>m_hnz_conf := conf, hnz_remote_address := get_remote_station_addr conf,
       hnz_test_msg_receive := get_test_msg_receive conf\<rparr> = s1" by (simp add: s1_def)
  have "setJsonConfig E J a b name s0 = Inr (True, t)"
    using assms(2-4) \<open>conn_running t\<close> \<open>\<not> m_should_run t\<close> \<open>\<not> hnz_running s0\<close>
    unfolding setJsonConfig_def Let_def
    by (simp only: if_False if_True simp_thms c s1' r)
  then have "plugin_init E J (a, b) None addr msg = Inr t"
    by (simp add: plugin_init_def reconfigure_def s0_def name_def)
  moreover have "inactive t" using f(1) inactive_cong [of t s2] by (simp add: t_def)
  then have "plugin_ok t" "m_active_path t = None"
    using inactive_plugin_ok by (simp_all add: inactive_def)
  ultimately show ?thesis
    using f(2-7) s1 by (auto simp: configured_def t_def)
qed

section \<open>The answers of the station\<close>

text \<open>UA answers the plugin's own SARM; SARM asks for the other direction.\<close>

definition ua_frame :: "env \<Rightarrow> MSG_TRAME" where
  "ua_frame E = \<lparr>aubTrame = [0x33, UA_CODE E, 0, 0], usLgBuffer = 4\<rparr>"

definition sarm_frame :: "env \<Rightarrow> MSG_TRAME" where
  "sarm_frame E = \<lparr>aubTrame = [0x31, SARM_CODE E, 0, 0], usLgBuffer = 4\<rparr>"

lemma receive_answers:
  assumes "m_remote_address (paths s p) = 12" and "\<forall>n. tcp_connected E n" and "SARM_CODE E \<noteq> UA_CODE E"
  shows "receive_turn E p (\<lambda>_. True) (Some (ua_frame E)) s = Inr (asked (m_receivedUA E p s))"
    and "receive_turn E p (\<lambda>_. True) (Some (sarm_frame E)) s = Inr (asked (m_receivedSARM E p s))"
  using assms
  by (simp_all add: receive_turn_def getData_def ua_frame_def sarm_frame_def m_analyze_frame_def Let_def rd_def
      frame_address_def frame_direction_def expected_direction_def isTCPConnected_def now_connected_def)

lemma connect_at_once:
  assumes "conn_running s" and "\<forall>n. tcp_connected E n"
  shows "connect E p s = Some (upd_path p (\<lambda>x. x\<lparr>m_connection_thread := True\<rparr>)
      (asked (emit (ConnectServer p) (connect_begin E p s))))"
  unfolding connect_def using assms
  by (subst connect_loop_unfold) (simp add: connect_begin_def now_connected_def upd_path_def asked_def)

lemma ua_keeps_address:
  assumes "m_protocol_state (paths s p) = CONNECTION"
  shows "m_remote_address (paths (m_receivedUA E p s) p) = m_remote_address (paths s p)"
proof -
  have "m_remote_address (paths (requestConnectionState q st u) q) = m_remote_address (paths u q)" for q st u
    by (subst request_same_link [of u q q st, unfolded same_link_def]) simp
  then show ?thesis
    using assms
    by (simp add: m_receivedUA_def protocolStateTransition_def m_protocolStateTransitionMap_def Let_def action_defs)
qed

lemma startup_sequence:
  assumes "docs a = Some PROTOCOL_STACK_DEF" and "docs b = Some EXCHANGED_DATA_DEF" and "a \<noteq> []" and "b \<noteq> []"
    and "\<forall>n. tcp_connected E n" and "\<forall>n. 3000 < clock_ms E n" and "SARM_CODE E \<noteq> UA_CODE E"
  shows "\<exists>s0 s1 s2 s3 s4. plugin_init E (json_values docs) (a, b) None addr msg = Inr s0 \<and>
    plugin_start E (Some s0) = Inr (Some s1) \<and> hnz_running s1 \<and> m_hnz_connection s1 \<and> m_paths s1 p \<and>
    receive_begin E p s1 = Inr s2 \<and> receive_turn E p (\<lambda>_. True) (Some (ua_frame E)) s2 = Inr s3 \<and>
    receive_turn E p (\<lambda>_. True) (Some (sarm_frame E)) s3 = Inr s4 \<and>
    m_active_path s4 = Some p \<and> m_protocol_state (paths s4 p) = CONNECTED \<and>
    m_connection_state (paths s4 p) = ACTIVE \<and> m_connStatus s4 = CS_STARTED"
proof -
  have c: "default_conf = import_both (json_values docs) a b" using import_default [OF assms(1,2)] by simp
  have "get_paths_ip default_conf = [''192.168.0.10'', ''192.168.0.10'']" by (simp add: default_conf_def)
  then obtain s0 where s0: "plugin_init E (json_values docs) (a, b) None addr msg = Inr s0"
      "configured default_conf s0"
    using init_configures [OF c default_complete assms(3,4), of _ _ E addr msg] by auto
  have f0: "m_hnz_connection s0" "\<not> hnz_running s0" "m_hnz_conf s0 = default_conf" "conn_running s0" "plugin_ok s0"
      "m_active_path s0 = None" "m_paths s0 p" "fresh_path default_conf (paths s0 p)"
    using s0(2) by (simp_all add: configured_def)
  have "points_ok ''TS'' s0" "points_ok ''TM'' s0"
    using s0(2) by (simp_all add: points_ok_def msg_leaf_def configured_def default_conf_def)
  then obtain s1 where s1: "plugin_start E (Some s0) = Inr (Some s1)" "hnz_running s1" "paths s1 = paths s0"
      "m_active_path s1 = None" "m_paths s1 = m_paths s0" "conn_running s1" "m_hnz_connection s1"
      "m_hnz_conf s1 = default_conf"
    using start_runs [OF f0(1,2), of E] f0(3,4,6) default_complete by auto
  have "life_ok s0" using f0(5,6) by (simp add: life_ok_def)
  from hnz_start_life [OF this] s1(1) have ok1: "plugin_ok s1" by (simp add: plugin_start_def life_ok_def ebind_Inr_conv)
  obtain s2 where s2: "connect E p s1 = Some s2" "m_active_path s2 = None" "m_protocol_state (paths s2 p) = CONNECTION"
      "m_remote_address (paths s2 p) = 12" "m_last_connected (paths s2 p) = 0" "m_repeat_timeout (paths s2 p) = 3000"
    using connect_at_once [OF s1(6) assms(5), of p] f0(8) s1(3,4)
    by (auto simp: fresh_path_def default_conf_def emit_def asked_def upd_path_def connect_begin_def)
  have ok2: "plugin_ok s2" "m_paths s2 p"
    using connect_keeps [OF s2(1) ok1] s1(5) f0(7) by (simp_all add: same_conf_def)
  define u where "u = m_receivedUA E p s2"
  have ud: "u = protocolStateTransition E p RECEIVED_UA s2" by (simp add: u_def m_receivedUA_def)
  define s3 where "s3 = asked u"
  have u: "m_protocol_state (paths s3 p) = OUTPUT_CONNECTED" "m_active_path s3 = None"
      "m_last_connected (paths s3 p) = 0" "m_repeat_timeout (paths s3 p) = 3000" "m_remote_address (paths s3 p) = 12"
      "plugin_ok s3" "m_paths s3 p"
    using handshake_begins [OF s2(3) _ _ ud] s2 ua_keeps_address [OF s2(3), of E, folded u_def]
      transition_inv [OF ok2, of E RECEIVED_UA, folded ud] transition_conf [of s2 E p RECEIVED_UA, folded ud] ok2(2)
    by (simp_all add: s3_def asked_inv same_conf_def) (simp_all add: asked_def)
  have old: "\<forall>n. clock_ms E n - m_last_connected (paths s3 p) > m_repeat_timeout (paths s3 p)"
    using assms(6) u(3,4) by simp
  obtain v where v: "m_receivedSARM E p s3 = protocolStateTransition E p RECEIVED_SARM v" "plugin_ok v"
      "m_protocol_state (paths v p) = OUTPUT_CONNECTED" "m_active_path v = None" "m_paths v p"
    using receivedSARM_heeded [OF old] u by metis
  define w where "w = protocolStateTransition E p RECEIVED_SARM v"
  have w: "m_protocol_state (paths w p) = CONNECTED" "m_active_path w = Some p" "plugin_ok w"
    using handshake_ends [OF _ _ w_def] v transition_inv [OF v(2,5), of E RECEIVED_SARM, folded w_def] by simp_all
  then have st: "m_connection_state (paths w p) = ACTIVE" "m_connStatus w = CS_STARTED"
    using sys_okD(6) [of w] by (simp_all add: plugin_ok_def arbitration_defs)
  define s4 where "s4 = asked w"
  have "m_active_path s4 = Some p" "m_protocol_state (paths s4 p) = CONNECTED"
      "m_connection_state (paths s4 p) = ACTIVE" "m_connStatus s4 = CS_STARTED"
    using w st by (simp_all add: s4_def asked_def)
  moreover have "receive_turn E p (\<lambda>_. True) (Some (ua_frame E)) s2 = Inr s3"
    using receive_answers(1) [OF s2(4) assms(5,7)] by (simp add: s3_def u_def)
  moreover have "receive_turn E p (\<lambda>_. True) (Some (sarm_frame E)) s3 = Inr s4"
    using receive_answers(2) [OF u(5) assms(5,7)] v(1) by (simp add: w_def s4_def)
  ultimately show ?thesis using s0(1) s1(1,2,5,7,8) s2(1) f0(7) default_complete by (auto simp: receive_begin_def)
qed

text \<open>The same sequence as steps of the plugin.\<close>

lemma default_reaches_active:
  "\<exists>t. (plugin_step default_env (json_values default_docs) (\<lambda>_. True))\<^sup>*\<^sup>* (new_HNZ 0 default_bulle) t \<and>
     m_active_path t = Some p"
proof -
  let ?step = "plugin_step default_env (json_values default_docs) (\<lambda>_. True)"
  obtain s0 s1 s2 s3 s4 where s:
      "plugin_init default_env (json_values default_docs) (''stack'', ''data'') None 0 default_bulle = Inr s0"
      "plugin_start default_env (Some s0) = Inr (Some s1)" "hnz_running s1" "m_hnz_connection s1" "m_paths s1 p"
      "receive_begin default_env p s1 = Inr s2"
      "receive_turn default_env p (\<lambda>_. True) (Some (ua_frame default_env)) s2 = Inr s3"
      "receive_turn default_env p (\<lambda>_. True) (Some (sarm_frame default_env)) s3 = Inr s4" "m_active_path s4 = Some p"
    using startup_sequence [of default_docs "''stack''" "''data''" default_env 0 default_bulle p]
    by (auto simp: default_docs_def default_env_def)
  have t01: "?step\<^sup>*\<^sup>* (new_HNZ 0 default_bulle) s1"
  proof -
    have "reconfigure default_env (json_values default_docs) (Some ''stack'') (Some ''data'') ''newConfig''
        (new_HNZ 0 default_bulle) = Inr s0" using s(1) by (simp add: plugin_init_def)
    from plugin_step.configure [OF this] plugin_step.start [OF s(2)] show ?thesis
      by (metis converse_rtranclp_into_rtranclp r_into_rtranclp)
  qed
  have "life_ok s1" by (rule plugin.along [OF t01 new_HNZ_life])
  then have k2: "plugin_ok s2" "same_conf s1 s2" using receive_begin_keeps [OF s(6)] by (simp_all add: life_ok_def)
  have fits: "frame_fits (ua_frame default_env)" "frame_fits (sarm_frame default_env)"
    by (simp_all add: frame_fits_def ua_frame_def sarm_frame_def)
  have k3: "same_conf s2 s3" using receive_turn_keeps [OF s(7) k2(1)] k2(2) s(5) fits(1) by (simp add: same_conf_def)
  have t12: "?step s1 s2" by (rule plugin_step.receiving_thread_begins [OF s(3,4,6)])
  have t23: "?step s2 s3"
    by (rule plugin_step.receiving_thread [OF _ _ _ _ s(7)]) (use k2(2) s(3-5) fits(1) in \<open>auto simp: same_conf_def\<close>)
  have t34: "?step s3 s4"
    by (rule plugin_step.receiving_thread [OF _ _ _ _ s(8)])
      (use k2(2) k3 s(3-5) fits(2) in \<open>auto simp: same_conf_def\<close>)
  from t01 t12 t23 t34 have "?step\<^sup>*\<^sup>* (new_HNZ 0 default_bulle) s4" by (meson rtranclp.rtrancl_into_rtrancl)
  with s(9) show ?thesis by blast
qed

text \<open>
  C10. From the first call to an active path: the plugin, initialised without a configuration category, so
  with the default documents, starts without error, and on either path one connection and the two
  answers of the station, UA and SARM, make this path connected and active and the status "started".
  The sockets are assumed to be connected when asked and the clock to be past the repetition timeout.
\<close>
theorem plugin_comes_up:
  assumes "docs a = Some PROTOCOL_STACK_DEF" and "docs b = Some EXCHANGED_DATA_DEF" and "a \<noteq> []" and "b \<noteq> []"
    and "\<forall>n. tcp_connected E n" and "\<forall>n. 3000 < clock_ms E n" and "SARM_CODE E \<noteq> UA_CODE E"
  shows "\<exists>s0 s1 s2 s3 s4. plugin_init E (json_values docs) (a, b) None addr msg = Inr s0 \<and>
    plugin_start E (Some s0) = Inr (Some s1) \<and> receive_begin E p s1 = Inr s2 \<and>
    receive_turn E p (\<lambda>_. True) (Some (ua_frame E)) s2 = Inr s3 \<and>
    receive_turn E p (\<lambda>_. True) (Some (sarm_frame E)) s3 = Inr s4 \<and>
    m_active_path s4 = Some p \<and> m_protocol_state (paths s4 p) = CONNECTED \<and>
    m_connection_state (paths s4 p) = ACTIVE \<and> m_connStatus s4 = CS_STARTED"
  using startup_sequence [OF assms, of addr msg p] by blast

theorem plugin_comes_up_witness:
  "\<exists>s0 s1 s2 s3 s4. plugin_init default_env (json_values default_docs) (''stack'', ''data'') None 0
      default_bulle = Inr s0 \<and> plugin_start default_env (Some s0) = Inr (Some s1) \<and>
    receive_begin default_env Path_B s1 = Inr s2 \<and>
    receive_turn default_env Path_B (\<lambda>_. True) (Some (ua_frame default_env)) s2 = Inr s3 \<and>
    receive_turn default_env Path_B (\<lambda>_. True) (Some (sarm_frame default_env)) s3 = Inr s4 \<and>
    m_active_path s4 = Some Path_B \<and> m_protocol_state (paths s4 Path_B) = CONNECTED \<and>
    m_connection_state (paths s4 Path_B) = ACTIVE \<and> m_connStatus s4 = CS_STARTED"
  by (rule plugin_comes_up) (simp_all add: default_docs_def default_env_def)

end
