(* ===== verification/HNZ_Receiver.thy ===== *)
theory HNZ_Receiver
  imports HNZ_Link_Properties
begin

text \<open>
  The receiving side of a path: what information frames of the station do to the number expected
  next, which answers are sent and which messages are handed on, for one frame and for a stream of
  frames (\<open>m_receivedINFO\<close>, \<open>m_sendRR\<close> of \<open>src/hnzpath.cpp\<close>).
\<close>

section \<open>One information frame\<close>

text \<open>The information frame of a station: direction bit 0, numbers, payload and two bytes of CRC.\<close>

definition info_frame :: "int \<Rightarrow> int \<Rightarrow> int \<Rightarrow> int \<Rightarrow> byte list \<Rightarrow> MSG_TRAME" where
  "info_frame addr n pf nr pl =
     \<lparr>aubTrame = [u8 (addr * 4 + 1), u8 (nr * 0x20 + pf * 0x10 + n * 0x2)] @ pl @ [0, 0],
      usLgBuffer = int (length pl) + 4\<rparr>"

definition rr_frame :: "path_id \<Rightarrow> sys \<Rightarrow> int \<Rightarrow> int \<Rightarrow> effect" where
  "rr_frame p s n pf = SendFrame p (m_address_PA (paths s p)) [u8 (0x01 + n * 0x20 + pf * 0x10)]"

lemma extract_keeps:
  assumes "m_extract_messages E p data n s = Inr (ms, t)"
  shows "link_step p s t \<and> outs t = outs s \<and> m_nr (paths t p) = m_nr (paths s p) \<and>
    m_NRR (paths t p) = m_NRR (paths s p)"
  using assms
proof (induction E p data n s arbitrary: ms t rule: m_extract_messages.induct)
  case (1 E p data n s)
  obtain len bulle where r: "first_length E (m_test_msg_receive (paths s p)) data n = Inr (len, bulle)"
    using "1.prems"
    by (cases "first_length E (m_test_msg_receive (paths s p)) data n")
      (auto simp: m_extract_messages.simps [of E p data n s])
  define s1 where "s1 = (if bulle then m_receivedBULLE E p s else s)"
  have s1: "link_step p s s1" "outs s1 = outs s" "m_nr (paths s1 p) = m_nr (paths s p)"
      "m_NRR (paths s1 p) = m_NRR (paths s p)"
    unfolding s1_def m_receivedBULLE_def
    by (auto intro!: link_step_asked_upd simp: same_states_def path_settings.truncate_def)
  consider "t = s1" | msg ms' where "len \<noteq> 0" "len \<noteq> n" "convertPayloadToVector data len = Inr msg"
      "m_extract_messages E p (drop (nat len) data) (n - len) s1 = Inr (ms', t)"
    using "1.prems" r
    by (auto simp: m_extract_messages.simps [of E p data n s] Let_def s1_def split: if_splits sum.splits)
  then show ?case
  proof cases
    case 2
    with "1.IH" [OF r refl s1_def] s1 link_step_trans [OF s1(1)] show ?thesis by auto
  qed (use s1 in simp)
qed

text \<open>What the answer to an information frame does to the path.\<close>

lemma answer_effect:
  assumes "t = answer_info E p repetition n s"
  shows "m_nr (paths t p) = (if n = m_nr (paths s p) then (m_nr (paths s p) + 1) mod 8 else m_nr (paths s p))"
    and "m_NRR (paths t p) = m_NRR (paths s p)"
    and "outs t = outs s @ (if n = m_nr (paths s p) \<or> repetition
           then [rr_frame p s (m_nr (paths t p)) (of_bool repetition)] else [])"
  unfolding assms answer_info_def Let_def
  by (simp_all add: outs_sendFrame paths_sendFrame rr_frame_def)

text \<open>A path that takes information frames for itself.\<close>

definition receiving :: "env \<Rightarrow> path_id \<Rightarrow> sys \<Rightarrow> bool" where
  "receiving E p s \<longleftrightarrow>
     m_protocol_state (paths s p) \<in> {INPUT_CONNECTED, CONNECTED} \<and> canPathExtractMessage p s \<and>
     m_remote_address (paths s p) \<in> {0..63} \<and> m_nr (paths s p) \<in> {0..7} \<and> m_NRR (paths s p) \<in> {0..7} \<and>
     is_supervision (UA_CODE E) \<and> is_supervision (SARM_CODE E)"

lemma receiving_step:
  assumes "link_step p s t" and "m_nr (paths t p) \<in> {0..7}" and "m_NRR (paths t p) = m_NRR (paths s p)"
    and "receiving E p s"
  shows "receiving E p t"
  using assms path_only_fields [of p s t] same_states_settings [of "paths s p" "paths t p"]
  by (simp add: receiving_def link_step_def canPathExtractMessage_def)

lemma known_messages_step:
  assumes "link_step p s t"
  shows "m_test_msg_receive (paths t p) = m_test_msg_receive (paths s p)"
  using assms by (simp add: link_step_def same_states_def path_settings.truncate_def)

lemma info_address:
  assumes "addr \<in> {0..63}"
  shows "frame_address (u8 (addr * 4 + 1)) = addr" "frame_direction (u8 (addr * 4 + 1)) = 0"
proof -
  have "uint (u8 (addr * 4 + 1)) = addr * 4 + 1" using assms by (simp add: uint_u8)
  moreover have "(addr * 4 + 1) div 4 = addr" "(addr * 4 + 1) div 2 = addr * 2" by simp_all
  ultimately show "frame_address (u8 (addr * 4 + 1)) = addr" "frame_direction (u8 (addr * 4 + 1)) = 0"
    by (simp_all add: frame_address_def frame_direction_def shr_int and_one_eq)
qed

lemma info_frame_outcome:
  assumes "receiving E p s" and "n \<in> {0..7}" and "pf \<in> {0..1}"
    and "ms \<noteq> []" and "\<forall>m \<in> set ms. is_msg E (m_test_msg_receive (paths s p)) m"
    and "fr = info_frame (m_remote_address (paths s p)) n pf (m_NRR (paths s p)) (concat ms)"
  shows "\<exists>t. getData E p (\<lambda>_. True) (Some fr) s = Inr (ms, t) \<and> link_step p s t \<and>
    m_nr (paths t p) = (if n = m_nr (paths s p) then (m_nr (paths s p) + 1) mod 8 else m_nr (paths s p)) \<and>
    m_NRR (paths t p) = m_NRR (paths s p) \<and>
    outs t = outs s @ (if n = m_nr (paths s p) \<or> pf = 1 then [rr_frame p s (m_nr (paths t p)) pf] else [])"
proof -
  define addr where "addr = m_remote_address (paths s p)"
  define nr where "nr = m_NRR (paths s p)"
  define type where "type = u8 (nr * 0x20 + pf * 0x10 + n * 0x2)"
  note r = assms(1) [unfolded receiving_def]
  note c = control_byte_fields [of nr n pf, folded type_def]
  have cb: "frame_nr type = nr" "frame_ns type = n" "frame_pf type = pf" "\<not> is_supervision type"
    using c r assms(2,3) by (simp_all add: nr_def)
  have ne: "type \<noteq> UA_CODE E" "type \<noteq> SARM_CODE E" using cb(4) r by auto
  have d: "aubTrame fr = [u8 (addr * 4 + 1), type] @ concat ms @ [0, 0]"
      "usLgBuffer fr = int (length (concat ms)) + 4"
    by (simp_all add: assms(6) info_frame_def addr_def nr_def type_def)
  obtain u where u: "m_extract_messages E p (concat ms @ [0, 0]) (int (length (concat ms))) s = Inr (ms, u)"
    using extract_concat [OF assms(4,5)] by blast
  note k = extract_keeps [OF u]
  define t where "t = answer_info E p (pf = 1) n u"
  have rr: "m_sendRR E p (pf = 1) n nr u = Inr (True, t)"
    using k by (simp add: m_sendRR_def m_receivedRR_def nr_def t_def Let_def)
  have "m_receivedINFO E p (aubTrame fr) (usLgBuffer fr) s = Inr (ms, t)"
    using r u rr cb by (auto simp: m_receivedINFO_def d rd_def)
  then have "getData E p (\<lambda>_. True) (Some fr) s = Inr (ms, t)"
    using r ne cb(4) info_address [of addr]
    by (auto simp: getData_def m_analyze_frame_def Let_def d rd_def addr_def expected_direction_def)
  moreover have "link_step p s t"
    unfolding t_def by (rule link_step_trans [OF conjunct1 [OF k] link_step_answer_info])
  moreover have "rr_frame p u = rr_frame p s"
    using k same_states_settings(8) by (simp add: rr_frame_def link_step_def fun_eq_iff)
  moreover have "of_bool (pf = 1) = pf" using assms(3) by (cases "pf = 1") auto
  ultimately show ?thesis
    using answer_effect [OF t_def] k by (intro exI [of _ t]) simp
qed

section \<open>Streams of frames\<close>

text \<open>The frames a path receives one after the other, and all their messages in order.\<close>

fun receive_all ::
  "env \<Rightarrow> path_id \<Rightarrow> (MSG_TRAME \<Rightarrow> bool) \<Rightarrow> MSG_TRAME list \<Rightarrow> sys \<Rightarrow> (byte list list \<times> sys) res" where
  "receive_all E p crc [] s = Inr ([], s)"
| "receive_all E p crc (fr # frs) s =
     ebind (getData E p crc (Some fr) s) (\<lambda>(ms, s1).
     ebind (receive_all E p crc frs s1) (\<lambda>(rest, s2). Inr (ms @ rest, s2)))"

text \<open>The frames of a station that sends groups of messages, numbered from \<open>n\<close> on.\<close>

fun station_frames :: "int \<Rightarrow> int \<Rightarrow> int \<Rightarrow> byte list list list \<Rightarrow> MSG_TRAME list" where
  "station_frames addr nr n [] = []"
| "station_frames addr nr n (ms # mss) =
     info_frame addr n 0 nr (concat ms) # station_frames addr nr ((n + 1) mod 8) mss"

lemma mod8_add: "((a + 1) mod 8 + b) mod 8 = (a + (b + 1)) mod (8 :: int)"
  unfolding mod_add_left_eq by (simp add: ac_simps)

lemma stream_received_inv:
  assumes "receiving E p s" and "\<forall>ms \<in> set mss. ms \<noteq> []"
    and "\<forall>ms \<in> set mss. \<forall>m \<in> set ms. is_msg E (m_test_msg_receive (paths s p)) m"
  shows "\<exists>t. receive_all E p (\<lambda>_. True)
      (station_frames (m_remote_address (paths s p)) (m_NRR (paths s p)) (m_nr (paths s p)) mss) s
      = Inr (concat mss, t) \<and> link_step p s t \<and>
    m_nr (paths t p) = (m_nr (paths s p) + int (length mss)) mod 8 \<and>
    outs t = outs s @ map (\<lambda>i. rr_frame p s ((m_nr (paths s p) + (int i + 1)) mod 8) 0) [0..<length mss]"
  using assms
proof (induction mss arbitrary: s)
  case Nil
  then show ?case by (simp add: receiving_def)
next
  case (Cons ms mss)
  have n: "m_nr (paths s p) \<in> {0..7}" using Cons.prems(1) by (simp add: receiving_def)
  obtain u where u: "getData E p (\<lambda>_. True) (Some (info_frame (m_remote_address (paths s p)) (m_nr (paths s p)) 0
        (m_NRR (paths s p)) (concat ms))) s = Inr (ms, u)" "link_step p s u"
      "m_nr (paths u p) = (m_nr (paths s p) + 1) mod 8" "m_NRR (paths u p) = m_NRR (paths s p)"
      "outs u = outs s @ [rr_frame p s (m_nr (paths u p)) 0]"
    using info_frame_outcome [OF Cons.prems(1) n, of 0 ms] Cons.prems(2,3) by auto
  have r: "receiving E p u" using u(3) by (intro receiving_step [OF u(2) _ u(4) Cons.prems(1)]) simp
  note same = same_states_settings [of "paths s p" "paths u p"]
  have a: "m_remote_address (paths u p) = m_remote_address (paths s p)" "rr_frame p u = rr_frame p s"
    using same u(2) by (simp_all add: link_step_def rr_frame_def fun_eq_iff)
  obtain t where t: "receive_all E p (\<lambda>_. True)
      (station_frames (m_remote_address (paths u p)) (m_NRR (paths u p)) (m_nr (paths u p)) mss) u
      = Inr (concat mss, t)" "link_step p u t" "m_nr (paths t p) = (m_nr (paths u p) + int (length mss)) mod 8"
      "outs t = outs u @ map (\<lambda>i. rr_frame p u ((m_nr (paths u p) + (int i + 1)) mod 8) 0) [0..<length mss]"
    using Cons.IH [OF r] Cons.prems(2,3) known_messages_step [OF u(2)] by auto
  have "map (\<lambda>i. rr_frame p s ((m_nr (paths s p) + (int i + 1)) mod 8) 0) [0..<length (ms # mss)]
      = rr_frame p s ((m_nr (paths s p) + 1) mod 8) 0
        # map (\<lambda>i. rr_frame p s ((m_nr (paths u p) + (int i + 1)) mod 8) 0) [0..<length mss]"
    unfolding u(3) mod8_add by (simp add: upt_conv_Cons map_Suc_upt [symmetric] ac_simps del: upt_Suc)
  moreover have "m_nr (paths t p) = (m_nr (paths s p) + int (length (ms # mss))) mod 8"
    unfolding t(3) u(3) mod8_add by (simp add: add.commute)
  ultimately show ?case
    using u t link_step_trans [OF u(2) t(2)] a by (intro exI [of _ t]) (simp add: u(3))
qed

section \<open>Properties\<close>

text \<open>
  A stream of information frames that carry consecutive numbers is received completely: every
  message of every frame is handed on, once and in order, every frame is acknowledged by an RR with
  the number after its own, in order, and the number expected next has advanced by the number of
  frames modulo 8.
\<close>
lemma stream_received:
  assumes "receiving E p s" and "\<forall>ms \<in> set mss. ms \<noteq> []"
    and "\<forall>ms \<in> set mss. \<forall>m \<in> set ms. is_msg E (m_test_msg_receive (paths s p)) m"
  shows "\<exists>t. receive_all E p (\<lambda>_. True)
      (station_frames (m_remote_address (paths s p)) (m_NRR (paths s p)) (m_nr (paths s p)) mss) s
      = Inr (concat mss, t) \<and>
    m_nr (paths t p) = (m_nr (paths s p) + int (length mss)) mod 8 \<and>
    outs t = outs s @ map (\<lambda>i. rr_frame p s ((m_nr (paths s p) + (int i + 1)) mod 8) 0) [0..<length mss]"
  using stream_received_inv [OF assms] by blast

lemma running_receiving: "receiving default_env Path_A running_state"
  by (simp add: receiving_def canPathExtractMessage_def is_supervision_def default_env_def)

lemma known_messages: "is_msg default_env default_bulle [0x13, 0x04]" "is_msg default_env default_bulle [0x0F, 0x07]"
  by (simp_all add: is_msg_def known_length_def default_env_def default_bulle_def)

lemma stream_received_witness:
  "\<exists>t. receive_all default_env Path_A (\<lambda>_. True)
      (station_frames 12 0 0 [[[0x13, 0x04]], [[0x0F, 0x07], [0x13, 0x04]]]) running_state
      = Inr ([[0x13, 0x04], [0x0F, 0x07], [0x13, 0x04]], t) \<and> m_nr (paths t Path_A) = 2 \<and>
    outs t = outs running_state @ [rr_frame Path_A running_state 1 0, rr_frame Path_A running_state 2 0]"
  using stream_received [OF running_receiving, of "[[[0x13, 0x04]], [[0x0F, 0x07], [0x13, 0x04]]]"] known_messages
  by (simp add: upt_rec)

text \<open>
  C40. The number of a frame decides on the answer only, not on its messages.  A frame and its
  repetition, which the station sends when the answer was lost, hand on the same messages twice; so
  do frames whose number is not the expected one, after a lost frame for instance.  The number
  expected next advances at most once, and the repetition is answered with the last
  acknowledgement.
\<close>
theorem number_not_checked:
  assumes "receiving E p s" and "n \<in> {0..7}" and "ms \<noteq> []"
    and "\<forall>m \<in> set ms. is_msg E (m_test_msg_receive (paths s p)) m"
    and "fr = (\<lambda>pf. info_frame (m_remote_address (paths s p)) n pf (m_NRR (paths s p)) (concat ms))"
    and "expected = (if n = m_nr (paths s p) then (n + 1) mod 8 else m_nr (paths s p))"
  shows "\<exists>t. receive_all E p (\<lambda>_. True) [fr 0, fr 1] s = Inr (ms @ ms, t) \<and> m_nr (paths t p) = expected \<and>
    outs t = outs s @ (if n = m_nr (paths s p) then [rr_frame p s expected 0] else []) @ [rr_frame p s expected 1]"
proof -
  obtain u where u: "getData E p (\<lambda>_. True) (Some (fr 0)) s = Inr (ms, u)" "link_step p s u"
      "m_nr (paths u p) = expected" "m_NRR (paths u p) = m_NRR (paths s p)"
      "outs u = outs s @ (if n = m_nr (paths s p) then [rr_frame p s expected 0] else [])"
    using info_frame_outcome [OF assms(1,2) _ assms(3,4), of 0 "fr 0"] by (auto simp: assms(5,6))
  have e: "expected \<in> {0..7}" using assms(1) by (auto simp: assms(6) receiving_def)
  have ne: "n \<noteq> expected"
  proof (cases "n = m_nr (paths s p)")
    case True
    have "(n + 1) mod 8 \<noteq> n" using assms(2) by (cases "n = 7") (auto simp: mod_pos_pos_trivial)
    then show ?thesis using True by (simp add: assms(6))
  qed (simp add: assms(6))
  have r: "receiving E p u" using e u(3) by (intro receiving_step [OF u(2) _ u(4) assms(1)]) simp
  note same = same_states_settings [of "paths s p" "paths u p"]
  have a: "m_remote_address (paths u p) = m_remote_address (paths s p)" "rr_frame p u = rr_frame p s"
    using same u(2) by (simp_all add: link_step_def rr_frame_def fun_eq_iff)
  obtain t where t: "getData E p (\<lambda>_. True) (Some (fr 1)) u = Inr (ms, t)" "m_nr (paths t p) = expected"
      "outs t = outs u @ [rr_frame p s expected 1]"
    using info_frame_outcome [OF r assms(2) _ assms(3), of 1 "fr 1"] assms(4) known_messages_step [OF u(2)]
      a u(3,4) ne by (auto simp: assms(5))
  show ?thesis using u t by (intro exI [of _ t]) simp
qed

theorem number_not_checked_witness:
  "\<exists>t. receive_all default_env Path_A (\<lambda>_. True)
      [info_frame 12 0 0 0 [0x0F, 0x07], info_frame 12 0 1 0 [0x0F, 0x07]] running_state
      = Inr ([[0x0F, 0x07], [0x0F, 0x07]], t) \<and> m_nr (paths t Path_A) = 1 \<and>
    outs t = outs running_state @ [rr_frame Path_A running_state 1 0, rr_frame Path_A running_state 1 1]"
  using number_not_checked [OF running_receiving, of 0 "[[0x0F, 0x07]]"] known_messages
  by simp

end
