(* ===== verification/HNZ_Delivery.thy ===== *)
theory HNZ_Delivery
  imports HNZ_Receiver HNZ_Data_Properties
begin

text \<open>
  From the frames of the station to the readings of Fledge: the turns of the receiving thread
  (\<open>HNZ::receive\<close>, \<open>m_handle_message\<close> of \<open>src/hnz.cpp\<close>) over a stream of frames that carry measures.
\<close>

section \<open>The readings of a message\<close>

text \<open>Measure \<open>i\<close> of a TMN: four values of eight bits or two of sixteen, each with an invalid bit.\<close>

definition is_tm8 :: "byte list \<Rightarrow> bool" where
  "is_tm8 data \<longleftrightarrow> uint (data ! 6) \<ge> 128"

definition tmn_address :: "byte list \<Rightarrow> nat \<Rightarrow> int" where
  "tmn_address data i = uint (data ! 1) + (if is_tm8 data then int i else 2 * int i)"

definition tmn_reading :: "sys \<Rightarrow> byte list \<Rightarrow> nat \<Rightarrow> Reading" where
  "tmn_reading s data i =
     (let a = tmn_address data i
      in m_prepare_reading (new_ReadingParameters\<lparr>
           rp_label := getLabel (m_hnz_conf s) ''TM'' a, rp_msg_code := ''TM'',
           rp_station_addr := hnz_remote_address s, rp_msg_address := a,
           rp_value := (if is_tm8 data then uint (data ! (2 + i))
                        else sint (word_of_int (256 * uint (data ! (3 + 2 * i)) + uint (data ! (2 + 2 * i))) :: 16 word)),
           rp_valid := uint (data ! 6) div 2 ^ (if is_tm8 data then i else 2 * i) mod 2,
           rp_an := (if is_tm8 data then ''TM8'' else ''TM16'')\<rparr>))"

lemma tm8_bit: "drop_bit 7 (uint (b :: byte)) = 1 \<longleftrightarrow> uint b \<ge> 128"
proof -
  have "uint b div 128 < 2" using byte_range [of b] by simp
  then show ?thesis using byte_range [of b] by (auto simp: shr_int)
qed

lemma tmn_readings:
  assumes "length data = 7"
  shows "m_handleTMN s data =
    Inr (map (tmn_reading s data) (filter (\<lambda>i. tm_known s (tmn_address data i)) [0..<(if is_tm8 data then 4 else 2)]))"
proof -
  have r: "rd data 1 = Inr (data ! 1)" "rd data 6 = Inr (data ! 6)" using assms by (simp_all add: rd_def)
  have t8: "(drop_bit 7 (uint (data ! 6)) = 1) = is_tm8 data" by (simp add: tm8_bit is_tm8_def)
  define f where "f = (\<lambda>i readings. ebind (rd data 1) (\<lambda>adr.
     point_reading s ''TM'' (u32 (uint adr + (if is_tm8 data then int i else int i * 2))) (\<lambda>params.
       if is_tm8 data
       then ebind (rd data (2 + i)) (\<lambda>b.
            Inr (params\<lparr>rp_value := uint b, rp_valid := drop_bit i (uint (data ! 6)) AND 0x1, rp_an := ''TM8''\<rparr>))
       else ebind (rd data (2 + i * 2 + 1)) (\<lambda>high. ebind (rd data (2 + i * 2)) (\<lambda>low.
            Inr (params\<lparr>rp_value := tm16_value low high,
                        rp_valid := drop_bit (i * 2) (uint (data ! 6)) AND 0x1, rp_an := ''TM16''\<rparr>))))
     readings))"
  have "efold f [0..<(if is_tm8 data then 4 else 2)] []
    = Inr ([] @ map (tmn_reading s data) (filter (\<lambda>i. tm_known s (tmn_address data i)) [0..<(if is_tm8 data then 4 else 2)]))"
  proof (rule efold_readings)
    fix i :: nat and readings :: "Reading list" assume i: "i \<in> set [0..<(if is_tm8 data then 4 else 2)]"
    have u: "u32 (uint (data ! 1) + (if is_tm8 data then int i else int i * 2)) = tmn_address data i"
      using i byte_range [of "data ! 1"] by (auto simp: tmn_address_def split: if_splits)
    show "f i readings = Inr (if tm_known s (tmn_address data i) then readings @ [tmn_reading s data i] else readings)"
    proof (cases "is_tm8 data")
      case True
      then have rd: "rd data (2 + i) = Inr (data ! (2 + i))" using i assms by (simp add: rd_def)
      show ?thesis
        unfolding f_def r ebind.simps u rd point_reading_def Let_def tm_known_def tmn_reading_def
        by (simp add: True and_one_eq shr_int)
    next
      case False
      then have rd: "rd data (2 + i * 2 + 1) = Inr (data ! (3 + 2 * i))" "rd data (2 + i * 2) = Inr (data ! (2 + 2 * i))"
        using i assms False by (simp_all add: rd_def mult.commute numeral_3_eq_3)
      show ?thesis
        unfolding f_def r ebind.simps u rd point_reading_def Let_def tm_known_def tmn_reading_def tm16_signed
        by (simp add: False and_one_eq shr_int mult.commute)
    qed
  qed
  then show ?thesis by (simp add: m_handleTMN_def r t8 Let_def f_def)
qed

text \<open>The readings of a message of measures, in order: one for each point with a label.\<close>

definition measure_readings :: "env \<Rightarrow> sys \<Rightarrow> byte list \<Rightarrow> Reading list" where
  "measure_readings E s data =
     (if hd data = TM4_CODE E
      then map (tm4_reading s data) (filter (\<lambda>i. tm_known s (uint (data ! 1) + int i)) [0..<4])
      else map (tmn_reading s data)
             (filter (\<lambda>i. tm_known s (tmn_address data i)) [0..<(if is_tm8 data then 4 else 2)]))"

definition is_measure :: "env \<Rightarrow> byte list \<Rightarrow> bool" where
  "is_measure E data \<longleftrightarrow>
     data \<noteq> [] \<and> (hd data = TM4_CODE E \<and> length data = 6 \<or> hd data = TMN_CODE E \<and> length data = 7)"

lemma ingest_all: "m_ingest s \<Longrightarrow> fold ingest rs s = s\<lparr>outs := outs s @ map Ingest rs\<rparr>"
  by (induction rs arbitrary: s) (simp_all add: ingest_def emit_def)

lemma measure_handled:
  assumes "codes_distinct E" and "is_measure E data" and "m_ingest s"
  shows "m_handle_message E data s = Inr (s\<lparr>outs := outs s @ map Ingest (measure_readings E s data)\<rparr>)"
proof -
  note dist = assms(1) [unfolded codes_distinct_def, simplified]
  have rd0: "rd data 0 = Inr (hd data)" using assms(2) by (cases data) (auto simp: is_measure_def rd_def)
  have "dispatch E (hd data) data s = Inr (measure_readings E s data, s) \<and> hd data \<noteq> TSCG_CODE E"
  proof (cases "hd data = TM4_CODE E")
    case True
    then have "length data = 6" using assms(2) dist by (auto simp: is_measure_def)
    from tm4_readings [OF this, of s] show ?thesis
      using True dist by (simp add: dispatch_def measure_readings_def) metis
  next
    case False
    then have t: "hd data = TMN_CODE E" "length data = 7" using assms(2) by (auto simp: is_measure_def)
    from tmn_readings [OF t(2), of s] show ?thesis
      using t(1) False dist by (simp add: dispatch_def measure_readings_def) metis
  qed
  then show ?thesis
    using assms(3) by (simp add: m_handle_message_def rd0 m_sendToFledge_def ingest_all Let_def)
qed
section \<open>Streams of frames\<close>

text \<open>The turns of the receiving thread for frames that arrive one after the other.\<close>

definition receive_turns :: "env \<Rightarrow> path_id \<Rightarrow> (MSG_TRAME \<Rightarrow> bool) \<Rightarrow> MSG_TRAME list \<Rightarrow> sys \<Rightarrow> sys res" where
  "receive_turns E p crc frs s = efold (\<lambda>fr. receive_turn E p crc (Some fr)) frs s"

text \<open>What leaves the plugin for one frame: its acknowledgement, then its readings.\<close>

definition frame_effects :: "env \<Rightarrow> path_id \<Rightarrow> sys \<Rightarrow> int \<Rightarrow> byte list list \<Rightarrow> effect list" where
  "frame_effects E p s n ms = rr_frame p s n 0 # map Ingest (concat (map (measure_readings E s) ms))"

fun stream_effects :: "env \<Rightarrow> path_id \<Rightarrow> sys \<Rightarrow> int \<Rightarrow> byte list list list \<Rightarrow> effect list" where
  "stream_effects E p s n [] = []"
| "stream_effects E p s n (ms # mss) =
     frame_effects E p s ((n + 1) mod 8) ms @ stream_effects E p s ((n + 1) mod 8) mss"

lemma measure_readings_cong:
  assumes "m_hnz_conf t = m_hnz_conf s" and "hnz_remote_address t = hnz_remote_address s"
  shows "measure_readings E t = measure_readings E s"
  using assms by (simp add: measure_readings_def tm4_reading_def [abs_def] tmn_reading_def [abs_def]
      tm_known_def fun_eq_iff)

lemma measures_handled:
  assumes "codes_distinct E" and "\<forall>m \<in> set ms. is_measure E m" and "m_ingest s"
  shows "handle_messages E ms s
    = Inr (s\<lparr>outs := outs s @ map Ingest (concat (map (measure_readings E s) ms))\<rparr>)"
  using assms(2,3) unfolding handle_messages_def
proof (induction ms arbitrary: s)
  case (Cons m ms)
  have "measure_readings E (s\<lparr>outs := x\<rparr>) = measure_readings E s" for x
    by (rule measure_readings_cong) simp_all
  then show ?case using Cons measure_handled [OF assms(1), of m s] by simp
qed simp

lemma measure_is_msg: "codes_distinct E \<Longrightarrow> is_measure E m \<Longrightarrow> is_msg E b m"
  by (auto simp: is_measure_def is_msg_def known_length_def codes_distinct_def)

text \<open>What the readings and acknowledgements depend on does not change.\<close>

definition same_readings :: "env \<Rightarrow> path_id \<Rightarrow> sys \<Rightarrow> sys \<Rightarrow> bool" where
  "same_readings E p s t \<longleftrightarrow>
     measure_readings E t = measure_readings E s \<and> rr_frame p t = rr_frame p s \<and> m_ingest t = m_ingest s \<and>
     m_NRR (paths t p) = m_NRR (paths s p) \<and> m_remote_address (paths t p) = m_remote_address (paths s p)"

lemma stream_effects_cong: "same_readings E p s t \<Longrightarrow> stream_effects E p t n mss = stream_effects E p s n mss"
  by (induction mss arbitrary: n) (simp_all add: frame_effects_def same_readings_def)

lemma measures_frame:
  assumes "receiving E p s" and "codes_distinct E" and "m_ingest s"
    and "ms \<noteq> []" and "\<forall>m \<in> set ms. is_measure E m"
  shows "\<exists>t. receive_turn E p (\<lambda>_. True)
      (Some (info_frame (m_remote_address (paths s p)) (m_nr (paths s p)) 0 (m_NRR (paths s p)) (concat ms))) s = Inr t \<and>
    receiving E p t \<and> same_readings E p s t \<and> m_nr (paths t p) = (m_nr (paths s p) + 1) mod 8 \<and>
    outs t = outs s @ frame_effects E p s ((m_nr (paths s p) + 1) mod 8) ms"
proof -
  have n: "m_nr (paths s p) \<in> {0..7}" using assms(1) by (simp add: receiving_def)
  have msgs: "\<forall>m \<in> set ms. is_msg E (m_test_msg_receive (paths s p)) m"
    using assms(5) measure_is_msg [OF assms(2)] by blast
  obtain u where u: "getData E p (\<lambda>_. True) (Some (info_frame (m_remote_address (paths s p)) (m_nr (paths s p)) 0
        (m_NRR (paths s p)) (concat ms))) s = Inr (ms, u)" "link_step p s u"
      "m_nr (paths u p) = (m_nr (paths s p) + 1) mod 8" "m_NRR (paths u p) = m_NRR (paths s p)"
      "outs u = outs s @ [rr_frame p s ((m_nr (paths s p) + 1) mod 8) 0]"
    using info_frame_outcome [OF assms(1) n, of 0 ms] assms(4) msgs by auto
  have r: "receiving E p u" using u(3) by (intro receiving_step [OF u(2) _ u(4) assms(1)]) simp
  note only = path_only_fields [of p s u]
  have same: "m_address_PA (paths u p) = m_address_PA (paths s p)" "m_remote_address (paths u p) = m_remote_address (paths s p)"
    using u(2) same_states_settings [of "paths s p" "paths u p"] by (simp_all add: link_step_def)
  have eq: "same_readings E p s u"
    using same u(2,4) only measure_readings_cong [of u s]
    by (simp add: same_readings_def link_step_def rr_frame_def fun_eq_iff)
  define t where "t = u\<lparr>outs := outs u @ map Ingest (concat (map (measure_readings E u) ms))\<rparr>"
  have "handle_messages E ms u = Inr t"
    using measures_handled [OF assms(2,5), of u] eq assms(3) by (simp add: t_def same_readings_def)
  moreover have "receiving E p t" using r by (simp add: t_def receiving_def canPathExtractMessage_def)
  moreover have "same_readings E p s t"
    using eq measure_readings_cong [of t u] by (simp add: t_def same_readings_def rr_frame_def fun_eq_iff)
  moreover have "m_nr (paths t p) = (m_nr (paths s p) + 1) mod 8" using u(3) by (simp add: t_def)
  moreover have "outs t = outs s @ frame_effects E p s ((m_nr (paths s p) + 1) mod 8) ms"
    using u(5) eq by (simp add: t_def frame_effects_def same_readings_def)
  ultimately show ?thesis using u(1) assms(4) by (intro exI [of _ t]) (simp add: receive_turn_def)
qed

lemma measures_stream:
  assumes "receiving E p s" and "codes_distinct E" and "m_ingest s"
    and "\<forall>ms \<in> set mss. ms \<noteq> [] \<and> (\<forall>m \<in> set ms. is_measure E m)"
  shows "\<exists>t. receive_turns E p (\<lambda>_. True)
      (station_frames (m_remote_address (paths s p)) (m_NRR (paths s p)) (m_nr (paths s p)) mss) s = Inr t \<and>
    m_nr (paths t p) = (m_nr (paths s p) + int (length mss)) mod 8 \<and>
    outs t = outs s @ stream_effects E p s (m_nr (paths s p)) mss"
  using assms(1,3,4)
proof (induction mss arbitrary: s)
  case Nil
  then show ?case by (simp add: receive_turns_def receiving_def)
next
  case (Cons ms mss)
  obtain u where u: "receive_turn E p (\<lambda>_. True) (Some (info_frame (m_remote_address (paths s p)) (m_nr (paths s p)) 0
        (m_NRR (paths s p)) (concat ms))) s = Inr u" "receiving E p u" "same_readings E p s u"
      "m_nr (paths u p) = (m_nr (paths s p) + 1) mod 8"
      "outs u = outs s @ frame_effects E p s ((m_nr (paths s p) + 1) mod 8) ms"
    using measures_frame [OF Cons.prems(1) assms(2) Cons.prems(2), of ms] Cons.prems(3) by auto
  obtain t where t: "receive_turns E p (\<lambda>_. True)
      (station_frames (m_remote_address (paths s p)) (m_NRR (paths s p)) ((m_nr (paths s p) + 1) mod 8) mss) u = Inr t"
      "m_nr (paths t p) = (m_nr (paths u p) + int (length mss)) mod 8"
      "outs t = outs u @ stream_effects E p u (m_nr (paths u p)) mss"
    using Cons.IH [OF u(2)] u(3,4) Cons.prems(2,3) by (auto simp: same_readings_def)
  have "m_nr (paths t p) = (m_nr (paths s p) + int (length (ms # mss))) mod 8"
    unfolding t(2) u(4) mod8_add by (simp add: add.commute)
  then show ?case
    using u t stream_effects_cong [OF u(3)] by (intro exI [of _ t]) (simp add: receive_turns_def)
qed

section \<open>Properties\<close>

text \<open>
  C4. Measures are delivered.  When the path that hands messages on receives a stream of information
  frames with consecutive numbers, each of any number of messages of measures (TM4 or TMN), the
  receiving thread answers every frame with the RR of its number and then gives Fledge one reading
  for every configured measure of the frame, with its address, value and validity, in the order of
  the messages and of the measures within them; nothing else leaves the plugin, and nothing is lost.
\<close>
theorem measures_delivered:
  assumes "receiving E p s" and "codes_distinct E" and "m_ingest s"
    and "\<forall>ms \<in> set mss. ms \<noteq> [] \<and> (\<forall>m \<in> set ms. is_measure E m)"
  shows "\<exists>t. receive_turns E p (\<lambda>_. True)
      (station_frames (m_remote_address (paths s p)) (m_NRR (paths s p)) (m_nr (paths s p)) mss) s = Inr t \<and>
    m_nr (paths t p) = (m_nr (paths s p) + int (length mss)) mod 8 \<and>
    outs t = outs s @ stream_effects E p s (m_nr (paths s p)) mss"
  by (rule measures_stream [OF assms])

text \<open>A configuration with the measures 20 and 22.\<close>

definition measuring_state :: sys where
  "measuring_state = running_state\<lparr>m_hnz_conf := default_conf
     \<lparr>get_all_messages := [''TM'' \<mapsto> [12 \<mapsto> [(20, ''TM-20''), (22, ''TM-22'')]]]\<rparr>\<rparr>"

lemma measuring_receiving: "receiving default_env Path_A measuring_state" "m_ingest measuring_state"
  using running_receiving
  by (simp_all add: measuring_state_def receiving_def canPathExtractMessage_def running_state_def)

definition measure_20 :: "int \<Rightarrow> string \<Rightarrow> effect" where
  "measure_20 v an = Ingest (Reading ''TM-20'' ''data_object'' (DP_dict
     [(''do_type'', DP_str ''TM''), (''do_station'', DP_int 12), (''do_addr'', DP_int 20), (''do_value'', DP_int v),
      (''do_valid'', DP_int 0), (''do_an'', DP_str an), (''do_outdated'', DP_int 0)]))"

definition measure_22 :: "int \<Rightarrow> int \<Rightarrow> string \<Rightarrow> effect" where
  "measure_22 v iv an = Ingest (Reading ''TM-22'' ''data_object'' (DP_dict
     [(''do_type'', DP_str ''TM''), (''do_station'', DP_int 12), (''do_addr'', DP_int 22), (''do_value'', DP_int v),
      (''do_valid'', DP_int iv), (''do_an'', DP_str an), (''do_outdated'', DP_int 0)]))"

lemmas reading_defs = measure_20_def measure_22_def measure_readings_def tm4_reading_def tmn_reading_def
  tm_known_def is_tm8_def tmn_address_def getLabel_def msg_leaf_def m_prepare_reading_def new_ReadingParameters_def

lemma measuring_fields: "outs measuring_state = []" "paths measuring_state Path_A = connected_path ''A'' ACTIVE"
  by (simp_all add: measuring_state_def running_state_def new_HNZ_def)

lemma tm4_example:
  "map Ingest (measure_readings default_env measuring_state [0x02, 20, 254, 7, 0xFF, 0]) = [measure_20 (-1) ''TMA'', measure_22 0 1 ''TMA'']"
  by (simp add: reading_defs measuring_state_def default_env_def default_conf_def upt_rec)

lemma tmn_example:
  "map Ingest (measure_readings default_env measuring_state [0x0C, 20, 0, 0xFF, 1, 2, 0x04]) = [measure_20 (-256) ''TM16'', measure_22 513 1 ''TM16'']"
  by (simp add: reading_defs measuring_state_def default_env_def default_conf_def upt_rec)

theorem measures_delivered_witness:
  "\<exists>t. receive_turns default_env Path_A (\<lambda>_. True)
      (station_frames 12 0 0 [[[0x02, 20, 254, 7, 0xFF, 0]], [[0x0C, 20, 0, 0xFF, 1, 2, 0x04]]]) measuring_state = Inr t \<and>
    m_nr (paths t Path_A) = 2 \<and>
    outs t = [rr_frame Path_A measuring_state 1 0, measure_20 (-1) ''TMA'', measure_22 0 1 ''TMA'',
              rr_frame Path_A measuring_state 2 0, measure_20 (-256) ''TM16'', measure_22 513 1 ''TM16'']"
proof -
  have "is_measure default_env [0x02, 20, 254, 7, 0xFF, 0]" "is_measure default_env [0x0C, 20, 0, 0xFF, 1, 2, 0x04]"
    by (simp_all add: is_measure_def default_env_def)
  then show ?thesis
    using measures_delivered [OF measuring_receiving(1) default_codes measuring_receiving(2),
        of "[[[0x02, 20, 254, 7, 0xFF, 0]], [[0x0C, 20, 0, 0xFF, 1, 2, 0x04]]]"] tm4_example tmn_example
    by (simp add: measuring_fields frame_effects_def)
qed

end
