(* ===== verification/HNZ_GI_Cycle.thy ===== *)
theory HNZ_GI_Cycle
  imports HNZ_GI_Properties HNZ_Data_Properties
begin

text \<open>
  A whole general interrogation seen from the messages that answer it: from the first TSCG to the
  one that has the last signal (\<open>m_handle_message\<close>, \<open>m_handleTSCG\<close>, \<open>GICompleted\<close> of \<open>src/hnz.cpp\<close>).
\<close>

section \<open>One TSCG\<close>

definition tscg_addresses :: "sys \<Rightarrow> byte list \<Rightarrow> int list" where
  "tscg_addresses s data = map (tscg_addr data) (filter (tscg_known s data) [0..<16])"

definition tscg_effects :: "sys \<Rightarrow> byte list \<Rightarrow> effect list" where
  "tscg_effects s data = map (\<lambda>i. Ingest (tscg_reading s data i)) (filter (tscg_known s data) [0..<16])"

definition is_tscg :: "env \<Rightarrow> byte list \<Rightarrow> bool" where
  "is_tscg E data \<longleftrightarrow> length data = 6 \<and> hd data = TSCG_CODE E"

text \<open>The addresses received so far end with the last one of the configuration.\<close>

definition last_received :: "sys \<Rightarrow> int list \<Rightarrow> bool" where
  "last_received s received \<longleftrightarrow> received \<noteq> [] \<and> last received = getLastTSAddress (m_hnz_conf s)"

text \<open>The state after a TSCG, before it is checked whether the GI has ended.\<close>

definition tscg_state :: "sys \<Rightarrow> byte list \<Rightarrow> sys" where
  "tscg_state s data = s
     \<lparr>m_gi_addresses_received := m_gi_addresses_received s @ tscg_addresses s data,
      m_giStatus := (if m_giStatus s = GI_STARTED then GI_IN_PROGRESS else m_giStatus s),
      outs := outs s @ (if m_giStatus s = GI_STARTED then gi_event s GI_IN_PROGRESS else []) @ tscg_effects s data\<rparr>"

lemma update_gi_eq: "m_ingest s \<Longrightarrow> updateGiStatus st s =
    s\<lparr>m_giStatus := st, outs := outs s @ (if m_giStatus s = st then [] else gi_event s st)\<rparr>"
  by (simp add: updateGiStatus_def gi_event_def m_sendSouthMonitoringEvent_def Let_def m_sendToFledge_def
      ingest_def emit_def)

lemma send_readings_eq: "m_ingest s \<Longrightarrow> m_sendToFledge rs s = s\<lparr>outs := outs s @ map Ingest rs\<rparr>"
  unfolding m_sendToFledge_def by (induction rs arbitrary: s) (simp_all add: ingest_def emit_def)

lemma tscg_handled:
  assumes "codes_distinct E" and "is_tscg E data" and "m_ingest s"
  shows "m_handle_message E data s = check_last_TS E (tscg_state s data)"
proof -
  note dist = assms(1) [unfolded codes_distinct_def, simplified]
  have len: "length data = 6" and t: "hd data = TSCG_CODE E" using assms(2) by (simp_all add: is_tscg_def)
  have rd0: "rd data 0 = Inr (TSCG_CODE E)" using len t by (cases data) (simp_all add: rd_def)
  define known where "known = filter (tscg_known s data) [0..<16]"
  define s1 where "s1 = s\<lparr>m_gi_addresses_received := m_gi_addresses_received s @ map (tscg_addr data) known\<rparr>"
  define s2 where "s2 = (if m_giStatus s1 = GI_STARTED then updateGiStatus GI_IN_PROGRESS s1 else s1)"
  have "efold (tscg_point data) [0..<16] ([], s) = Inr (map (tscg_reading s data) known, s1)"
    using tscg_points_eq [OF len, of "[0..<16]" "[]" s] by (simp add: known_def s1_def)
  then have "m_handleTSCG data s = Inr (map (tscg_reading s data) known, s2)"
    by (simp add: m_handleTSCG_def getGiStatus_def s2_def)
  then have d: "dispatch E (TSCG_CODE E) data s = Inr (map (tscg_reading s data) known, s2)"
    using dist by (simp add: dispatch_def) metis
  have i: "m_ingest s1" "m_ingest s2"
    using assms(3) update_gi_eq [of s1] by (simp_all add: s1_def s2_def)
  have "gi_event s1 = gi_event s" by (rule gi_event_cong) (simp add: s1_def)
  then have "m_sendToFledge (map (tscg_reading s data) known) s2 = tscg_state s data"
    using assms(3) unfolding s2_def update_gi_eq [OF i(1)]
    by (simp add: send_readings_eq s1_def tscg_state_def tscg_addresses_def tscg_effects_def known_def o_def)
  then show ?thesis
    by (cases "known = []") (simp_all add: m_handle_message_def rd0 d Let_def m_sendToFledge_def)
qed

lemma check_last_eq:
  assumes "msg_leaf (m_hnz_conf s) ''TS'' (hnz_remote_address s) = Some points"
  shows "check_last_TS E s = (if last_received s (m_gi_addresses_received s) then GICompleted E True s else Inr s)"
  using assms by (auto simp: check_last_TS_def last_received_def m_getMismatchingTSCGAddresses_def checkGICompleted_def)

section \<open>The messages that answer an interrogation\<close>

text \<open>The last configured signal comes with the last of the messages and not before.\<close>

fun answers_gi :: "sys \<Rightarrow> int list \<Rightarrow> byte list list \<Rightarrow> bool" where
  "answers_gi s received [] \<longleftrightarrow> False"
| "answers_gi s received (data # rest) \<longleftrightarrow>
     (let received' = received @ tscg_addresses s data in
      if last_received s received' then rest = [] else answers_gi s received' rest)"

lemma same_conf_facts:
  assumes "m_hnz_conf t = m_hnz_conf s" and "hnz_remote_address t = hnz_remote_address s"
  shows "tscg_addresses t = tscg_addresses s" "tscg_effects t = tscg_effects s" "last_received t = last_received s"
    "gi_event t = gi_event s" "missing_reading t = missing_reading s" "answers_gi t = answers_gi s"
proof -
  show a: "tscg_addresses t = tscg_addresses s" "last_received t = last_received s"
    using assms by (simp_all add: tscg_addresses_def tscg_known_def [abs_def] last_received_def fun_eq_iff)
  show "tscg_effects t = tscg_effects s" "missing_reading t = missing_reading s" "gi_event t = gi_event s"
    using assms by (simp_all add: tscg_effects_def tscg_known_def [abs_def] tscg_reading_def missing_reading_def
        gi_event_def fun_eq_iff)
  have "answers_gi t r ms = answers_gi s r ms" for r ms
    by (induction ms arbitrary: r) (simp_all add: a Let_def)
  then show "answers_gi t = answers_gi s" by (simp add: fun_eq_iff)
qed

lemma gi_answered:
  assumes "codes_distinct E" and "msg_leaf (m_hnz_conf s) ''TS'' (hnz_remote_address s) = Some points"
    and "m_ingest s" and "\<not> m_giInQueue s" and "m_giStatus s \<in> {GI_STARTED, GI_IN_PROGRESS}"
    and "\<forall>m \<in> set ms. is_tscg E m" and "answers_gi s (m_gi_addresses_received s) ms"
  shows "\<exists>t. handle_messages E ms s = Inr t \<and> m_giStatus t = GI_FINISHED \<and> m_gi_repeat t = 0 \<and>
    m_gi_addresses_received t = [] \<and>
    outs t = outs s @ (if m_giStatus s = GI_STARTED then gi_event s GI_IN_PROGRESS else []) @
      concat (map (tscg_effects s) ms) @
      missing_effects E s (m_gi_addresses_received s @ concat (map (tscg_addresses s) ms)) points @
      gi_event s GI_FINISHED"
  using assms(2-7) unfolding handle_messages_def
proof (induction ms arbitrary: s)
  case (Cons m ms)
  define u where "u = tscg_state s m"
  have u: "m_hnz_conf u = m_hnz_conf s" "hnz_remote_address u = hnz_remote_address s" "m_ingest u" "\<not> m_giInQueue u"
      "m_giStatus u = GI_IN_PROGRESS" "now_ms E u = now_ms E s"
      "m_gi_addresses_received u = m_gi_addresses_received s @ tscg_addresses s m"
      "outs u = outs s @ (if m_giStatus s = GI_STARTED then gi_event s GI_IN_PROGRESS else []) @ tscg_effects s m"
    using Cons.prems(2-4) by (auto simp: u_def tscg_state_def now_ms_def)
  note same = same_conf_facts [OF u(1,2)]
  have missing: "missing_effects E u = missing_effects E s" by (simp add: missing_effects_def same u(6) fun_eq_iff)
  have leaf: "msg_leaf (m_hnz_conf u) ''TS'' (hnz_remote_address u) = Some points" using Cons.prems(1) u by simp
  have step: "m_handle_message E m s
      = (if last_received s (m_gi_addresses_received s @ tscg_addresses s m) then GICompleted E True u else Inr u)"
    using tscg_handled [OF assms(1), of m s] Cons.prems(2,5) check_last_eq [OF leaf] same(3) u(7) by (simp add: u_def)
  show ?case
  proof (cases "last_received s (m_gi_addresses_received s @ tscg_addresses s m)")
    case True
    then have "ms = []" using Cons.prems(6) by (simp add: Let_def)
    then show ?thesis
      using gi_end [OF leaf u(3,4), of E True] True step
      by (auto simp: u same missing gi_outcome_def)
  next
    case False
    then have "answers_gi u (m_gi_addresses_received u) ms" using Cons.prems(6) by (simp add: same u(7) Let_def)
    then obtain t where "efold (m_handle_message E) ms u = Inr t" "m_giStatus t = GI_FINISHED" "m_gi_repeat t = 0"
        "m_gi_addresses_received t = []"
        "outs t = outs u @ concat (map (tscg_effects s) ms) @
          missing_effects E s (m_gi_addresses_received u @ concat (map (tscg_addresses s) ms)) points @ gi_event s GI_FINISHED"
      using Cons.IH [OF leaf u(3,4)] Cons.prems(5) u(5) by (auto simp: same missing)
    then show ?thesis using False step by (simp add: u)
  qed
qed simp

section \<open>Properties\<close>

text \<open>
  C5. A general interrogation that is answered.  When the messages of signals (TSCG) that follow a
  request bring the last configured signal with the last of them, Fledge gets: the status "in
  progress" with the first message, one reading for every configured signal of every message, in
  order, an invalid reading for exactly the configured signals that no message had, and the status
  "finished"; the counter of the GI and the received addresses are cleared.
\<close>
theorem gi_cycle:
  assumes "codes_distinct E" and "msg_leaf (m_hnz_conf s) ''TS'' (hnz_remote_address s) = Some points"
    and "m_ingest s" and "\<not> m_giInQueue s" and "m_giStatus s \<in> {GI_STARTED, GI_IN_PROGRESS}"
    and "\<forall>m \<in> set ms. is_tscg E m" and "answers_gi s (m_gi_addresses_received s) ms"
  shows "\<exists>t. handle_messages E ms s = Inr t \<and> m_giStatus t = GI_FINISHED \<and> m_gi_repeat t = 0 \<and>
    m_gi_addresses_received t = [] \<and>
    outs t = outs s @ (if m_giStatus s = GI_STARTED then gi_event s GI_IN_PROGRESS else []) @
      concat (map (tscg_effects s) ms) @
      missing_effects E s (m_gi_addresses_received s @ concat (map (tscg_addresses s) ms)) points @
      gi_event s GI_FINISHED"
  by (rule gi_answered [OF assms])

text \<open>A GI has been asked for; the signals 511, 550 and 601 are configured.\<close>

definition asked_points :: "(int \<times> string) list" where
  "asked_points = [(511, ''TS-1''), (550, ''TS-2''), (601, ''TS-3'')]"

definition asking_state :: sys where
  "asking_state = running_state\<lparr>m_gi_repeat := 1, m_giStatus := GI_STARTED,
     m_hnz_conf := default_conf\<lparr>get_all_messages := [''TS'' \<mapsto> [12 \<mapsto> asked_points]], getLastTSAddress := 601\<rparr>\<rparr>"

lemma asking_fields:
  "msg_leaf (m_hnz_conf asking_state) ''TS'' (hnz_remote_address asking_state) = Some asked_points"
  "m_ingest asking_state" "\<not> m_giInQueue asking_state" "m_giStatus asking_state = GI_STARTED" "outs asking_state = []"
  "m_gi_addresses_received asking_state = []" "now_ms default_env asking_state = 1700000000000"
  by (simp_all add: asking_state_def msg_leaf_def default_conf_def now_ms_def)
    (simp_all add: running_state_def new_HNZ_def default_env_def)

definition signal :: "string \<Rightarrow> int \<Rightarrow> int \<Rightarrow> int \<Rightarrow> effect" where
  "signal label a v iv = Ingest (Reading label ''data_object'' (DP_dict
     [(''do_type'', DP_str ''TS''), (''do_station'', DP_int 12), (''do_addr'', DP_int a), (''do_value'', DP_int v),
      (''do_valid'', DP_int iv), (''do_cg'', DP_int 1), (''do_outdated'', DP_int 0)]))"

definition gi_told :: "string \<Rightarrow> effect" where
  "gi_told st = Ingest (Reading ''CONNECTION-1'' ''south_event'' (DP_dict [(''gi_status'', DP_str st)]))"

lemma asking_known:
  "filter (tscg_known asking_state [0x16, 51, 0x10, 0, 0, 0]) [0..<16] = [1]"
  "filter (tscg_known asking_state [0x16, 60, 0x20, 0, 0, 0]) [0..<16] = [1]"
  by (simp_all add: upt_rec tscg_known_def tscg_addr_def getLabel_def msg_leaf_def asking_state_def default_conf_def
      asked_points_def)

lemma asking_effects:
  "tscg_effects asking_state [0x16, 51, 0x10, 0, 0, 0] = [signal ''TS-1'' 511 1 0]"
  "tscg_effects asking_state [0x16, 60, 0x20, 0, 0, 0] = [signal ''TS-3'' 601 0 1]"
  unfolding tscg_effects_def asking_known
  by (simp_all add: tscg_reading_def tscg_addr_def tscg_quad_def getLabel_def msg_leaf_def
      asking_state_def default_conf_def asked_points_def m_prepare_reading_def new_ReadingParameters_def signal_def)

lemma asking_addresses:
  "tscg_addresses asking_state [0x16, 51, 0x10, 0, 0, 0] = [511]" "tscg_addresses asking_state [0x16, 60, 0x20, 0, 0, 0] = [601]"
  unfolding tscg_addresses_def asking_known by (simp_all add: tscg_addr_def)

theorem gi_cycle_witness:
  "\<exists>t. handle_messages default_env [[0x16, 51, 0x10, 0, 0, 0], [0x16, 60, 0x20, 0, 0, 0]] asking_state = Inr t \<and>
    m_giStatus t = GI_FINISHED \<and>
    outs t = [gi_told ''in progress'', signal ''TS-1'' 511 1 0, signal ''TS-3'' 601 0 1,
      Ingest (missing_reading asking_state 1700000000000 (550, ''TS-2'')), gi_told ''finished'']"
proof -
  let ?ms = "[[0x16, 51, 0x10, 0, 0, 0], [0x16, 60, 0x20, 0, 0, 0]] :: byte list list"
  have t: "\<forall>m \<in> set ?ms. is_tscg default_env m" by (simp add: is_tscg_def default_env_def)
  have a: "answers_gi asking_state (m_gi_addresses_received asking_state) ?ms"
    by (simp add: asking_fields asking_addresses last_received_def) (simp add: asking_state_def)
  have "gi_event asking_state GI_IN_PROGRESS = [gi_told ''in progress'']" "gi_event asking_state GI_FINISHED = [gi_told ''finished'']"
    by (simp_all add: gi_event_def gi_told_def gi_status_text_def asking_state_def default_conf_def)
  then show ?thesis
    using gi_cycle [OF default_codes asking_fields(1-3) _ t a]
    by (auto simp: asking_fields asking_effects asking_addresses missing_effects_def asked_points_def)
qed

end
