(* ===== verification/HNZ_Arbiter.thy ===== *)
theory HNZ_Arbiter
  imports HNZ_Switch_Properties
begin

text \<open>
  What the protocol automata of the two paths and the arbitration between them amount to: every path
  is a pair of half links, and the active path is the one that has been connected for longest.
\<close>

section \<open>The abstract arbiter\<close>

text \<open>A half link is up or down: the input (SARM received) and the output (UA received).\<close>

type_synonym half_links = "bool \<times> bool"

fun half_event :: "ConnectionEvent \<Rightarrow> half_links \<Rightarrow> half_links" where
  "half_event ev (inp, outp) =
     (case ev of
        RECEIVED_SARM \<Rightarrow> (True, outp \<and> \<not> inp)
      | RECEIVED_UA \<Rightarrow> (inp, True)
      | TO_RECV \<Rightarrow> (False, outp)
      | MAX_SEND \<Rightarrow> (inp, False)
      | TO_TCACK \<Rightarrow> (inp, outp \<and> \<not> inp)
      | MAX_SARM_SENT \<Rightarrow> (inp \<and> outp, outp)
      | TCP_CNX_LOST \<Rightarrow> (False, False)
      | _ \<Rightarrow> (inp, outp))"

text \<open>The half links of the paths, and the paths that have both, the one connected first in front.\<close>

type_synonym arbiter = "(path_id \<Rightarrow> half_links) \<times> path_id list"

fun arbiter_step :: "path_id \<times> ConnectionEvent \<Rightarrow> arbiter \<Rightarrow> arbiter" where
  "arbiter_step (p, ev) (half, queue) =
     (let h = half_event ev (half p)
      in (half(p := h),
          if h = (True, True) then (if p \<in> set queue then queue else queue @ [p]) else removeAll p queue))"

definition role :: "arbiter \<Rightarrow> path_id \<Rightarrow> ConnectionState" where
  "role a p =
     (if fst a p = (False, False) then DISCONNECTED
      else if fst a p \<noteq> (True, True) then PENDING_HNZ
      else if snd a \<noteq> [] \<and> hd (snd a) = p then ACTIVE else PASSIVE)"

section \<open>The abstraction\<close>

fun half_of :: "ProtocolState \<Rightarrow> half_links" where
  "half_of CONNECTION = (False, False)"
| "half_of INPUT_CONNECTED = (True, False)"
| "half_of OUTPUT_CONNECTED = (False, True)"
| "half_of CONNECTED = (True, True)"

definition is_connected :: "sys \<Rightarrow> path_id \<Rightarrow> bool" where
  "is_connected s p \<longleftrightarrow> m_paths s p \<and> m_protocol_state (paths s p) = CONNECTED"

definition connected_order :: "sys \<Rightarrow> path_id list" where
  "connected_order s =
     (case m_active_path s of None \<Rightarrow> []
      | Some p \<Rightarrow> p # filter (\<lambda>q. q \<noteq> p \<and> is_connected s q) [Path_A, Path_B])"

definition arbiter_of :: "sys \<Rightarrow> arbiter" where
  "arbiter_of s = (\<lambda>p. half_of (m_protocol_state (paths s p)), connected_order s)"

section \<open>One event\<close>

lemma half_connected: "half_of st = (True, True) \<longleftrightarrow> st = CONNECTED"
  by (cases st) simp_all

lemma transition_next:
  "m_protocol_state (paths (protocolStateTransition E p ev s) p) =
     (case map_of m_protocolStateTransitionMap (m_protocol_state (paths s p), ev) of
        None \<Rightarrow> m_protocol_state (paths s p) | Some (target, acts) \<Rightarrow> target)"
  using transition_state by (auto simp: protocolStateTransition_def split: option.split)

lemma half_next:
  "half_of (case map_of m_protocolStateTransitionMap (st, ev) of None \<Rightarrow> st | Some (target, acts) \<Rightarrow> target)
     = half_event ev (half_of st)"
  by (cases st; cases ev) (simp_all add: m_protocolStateTransitionMap_def)

lemma stays_connected:
  assumes "m_protocol_state (paths s p) = CONNECTED"
    and "m_protocol_state (paths (protocolStateTransition E p ev s) p) = CONNECTED"
  shows "protocolStateTransition E p ev s = s"
  using assms(2) unfolding transition_next protocolStateTransition_def assms(1)
  by (cases ev) (simp_all add: m_protocolStateTransitionMap_def)

text \<open>An event of a path leaves the other one active.\<close>

lemma keeps_other_active:
  assumes "m_active_path s = Some r" and "r \<noteq> p"
  shows "m_active_path (protocolStateTransition E p ev s) = Some r"
proof -
  have act: "m_active_path (run_action E p a u) = Some r" if "m_active_path u = Some r" for a u
  proof (cases rule: action_effect [of a p u E])
    case (request v)
    have "m_active_path v = Some r"
      unfolding request(2)
      by (cases rule: request_cases [OF refl, where p = p and st = "requested a" and s = u])
        (use that assms(2) in simp_all)
    then show ?thesis using path_only_fields [OF request(3)] by simp
  next
    case local
    then show ?thesis using that path_only_fields [OF local(2)] by simp
  qed
  have "m_active_path (fold (run_action E p) acts u) = Some r" if "m_active_path u = Some r" for acts u
    using that by (induction acts arbitrary: u) (simp_all add: act)
  with assms(1) show ?thesis by (simp add: protocolStateTransition_def Let_def upd_path_def split: option.split)
qed

text \<open>What the invariant says about the active path of a running connection.\<close>

lemma active_connected:
  assumes "sys_ok s" and "m_active_path s = Some p"
  shows "is_connected s p"
  using active_is_connected(1) [OF assms] sys_okD(7) [OF assms(1)] assms(2)
  by (simp add: is_connected_def present_ok_def)

lemma connected_active:
  assumes "sys_ok s" and "conn_running s" and "is_connected s p"
  shows "\<exists>r. m_active_path s = Some r"
proof (rule ccontr)
  assume "\<not> (\<exists>r. m_active_path s = Some r)"
  then have n: "m_active_path s = None" by simp
  have "m_connection_state (paths s p) = PASSIVE"
    using connected_state [OF assms(1), of p] assms(3) n by (simp add: is_connected_def)
  then show False using sys_okD(6) [OF assms(1)] assms(2,3) n by (auto simp: arbitration_defs is_connected_def)
qed

lemma order_members:
  assumes "sys_ok s" and "conn_running s"
  shows "p \<in> set (connected_order s) \<longleftrightarrow> is_connected s p"
proof (cases "m_active_path s")
  case None
  then show ?thesis using connected_active [OF assms, of p] by (auto simp: connected_order_def)
next
  case (Some r)
  then show ?thesis using active_connected [OF assms(1) Some] by (cases p; cases r) (auto simp: connected_order_def)
qed

text \<open>Two orders with the same first path and the same members are equal.\<close>

lemma order_eq:
  assumes "sys_ok s" and "conn_running s" and "distinct l" and "\<And>q. q \<in> set l \<longleftrightarrow> is_connected s q"
    and "l \<noteq> [] \<Longrightarrow> m_active_path s = Some (hd l)"
  shows "connected_order s = l"
proof (cases l)
  case Nil
  then have "m_active_path s = None" using active_connected [OF assms(1)] assms(4) by (cases "m_active_path s") auto
  then show ?thesis using Nil by (simp add: connected_order_def)
next
  case (Cons r l')
  have a: "m_active_path s = Some r" using assms(5) Cons by simp
  have two: "q = Path_A \<or> q = Path_B" for q using path_id.exhaust by blast
  have m: "q \<in> set l' \<longleftrightarrow> q \<noteq> r \<and> is_connected s q" for q using assms(3) assms(4) [of q] Cons by auto
  have "length l' \<le> 1"
  proof -
    have "set l' \<subseteq> {Path_A, Path_B} - {r}" using m two by blast
    then have "card (set l') \<le> card ({Path_A, Path_B} - {r})" by (intro card_mono) simp_all
    also have "\<dots> = 1" by (cases r) simp_all
    finally show ?thesis using assms(3) Cons by (simp add: distinct_card)
  qed
  then consider "l' = []" | q where "l' = [q]" by (cases l'; cases "tl l'") auto
  then have "filter (\<lambda>q. q \<noteq> r \<and> is_connected s q) [Path_A, Path_B] = l'"
  proof cases
    case 1 with m show ?thesis by simp
  next
    case (2 q) with m [of Path_A] m [of Path_B] show ?thesis by (cases q) auto
  qed
  then show ?thesis by (simp add: connected_order_def a Cons)
qed
lemma order_distinct: "distinct (connected_order s)"
  by (auto simp: connected_order_def split: option.split)

lemma order_head: "connected_order s \<noteq> [] \<Longrightarrow> m_active_path s = Some (hd (connected_order s))"
  by (auto simp: connected_order_def split: option.splits)

lemma all_same: "\<forall>x \<in> A. x = u \<Longrightarrow> h \<in> A \<Longrightarrow> A \<subseteq> {h}"
  by (metis singletonI subsetI)

lemma transition_order:
  assumes "sys_ok s" and "conn_running s" and "m_paths s p" and "t = protocolStateTransition E p ev s"
  shows "connected_order t =
    (if is_connected t p then (if p \<in> set (connected_order s) then connected_order s else connected_order s @ [p])
     else removeAll p (connected_order s))" (is "_ = ?l")
proof (cases "is_connected s p \<and> is_connected t p")
  case True
  then have "t = s" unfolding assms(4) by (intro stays_connected) (simp_all add: is_connected_def)
  then show ?thesis using True order_members [OF assms(1,2), of p] by simp
next
  case False
  note mem = order_members [OF assms(1,2)]
  have ok: "sys_ok t" "conn_running t" and present: "m_paths t = m_paths s"
    using transition_sys_ok [OF assms(1,3)] transition_other_state(2) assms(2) transition_conf [of s E p ev]
    by (simp_all add: assms(4) same_conf_def)
  have same: "is_connected t q \<longleftrightarrow> is_connected s q" if "q \<noteq> p" for q
    using transition_other_state(1) [OF that] present by (simp add: is_connected_def assms(4))
  have members: "q \<in> set ?l \<longleftrightarrow> is_connected t q" for q
    using same [of q] mem [of q] mem [of p] False by (cases "q = p") auto
  have "m_active_path t = Some (hd ?l)" if ne: "?l \<noteq> []"
  proof (cases "\<exists>r. m_active_path s = Some r \<and> r \<noteq> p")
    case True
    then obtain r where r: "m_active_path s = Some r" "r \<noteq> p" by blast
    then have "connected_order s = r # tl (connected_order s)" by (simp add: connected_order_def)
    then have "hd ?l = r" using r(2) by (cases "connected_order s") auto
    then show ?thesis using keeps_other_active [OF r] by (simp add: assms(4))
  next
    case s: False
    have "is_connected t (hd ?l)" using members hd_in_set [OF ne] by blast
    then obtain q where q: "m_active_path t = Some q" using connected_active [OF ok] by blast
    then have "q \<in> set ?l" using members active_connected [OF ok(1) q] by blast
    moreover have "set ?l \<subseteq> {hd ?l}"
    proof (cases "is_connected t p")
      case True
      then have "m_active_path s \<noteq> Some p" using False active_connected [OF assms(1)] by blast
      then have "m_active_path s = None" using s by (cases "m_active_path s") auto
      then show ?thesis using True by (simp add: connected_order_def)
    next
      case f: False
      define u where "u = (case p of Path_A \<Rightarrow> Path_B | Path_B \<Rightarrow> Path_A)"
      have "x \<noteq> p \<Longrightarrow> x = u" for x by (cases x; cases p) (simp_all add: u_def)
      then have "\<forall>x \<in> set ?l. x = u" using f by auto
      from all_same [OF this hd_in_set [OF ne]] show ?thesis .
    qed
    ultimately show ?thesis using q by blast
  qed
  then show ?thesis
    using members by (intro order_eq [OF ok]) (simp_all add: order_distinct distinct_removeAll)
qed

lemma arbiter_step_refines:
  assumes "sys_ok s" and "conn_running s" and "m_paths s p"
  shows "arbiter_of (protocolStateTransition E p ev s) = arbiter_step (p, ev) (arbiter_of s)"
proof -
  define t where "t = protocolStateTransition E p ev s"
  have h: "half_of (m_protocol_state (paths t p)) = half_event ev (half_of (m_protocol_state (paths s p)))"
    unfolding t_def transition_next half_next ..
  have "m_protocol_state (paths t q) = m_protocol_state (paths s q)" if "q \<noteq> p" for q
    using transition_other_state(1) [OF that] by (simp add: t_def)
  with h have "(\<lambda>q. half_of (m_protocol_state (paths t q))) = (\<lambda>q. half_of (m_protocol_state (paths s q)))
      (p := half_event ev (half_of (m_protocol_state (paths s p))))" by (simp add: fun_eq_iff)
  moreover have "is_connected t p \<longleftrightarrow> half_event ev (half_of (m_protocol_state (paths s p))) = (True, True)"
    using assms(3) transition_conf [of s E p ev] unfolding h [symmetric] half_connected
    by (simp add: is_connected_def t_def same_conf_def)
  ultimately show ?thesis
    using transition_order [OF assms t_def] by (simp add: arbiter_of_def t_def [symmetric] Let_def)
qed

text \<open>The protocol events of the paths, one after the other.\<close>

definition protocol_events :: "env \<Rightarrow> (path_id \<times> ConnectionEvent) list \<Rightarrow> sys \<Rightarrow> sys" where
  "protocol_events E evs s = fold (\<lambda>(p, ev). protocolStateTransition E p ev) evs s"

interpretation arbiter: simulation "\<lambda>(p, ev) s. Inr (protocolStateTransition E p ev s)" arbiter_step arbiter_of
    "\<lambda>s. sys_ok s \<and> conn_running s \<and> m_paths s = present" "\<lambda>(p, ev). present p"
  for E present
proof
  fix s :: sys and e :: "path_id \<times> ConnectionEvent"
  assume ok: "sys_ok s \<and> conn_running s \<and> m_paths s = present" and valid: "case e of (p, ev) \<Rightarrow> present p"
  obtain p ev where e: "e = (p, ev)" by fastforce
  have p: "m_paths s p" using ok valid e by simp
  show "\<exists>t. (case e of (p, ev) \<Rightarrow> \<lambda>s. Inr (protocolStateTransition E p ev s)) s = Inr t \<and>
      (sys_ok t \<and> conn_running t \<and> m_paths t = present) \<and> arbiter_of t = arbiter_step e (arbiter_of s)"
    using ok p transition_sys_ok [of s p E ev] transition_other_state(2) transition_conf [of s E p ev]
      arbiter_step_refines [of s p E ev]
    by (simp add: e same_conf_def)
qed

lemma protocol_events_refine:
  assumes "sys_ok s" and "conn_running s" and "\<forall>(p, ev) \<in> set evs. m_paths s p"
  shows "arbiter_of (protocol_events E evs s) = fold arbiter_step evs (arbiter_of s) \<and>
    sys_ok (protocol_events E evs s)"
proof -
  have eq: "(\<lambda>(p, ev) u. Inr (protocolStateTransition E p ev u))
      = (\<lambda>e u. Inr ((\<lambda>(p, ev). protocolStateTransition E p ev) e u))" by (simp add: fun_eq_iff split_def)
  have "efold (\<lambda>(p, ev) u. Inr (protocolStateTransition E p ev u)) evs s = Inr (protocol_events E evs s)"
    unfolding eq protocol_events_def by (rule efold_fold)
  then show ?thesis using arbiter.run [of s "m_paths s" evs E] assms by simp
qed

lemma role_of:
  assumes "sys_ok s"
  shows "m_connection_state (paths s p) = role (arbiter_of s) p"
proof -
  have ag: "agree (paths s p)" by (rule sys_okD(3) [OF assms])
  have "snd (arbiter_of s) \<noteq> [] \<and> hd (snd (arbiter_of s)) = p \<longleftrightarrow> m_active_path s = Some p"
    by (auto simp: arbiter_of_def connected_order_def split: option.splits)
  then show ?thesis
    using ag connected_state [OF assms, of p] unfolding role_def
    by (cases "m_protocol_state (paths s p)") (simp_all add: agree_def arbiter_of_def)
qed

lemma active_head: "m_active_path s = (case snd (arbiter_of s) of [] \<Rightarrow> None | p # rest \<Rightarrow> Some p)"
  by (simp add: arbiter_of_def connected_order_def split: option.split)

section \<open>Property\<close>

text \<open>
  C6. The protocol automata of the two paths and their arbitration implement the abstract arbiter.
  For any sequence of protocol events on the paths of a running connection: the half links of every
  path are those of the events, the active path is the path with both half links up that has had
  them for longest, and the connection state of every path says exactly this.
\<close>
theorem arbiter_refinement:
  assumes "plugin_ok s" and "conn_running s" and "\<forall>(p, ev) \<in> set evs. m_paths s p"
    and "t = protocol_events E evs s"
  shows "arbiter_of t = fold arbiter_step evs (arbiter_of s) \<and>
    m_active_path t = (case snd (arbiter_of t) of [] \<Rightarrow> None | p # rest \<Rightarrow> Some p) \<and>
    m_connection_state (paths t q) = role (arbiter_of t) q"
proof -
  have "sys_ok s" using assms(1) by (simp add: plugin_ok_def)
  from protocol_events_refine [OF this assms(2,3), of E] show ?thesis
    using active_head [of t] role_of [of t q] by (simp add: assms(4))
qed

text \<open>Both paths connected, A first; A loses its input, gets it back, and B is cut: B and then A is active.\<close>

theorem arbiter_refinement_witness:
  "m_active_path (protocol_events default_env [(Path_A, TO_RECV), (Path_A, RECEIVED_SARM)] running_state) = Some Path_B \<and>
   m_connection_state (paths (protocol_events default_env [(Path_A, TO_RECV), (Path_A, RECEIVED_SARM)] running_state) Path_A) = PASSIVE \<and>
   m_active_path (protocol_events default_env [(Path_A, TO_RECV), (Path_A, RECEIVED_SARM), (Path_B, TCP_CNX_LOST)] running_state) = Some Path_A"
proof -
  have a: "arbiter_of running_state = (\<lambda>p. (True, True), [Path_A, Path_B])"
    by (auto simp: arbiter_of_def connected_order_def is_connected_def fun_eq_iff path_all)
  note r = arbiter_refinement [OF running_plugin_ok running_state_fields(7) _ refl]
  show ?thesis
    using r [of "[(Path_A, TO_RECV), (Path_A, RECEIVED_SARM)]" default_env Path_A]
      r [of "[(Path_A, TO_RECV), (Path_A, RECEIVED_SARM), (Path_B, TCP_CNX_LOST)]" default_env Path_A]
    by (simp add: a role_def Let_def)
qed

end
