(* ===== verification/HNZ_Path_Thread.thy ===== *)
theory HNZ_Path_Thread
  imports HNZ_Switch_Properties HNZ_Link_Properties
begin

text \<open>
  The thread of a connected path (\<open>m_manageHNZProtocolState\<close> of \<open>src/hnzpath.cpp\<close>), which watches
  the input and keeps the output alive, and the lookup of a transition before the locks are taken.
\<close>

section \<open>A connected path\<close>

lemma send_bulle_effect:
  assumes "path_ok (paths s p)" and "m_protocol_state (paths s p) = CONNECTED"
    and "msg = [first (m_test_msg_send (paths s p)), second (m_test_msg_send (paths s p))]"
  shows "if window_open (paths s p)
     then (\<exists>ctl. outs (m_sendBULLE E p s) = outs s @ [SendFrame p (m_address_ARP (paths s p)) (ctl # msg)]) \<and>
       msg_sent (paths (m_sendBULLE E p s) p) = msg_sent (paths s p) @ [\<lparr>ns = m_ns (paths s p), payload = msg\<rparr>]
     else outs (m_sendBULLE E p s) = outs s \<and>
       msg_waiting (paths (m_sendBULLE E p s) p) = msg_waiting (paths s p) @ [\<lparr>ns = 0, payload = msg\<rparr>]"
proof -
  obtain sent t where t: "m_sendInfo E p msg s = (sent, t)" by fastforce
  have "m_sendBULLE E p s = t" by (simp add: m_sendBULLE_def Let_def assms(3)[symmetric] t)
  moreover have "\<not> discarded (paths s p) msg" using assms(2) by (simp add: discarded_def)
  ultimately show ?thesis using sendInfo_outcomes [OF assms(1) t] by auto
qed

lemma time_out_effect:
  assumes "m_protocol_state (paths s p) = CONNECTED" and "t = protocolStateTransition E p TO_RECV s"
  shows "m_protocol_state (paths t p) = OUTPUT_CONNECTED" "msg_sent (paths t p) = []" "msg_waiting (paths t p) = []"
    "m_ns (paths t p) = 0" "m_NRR (paths t p) = 0"
  by (simp_all add: assms protocolStateTransition_def m_protocolStateTransitionMap_def Let_def action_defs)

text \<open>
  C18. The watch over a connected path.  When nothing valid has arrived for longer than the inactivity
  timeout, the path loses its input: it is not active any more, and everything sent and waiting is
  dropped.  Otherwise it stays as it is, and when nothing has been sent for the BULLE time, a BULLE is
  sent, or waits behind the other messages while the window is full.
\<close>
theorem inactivity_watch:
  assumes "plugin_ok s" and "m_paths s p" and "m_protocol_state (paths s p) = CONNECTED"
    and "t = manage_protocol_turn E p s"
  shows "if now_ms E s - m_last_msg_time (paths s p) > inacc_ms (paths s p)
    then m_protocol_state (paths t p) = OUTPUT_CONNECTED \<and> m_active_path t \<noteq> Some p \<and>
      msg_sent (paths t p) = [] \<and> msg_waiting (paths t p) = [] \<and> m_ns (paths t p) = 0
    else m_protocol_state (paths t p) = CONNECTED \<and> m_active_path t = m_active_path s \<and>
      (if now_ms E s - m_last_msg_sent_time (paths s p) \<ge> bulle_ms (paths s p)
       then if window_open (paths s p)
         then (\<exists>ctl. outs t = outs s @ [SendFrame p (m_address_ARP (paths s p))
                [ctl, first (m_test_msg_send (paths s p)), second (m_test_msg_send (paths s p))]])
         else outs t = outs s \<and> msg_waiting (paths t p) = msg_waiting (paths s p) @
                [\<lparr>ns = 0, payload = [first (m_test_msg_send (paths s p)), second (m_test_msg_send (paths s p))]\<rparr>]
       else outs t = outs s)"
proof -
  define late where "late \<longleftrightarrow> now_ms E s - m_last_msg_time (paths s p) > inacc_ms (paths s p)"
  define quiet where "quiet \<longleftrightarrow> now_ms E s - m_last_msg_sent_time (paths s p) \<ge> bulle_ms (paths s p)"
  define u where "u = (if quiet then m_sendBULLE E p (asked s) else asked s)"
  have "plugin_ok (asked s)" using assms(1) by (simp add: asked_inv)
  then have u: "link_step p s u" "plugin_ok u"
    using link_step_trans [OF link_step_asked bulle.frame] link_step_asked bulle.sys_ok [of "asked s" E p]
      link_step_gi [OF bulle.frame, of "asked s" E p]
    by (simp_all add: u_def plugin_ok_def)
  have us: "m_protocol_state (paths u p) = CONNECTED" "m_active_path u = m_active_path s" "m_paths u p"
    using u(1) assms(2,3) same_states_settings [of "paths s p" "paths u p"] path_only_fields [of p s u]
    by (simp_all add: link_step_def)
  have ok: "path_ok (paths s p)" using sys_okD(2) assms(1) by (simp add: plugin_ok_def)
  have t: "t = upd_path p (\<lambda>x. x\<lparr>m_state_changed := False\<rparr>)
      (if late then protocolStateTransition E p TO_RECV u else u)"
    using assms(3) us(1) unfolding assms(4) manage_protocol_turn_def m_manageHNZProtocolState_def
    by (cases quiet; simp add: manage_connected_def Let_def u_def late_def) (simp_all add: quiet_def)
  show ?thesis
  proof (cases late)
    case True
    define v where "v = protocolStateTransition E p TO_RECV u"
    note e = time_out_effect [OF us(1) v_def]
    have "plugin_ok v" using transition_inv [OF u(2) us(3)] by (simp add: v_def)
    then have "m_active_path v \<noteq> Some p" using active_is_connected(1) [of v p] e(1) by (auto simp: plugin_ok_def)
    with True e show ?thesis by (simp add: t v_def [symmetric] late_def [symmetric]) (simp add: upd_path_def)
  next
    case False
    then have "outs t = outs u" "paths t p = (paths u p)\<lparr>m_state_changed := False\<rparr>" "m_active_path t = m_active_path s"
      using us(2) by (simp_all add: t) (simp add: upd_path_def)
    moreover have "if quiet then if window_open (paths s p)
         then (\<exists>ctl. outs u = outs s @ [SendFrame p (m_address_ARP (paths s p))
                [ctl, first (m_test_msg_send (paths s p)), second (m_test_msg_send (paths s p))]])
         else outs u = outs s \<and> msg_waiting (paths u p) = msg_waiting (paths s p) @
                [\<lparr>ns = 0, payload = [first (m_test_msg_send (paths s p)), second (m_test_msg_send (paths s p))]\<rparr>]
       else outs u = outs s"
      using send_bulle_effect [of "asked s" p _ E] ok assms(3) by (auto simp: u_def)
    ultimately show ?thesis using False us(1) by (simp add: late_def quiet_def)
  qed
qed

theorem inactivity_watch_witness:
  "m_protocol_state (paths (manage_protocol_turn default_env Path_A running_state) Path_A) = OUTPUT_CONNECTED \<and>
   m_active_path (manage_protocol_turn default_env Path_A running_state) \<noteq> Some Path_A"
proof -
  have "m_last_msg_time (connected_path ''A'' ACTIVE) = 0" "inacc_ms (connected_path ''A'' ACTIVE) = 180000"
    by (simp_all add: connected_path_def new_HNZPath_def default_conf_def inacc_ms_def)
  moreover have "now_ms default_env running_state = 1700000000000" by (simp add: now_ms_def default_env_def)
  ultimately show ?thesis
    using inactivity_watch [of running_state Path_A "manage_protocol_turn default_env Path_A running_state" default_env]
    by simp
qed

section \<open>A transition that was looked up before\<close>

text \<open>
  \<open>protocolStateTransition\<close> looks the transition up before it takes its locks, so that another
  thread can change the state in between.  What follows once the locks are held:
\<close>

definition perform_transition :: "env \<Rightarrow> path_id \<Rightarrow> ProtocolState \<times> action list \<Rightarrow> sys \<Rightarrow> sys" where
  "perform_transition E p resolved s =
     (let (target, actions) = resolved;
          state_changed = (m_protocol_state (paths s p) \<noteq> target);
          s1 = fold (run_action E p) actions (upd_path p (\<lambda>x. x\<lparr>m_protocol_state := target\<rparr>) s)
      in if state_changed then upd_path p (\<lambda>x. x\<lparr>m_state_changed := True\<rparr>) s1 else s1)"

lemma protocolStateTransition_split:
  "protocolStateTransition E p event s =
     (case map_of m_protocolStateTransitionMap (m_protocol_state (paths s p), event) of
        None \<Rightarrow> s | Some resolved \<Rightarrow> perform_transition E p resolved s)"
  by (simp add: protocolStateTransition_def perform_transition_def case_prod_beta split: option.split)

lemma input_lost_active:
  assumes "m_protocol_state (paths s p) = INPUT_CONNECTED" and "m_active_path s \<noteq> Some p"
  shows "m_active_path (protocolStateTransition E p TO_RECV s) = m_active_path s"
proof -
  have r: "m_active_path (requestConnectionState p DISCONNECTED u) = m_active_path u" if "m_active_path u \<noteq> Some p" for u
    using that by (cases rule: request_cases [OF refl, where p = p and st = DISCONNECTED and s = u]) simp_all
  show ?thesis
    using assms r [of "upd_path p (\<lambda>x. x\<lparr>m_protocol_state := CONNECTION\<rparr>) s"]
    by (simp add: protocolStateTransition_def m_protocolStateTransitionMap_def Let_def action_defs upd_path_def asked_def)
qed

text \<open>
  C38. A transition that was looked up before the locks is not repeated when the state has changed
  meanwhile.  When a path that waits for UA receives it, and its thread notices the inactivity
  timeout between the lookup and the locks, the path ends connected, and active if no other path is,
  although its input has been lost; in either order of the two events, one after the other, it
  would not be connected.
\<close>
theorem stale_transition:
  assumes "plugin_ok s" and "m_paths s p" and "m_protocol_state (paths s p) = INPUT_CONNECTED"
    and "map_of m_protocolStateTransitionMap (m_protocol_state (paths s p), RECEIVED_UA) = Some resolved"
    and "t = perform_transition E p resolved (protocolStateTransition E p TO_RECV s)"
  shows "m_protocol_state (paths t p) = CONNECTED \<and>
    m_active_path t = (if m_active_path s = None then Some p else m_active_path s) \<and>
    m_protocol_state (paths (m_receivedUA E p (protocolStateTransition E p TO_RECV s)) p) = OUTPUT_CONNECTED \<and>
    m_protocol_state (paths (protocolStateTransition E p TO_RECV (m_receivedUA E p s)) p) = OUTPUT_CONNECTED"
proof -
  define u where "u = protocolStateTransition E p TO_RECV s"
  have na: "m_active_path s \<noteq> Some p"
    using active_is_connected(1) [of s p] assms(1,3) by (auto simp: plugin_ok_def)
  have us: "m_protocol_state (paths u p) = CONNECTION" "m_active_path u = m_active_path s"
    using assms(3) input_lost_active [OF assms(3) na] by (simp_all add: u_def transition_state m_protocolStateTransitionMap_def)
  have res: "resolved = (CONNECTED, [Do_resetOutputVariables, Do_resolveProtocolStateConnected])"
    using assms(3,4) by (simp add: m_protocolStateTransitionMap_def)
  define v where "v = resetOutputVariables p (upd_path p (\<lambda>x. x\<lparr>m_protocol_state := CONNECTED\<rparr>) u)"
  have v: "m_active_path v = m_active_path s" "m_protocol_state (paths v p) = CONNECTED"
    using us by (simp_all add: v_def resetOutputVariables_def) (simp add: upd_path_def)
  have t: "t = upd_path p (\<lambda>x. x\<lparr>m_state_changed := True\<rparr>) (resolveProtocolStateConnected E p v)"
    using us(1) by (simp add: assms(5) perform_transition_def res Let_def u_def v_def run_action_def)
  have "m_protocol_state (paths t p) = CONNECTED"
    using v(2) by (simp add: t resolveProtocolStateConnected_def Let_def)
  moreover have "m_active_path t = (if m_active_path s = None then Some p else m_active_path s)"
    using resolve_connected_active [of v p E] v(1) na by (simp add: t) (simp add: upd_path_def)
  moreover have "m_protocol_state (paths (m_receivedUA E p u) p) = OUTPUT_CONNECTED"
    using us(1) by (simp add: m_receivedUA_def transition_state m_protocolStateTransitionMap_def)
  moreover have "m_protocol_state (paths (m_receivedUA E p s) p) = CONNECTED"
    using assms(3) by (simp add: m_receivedUA_def transition_state m_protocolStateTransitionMap_def)
  then have "m_protocol_state (paths (protocolStateTransition E p TO_RECV (m_receivedUA E p s)) p) = OUTPUT_CONNECTED"
    by (simp add: transition_state m_protocolStateTransitionMap_def)
  ultimately show ?thesis by (simp add: u_def)
qed

text \<open>Path A waits for UA, path B is active.\<close>

definition waiting_state :: sys where
  "waiting_state = running_state
     \<lparr>paths := (\<lambda>p. case p of
         Path_A \<Rightarrow> (connected_path ''A'' PENDING_HNZ)\<lparr>m_protocol_state := INPUT_CONNECTED\<rparr>
       | Path_B \<Rightarrow> connected_path ''B'' ACTIVE), m_active_path := Some Path_B\<rparr>"

lemma waiting_state_fields [simp]:
  "paths waiting_state Path_A = (connected_path ''A'' PENDING_HNZ)\<lparr>m_protocol_state := INPUT_CONNECTED\<rparr>"
  "paths waiting_state Path_B = connected_path ''B'' ACTIVE" "m_paths waiting_state p"
  "m_active_path waiting_state = Some Path_B" "m_first_input_connected waiting_state = Some Path_A"
  "m_connStatus waiting_state = CS_STARTED" "conn_running waiting_state" "m_gi_repeat waiting_state = 0"
  by (simp_all add: waiting_state_def)

lemma waiting_plugin_ok [simp]: "plugin_ok waiting_state"
proof -
  have "path_ok ((connected_path ''A'' PENDING_HNZ)\<lparr>m_protocol_state := INPUT_CONNECTED\<rparr>)"
    by (simp add: path_ok_defs)
  then show ?thesis
    by (simp add: plugin_ok_def sys_ok_def path_all link_ok_def agree_def sarm_ok_def
        first_input_ok_def arbitration_defs present_ok_def gi_ok_def)
qed

theorem stale_transition_witness:
  "m_protocol_state (paths waiting_state Path_A) = INPUT_CONNECTED \<and>
   m_protocol_state (paths (perform_transition default_env Path_A
     (CONNECTED, [Do_resetOutputVariables, Do_resolveProtocolStateConnected])
     (protocolStateTransition default_env Path_A TO_RECV waiting_state)) Path_A) = CONNECTED"
proof -
  have st: "m_protocol_state (paths waiting_state Path_A) = INPUT_CONNECTED" by simp
  have "map_of m_protocolStateTransitionMap (m_protocol_state (paths waiting_state Path_A), RECEIVED_UA)
      = Some (CONNECTED, [Do_resetOutputVariables, Do_resolveProtocolStateConnected])"
    unfolding st by (simp add: m_protocolStateTransitionMap_def)
  note s = stale_transition [OF waiting_plugin_ok waiting_state_fields(3) st this refl, of default_env]
  show ?thesis by (rule conjI [OF st conjunct1 [OF s]])
qed

end
