(* ===== verification/HNZ_Locks.thy ===== *)
theory HNZ_Locks
  imports HNZ_System
begin

text \<open>
  What the threads of the plugin do with its mutexes: for every thread the order in which it takes
  and releases mutexes, tests and changes the running flags, starts and joins other threads, as in
  \<open>src/hnz.cpp\<close>, \<open>src/hnzconnection.cpp\<close> and \<open>src/hnzpath.cpp\<close>.  A branch that depends on anything
  else is a free choice (\<open>Either\<close>), a loop that does so runs any number of times (\<open>Many\<close>), and a part that touches no mutex is left out.  The mutexes of the states,
  of the configuration and of the GI are recursive, those of a thread of a path and of its wake-up are not; \<open>std::lock\<close>
  of two mutexes takes both or none.
\<close>

section \<open>Threads, mutexes, skeletons\<close>

datatype mutex =
  Config_mutex | Active_path_mutex | Protocol_state_mutex path_id | Connection_state_mutex path_id
| ConnexionGi_mutex | Connection_thread_mutex path_id | State_changed_mutex path_id

text \<open>The mutexes of a path's thread and of its condition variable are plain \<open>std::mutex\<close>.\<close>

fun recursive :: "mutex \<Rightarrow> bool" where
  "recursive (Connection_thread_mutex p) \<longleftrightarrow> False"
| "recursive (State_changed_mutex p) \<longleftrightarrow> False"
| "recursive m \<longleftrightarrow> True"

text \<open>\<open>Fledge\<close> is the thread that manages the plugin, \<open>North\<close> one that requests operations.\<close>

datatype thread_id = Fledge | North | Messages | Receiver path_id | Protocol path_id

datatype flag = Hnz_running | Conn_running | Path_running path_id

datatype instr =
  Locked "mutex list" "instr list" | Release | Either "instr list" "instr list"
| Many "instr list" | While "flag list" "instr list" | Put flag bool | Join thread_id | Start thread_id

fun other :: "path_id \<Rightarrow> path_id" where
  "other Path_A = Path_B"
| "other Path_B = Path_A"

section \<open>The skeletons of the methods\<close>

definition getConnectionState_locks :: "path_id \<Rightarrow> instr list" where
  "getConnectionState_locks p = [Locked [Connection_state_mutex p] []]"

definition getProtocolState_locks :: "path_id \<Rightarrow> instr list" where
  "getProtocolState_locks p = [Locked [Protocol_state_mutex p] []]"

definition getActivePath_locks :: "instr list" where
  "getActivePath_locks = [Locked [Active_path_mutex] []]"

definition sendAuditSuccess_locks :: "path_id \<Rightarrow> instr list" where
  "sendAuditSuccess_locks p = [Locked [Connection_state_mutex p] []]"

definition m_refreshNameLog_locks :: "path_id \<Rightarrow> instr list" where
  "m_refreshNameLog_locks p = [Locked [Connection_state_mutex p] []]"

definition setConnectionState_locks :: "path_id \<Rightarrow> instr list" where
  "setConnectionState_locks p =
     [Locked [Connection_state_mutex p]
        [Either (m_refreshNameLog_locks p @ [Either (sendAuditSuccess_locks p) []]) []]]"

definition m_sendSouthMonitoringEvent_locks :: "instr list" where
  "m_sendSouthMonitoringEvent_locks = [Locked [ConnexionGi_mutex] []]"

definition updateConnectionStatus_locks :: "instr list" where
  "updateConnectionStatus_locks = [Locked [ConnexionGi_mutex] [Either m_sendSouthMonitoringEvent_locks []]]"

definition updateGiStatus_locks :: "instr list" where
  "updateGiStatus_locks = [Locked [ConnexionGi_mutex] [Either m_sendSouthMonitoringEvent_locks []]]"

definition getGiStatus_locks :: "instr list" where
  "getGiStatus_locks = [Locked [ConnexionGi_mutex] []]"

definition updateQualityUpdateTimer_locks :: "instr list" where
  "updateQualityUpdateTimer_locks = [Locked [ConnexionGi_mutex] []]"

definition tryActivateOtherPath_locks :: "path_id \<Rightarrow> instr list" where
  "tryActivateOtherPath_locks p =
     [Locked [Active_path_mutex]
        [Either (getConnectionState_locks (other p) @
                 [Either (setConnectionState_locks (other p) @ updateConnectionStatus_locks) []]) []]]"

definition conn_requestConnectionState_locks :: "path_id \<Rightarrow> instr list" where
  "conn_requestConnectionState_locks p =
     [Locked [Active_path_mutex]
        (Many (getProtocolState_locks p) # setConnectionState_locks p @
         [Either (tryActivateOtherPath_locks p) [], Either updateConnectionStatus_locks []])]"

definition requestConnectionState_locks :: "path_id \<Rightarrow> instr list" where
  "requestConnectionState_locks p =
     [Locked [Connection_state_mutex p, Active_path_mutex] (conn_requestConnectionState_locks p)]"

text \<open>A transition that is not in the map takes no lock; at most one of its actions requests a state.\<close>

definition protocolStateTransition_locks :: "path_id \<Rightarrow> instr list" where
  "protocolStateTransition_locks p =
     [Either
        [Locked [Protocol_state_mutex p, Active_path_mutex]
           [Either (requestConnectionState_locks p) [], Either [Locked [State_changed_mutex p] []] []]]
        []]"

definition m_sendInfo_locks :: "path_id \<Rightarrow> instr list" where
  "m_sendInfo_locks p =
     [Locked [Protocol_state_mutex p] [Either [Locked [Protocol_state_mutex p] []] []]]"

text \<open>The loop over the waiting messages sends each of them with \<open>m_sendInfoImmediately\<close>.\<close>

definition m_receivedRR_locks :: "path_id \<Rightarrow> instr list" where
  "m_receivedRR_locks p = [Many [Locked [Protocol_state_mutex p] []]]"

definition sendGeneralInterrogation_locks :: "path_id \<Rightarrow> instr list" where
  "sendGeneralInterrogation_locks p =
     m_sendInfo_locks p @
     [Either (Either getGiStatus_locks [] # [Either updateGiStatus_locks []]) []]"

definition sendInitMessages_locks :: "path_id \<Rightarrow> instr list" where
  "sendInitMessages_locks p = m_sendInfo_locks p @ m_sendInfo_locks p @ sendGeneralInterrogation_locks p"

text \<open>The active path is either of the two, or none.\<close>

definition on_active_path :: "(path_id \<Rightarrow> instr list) \<Rightarrow> instr list" where
  "on_active_path f = [Either [Either (f Path_A) (f Path_B)] []]"

text \<open>A loop over the paths of the connection, each of which may be absent.\<close>

definition each_path :: "(path_id \<Rightarrow> instr list) \<Rightarrow> instr list" where
  "each_path f = [Either (f Path_A) [], Either (f Path_B) []]"

definition GICompleted_locks :: "instr list" where
  "GICompleted_locks =
     updateGiStatus_locks @ [Either (getActivePath_locks @ on_active_path sendGeneralInterrogation_locks) []]"

definition checkGICompleted_locks :: "instr list" where
  "checkGICompleted_locks =
     [Locked [Active_path_mutex] [Either GICompleted_locks (on_active_path sendGeneralInterrogation_locks)]]"

definition m_check_timer_locks :: "path_id \<Rightarrow> instr list" where
  "m_check_timer_locks p =
     Either (protocolStateTransition_locks p) [] # getProtocolState_locks p @
     [Either (Either (getConnectionState_locks p) [] # [Either (sendInitMessages_locks p) []]) []]"

definition m_check_GI_locks :: "instr list" where
  "m_check_GI_locks =
     [Locked [Active_path_mutex]
        [Either checkGICompleted_locks [], Either (on_active_path sendGeneralInterrogation_locks) []]]"

definition m_manageMessages_locks :: "instr list" where
  "m_manageMessages_locks =
     (let body = [Locked [Active_path_mutex] (each_path m_check_timer_locks)] @
                 m_check_GI_locks @ updateQualityUpdateTimer_locks
      in body @ [While [Conn_running] body])"

text \<open>Waiting for the condition variable releases the mutex and takes it again at the end.\<close>

definition m_manageHNZProtocolConnection_locks :: "path_id \<Rightarrow> instr list" where
  "m_manageHNZProtocolConnection_locks p =
     (let body = [Locked [Protocol_state_mutex p, Active_path_mutex]
                    [Either (m_sendInfo_locks p) [], Either (protocolStateTransition_locks p) []],
                  Locked [State_changed_mutex p] [], Either [Locked [State_changed_mutex p] []] []]
      in body @ [While [Path_running p, Conn_running] body])"

definition m_receivedINFO_locks :: "path_id \<Rightarrow> instr list" where
  "m_receivedINFO_locks p =
     [Locked [Protocol_state_mutex p, Active_path_mutex]
        [Either [Locked [Active_path_mutex] (Locked [Active_path_mutex] [] # m_receivedRR_locks p)] []]]"

definition getData_locks :: "path_id \<Rightarrow> instr list" where
  "getData_locks p =
     [Either (protocolStateTransition_locks p) [Either (m_receivedINFO_locks p) (m_receivedRR_locks p)]]"

definition m_handleTSCE_locks :: "instr list" where
  "m_handleTSCE_locks =
     getActivePath_locks @
     [Either (getActivePath_locks @ [Either (getProtocolState_locks Path_A) (getProtocolState_locks Path_B)]) [],
      Either (getActivePath_locks @
              [Either (getActivePath_locks @ on_active_path sendGeneralInterrogation_locks) []]) []]"

definition m_handleTSCG_locks :: "instr list" where
  "m_handleTSCG_locks = getGiStatus_locks @ [Either updateGiStatus_locks []]"

text \<open>A TSCE, a TSCG or another message; the last TSCG ends the GI.\<close>

definition m_handle_message_locks :: "instr list" where
  "m_handle_message_locks =
     [Locked [Config_mutex]
        [Either m_handleTSCG_locks [Either m_handleTSCE_locks []], Either checkGICompleted_locks []]]"

definition connect_locks :: "path_id \<Rightarrow> instr list" where
  "connect_locks p =
     [Put (Path_running p) True,
      Either [Locked [Connection_thread_mutex p] [Either [Start (Protocol p)] []]] []]"

definition disconnect_locks :: "path_id \<Rightarrow> instr list" where
  "disconnect_locks p =
     protocolStateTransition_locks p @
     [Put (Path_running p) False,
      Locked [Connection_thread_mutex p] [Either [Locked [State_changed_mutex p] [], Join (Protocol p)] []]]"

definition receive_locks :: "path_id \<Rightarrow> instr list" where
  "receive_locks p =
     [Locked [Config_mutex] [],
      Either
        (connect_locks p @
         [While [Hnz_running]
            (getData_locks p @
             [Either [Either (disconnect_locks p) [], Either (connect_locks p) []] [Many m_handle_message_locks]])])
        []]"

definition connection_stop_locks :: "instr list" where
  "connection_stop_locks =
     [Put Conn_running False,
      Locked [Active_path_mutex] (each_path disconnect_locks),
      Either [Join Messages] []]"

definition stop_locks :: "instr list" where
  "stop_locks =
     [Put Hnz_running False, Either connection_stop_locks [],
      Either [Join (Receiver Path_A)] [], Either [Join (Receiver Path_B)] []]"

definition start_locks :: "instr list" where
  "start_locks =
     [Locked [Config_mutex]
        [Either [Put Hnz_running True, Start (Receiver Path_A), Either [Start (Receiver Path_B)] [], Start Messages] []]]"

text \<open>
  A new connection locks, while it is built, only mutexes of its own that no other thread has yet; one
  that was never started is stopped by its destructor.  The mutexes of successive connections are
  not told apart.
\<close>

definition setJsonConfig_locks :: "instr list" where
  "setJsonConfig_locks =
     [Locked [Config_mutex]
        [Either stop_locks [],
         Either [Either connection_stop_locks [], Put Conn_running True, Either start_locks []] []]]"

definition reconfigure_locks :: "instr list" where
  "reconfigure_locks = [Locked [Config_mutex] setJsonConfig_locks]"

definition operation_locks :: "instr list" where
  "operation_locks =
     [Either (getActivePath_locks @ [Either (getActivePath_locks @ on_active_path m_sendInfo_locks) []])
        [Either m_sendSouthMonitoringEvent_locks
           (getActivePath_locks @ [Either (getActivePath_locks @ on_active_path sendGeneralInterrogation_locks) []])]]"

text \<open>
  The skeleton of every thread.  The managing thread configures and starts the plugin any number of
  times and shuts it down in the end.
\<close>

fun thread_locks :: "thread_id \<Rightarrow> instr list" where
  "thread_locks Fledge = [Many [Either reconfigure_locks start_locks], Either stop_locks []]"
| "thread_locks North = [Many operation_locks]"
| "thread_locks Messages = m_manageMessages_locks"
| "thread_locks (Receiver p) = receive_locks p"
| "thread_locks (Protocol p) = m_manageHNZProtocolConnection_locks p"

section \<open>Execution\<close>

text \<open>What each thread has still to do, the groups of mutexes it holds, and the flags.\<close>

record lock_state =
  todo :: "thread_id \<Rightarrow> instr list"
  held :: "thread_id \<Rightarrow> mutex list list"
  flags :: "flag \<Rightarrow> bool"

definition all_threads :: "thread_id list" where
  "all_threads = [Fledge, North, Messages, Receiver Path_A, Receiver Path_B, Protocol Path_A, Protocol Path_B]"

definition holds_mutex :: "lock_state \<Rightarrow> thread_id \<Rightarrow> mutex \<Rightarrow> bool" where
  "holds_mutex s th m \<longleftrightarrow> (\<exists>g \<in> set (held s th). m \<in> set g)"

text \<open>
  A mutex can be taken when no other thread holds it; one that is not recursive only when the
  thread itself does not hold it either.
\<close>

definition can_lock :: "lock_state \<Rightarrow> thread_id \<Rightarrow> mutex list \<Rightarrow> bool" where
  "can_lock s th ms \<longleftrightarrow>
     (\<forall>m \<in> set ms. \<forall>th' \<in> set all_threads. th' \<noteq> th \<or> \<not> recursive m \<longrightarrow> \<not> holds_mutex s th' m)"

text \<open>One move of a thread, when it can move; the choice decides at \<open>Either\<close> and \<open>Many\<close>.\<close>

definition move :: "thread_id \<Rightarrow> bool \<Rightarrow> lock_state \<Rightarrow> lock_state option" where
  "move th choice s =
     (case todo s th of
        [] \<Rightarrow> None
      | i # k \<Rightarrow>
          (case i of
             Locked ms b \<Rightarrow>
               if can_lock s th ms
               then Some (s\<lparr>todo := (todo s)(th := b @ Release # k), held := (held s)(th := ms # held s th)\<rparr>)
               else None
           | Release \<Rightarrow> Some (s\<lparr>todo := (todo s)(th := k), held := (held s)(th := tl (held s th))\<rparr>)
           | Either a b \<Rightarrow> Some (s\<lparr>todo := (todo s)(th := (if choice then a else b) @ k)\<rparr>)
           | Many b \<Rightarrow> Some (s\<lparr>todo := (todo s)(th := (if choice then b @ Many b # k else k))\<rparr>)
           | While fs b \<Rightarrow>
               Some (s\<lparr>todo := (todo s)(th := (if \<forall>f \<in> set fs. flags s f then b @ While fs b # k else k))\<rparr>)
           | Put f v \<Rightarrow> Some (s\<lparr>todo := (todo s)(th := k), flags := (flags s)(f := v)\<rparr>)
           | Join other_thread \<Rightarrow>
               if todo s other_thread = [] then Some (s\<lparr>todo := (todo s)(th := k)\<rparr>) else None
           | Start new \<Rightarrow>
               Some (if todo s new = [] then s\<lparr>todo := (todo s)(th := k, new := thread_locks new)\<rparr>
                     else s\<lparr>todo := (todo s)(th := k)\<rparr>)))"

definition lock_step :: "lock_state \<Rightarrow> lock_state \<Rightarrow> bool" where
  "lock_step s t \<longleftrightarrow> (\<exists>th choice. move th choice s = Some t)"

text \<open>Before anything is configured: the managing thread and the one that requests operations.\<close>

definition unconfigured :: lock_state where
  "unconfigured =
     \<lparr>todo = (\<lambda>th. if th = Fledge \<or> th = North then thread_locks th else []), held = (\<lambda>_. []), flags = (\<lambda>_. False)\<rparr>"

section \<open>The order of the mutexes\<close>

fun rank :: "mutex \<Rightarrow> nat" where
  "rank Config_mutex = 1"
| "rank Active_path_mutex = 2"
| "rank (Protocol_state_mutex p) = 3"
| "rank (Connection_state_mutex p) = 4"
| "rank ConnexionGi_mutex = 5"
| "rank (Connection_thread_mutex p) = 6"
| "rank (State_changed_mutex p) = 7"

text \<open>
  A recursive mutex may be taken when it is held already, any mutex when it comes after every mutex held; two mutexes of the
  same rank, those of the two paths, may be held together under the mutex of the active path only.
\<close>

definition may_take :: "mutex list \<Rightarrow> mutex \<Rightarrow> bool" where
  "may_take H m \<longleftrightarrow>
     (if m \<in> set H then recursive m
      else \<forall>h \<in> set H. rank h < rank m \<or> (rank h = rank m \<and> Active_path_mutex \<in> set H))"

text \<open>A skeleton takes its mutexes in order when those in \<open>H\<close> are held around it.\<close>

fun ordered :: "mutex list \<Rightarrow> instr list \<Rightarrow> bool" where
  "ordered H [] \<longleftrightarrow> True"
| "ordered H (Locked ms b # k) \<longleftrightarrow> list_all (may_take H) ms \<and> ordered (ms @ H) b \<and> ordered H k"
| "ordered H (Either a b # k) \<longleftrightarrow> ordered H a \<and> ordered H b \<and> ordered H k"
| "ordered H (Many b # k) \<longleftrightarrow> ordered H b \<and> ordered H k"
| "ordered H (While fs b # k) \<longleftrightarrow> ordered H b \<and> ordered H k"
| "ordered H (Release # k) \<longleftrightarrow> False"
| "ordered H (i # k) \<longleftrightarrow> ordered H k"

text \<open>
  What a thread that holds the groups \<open>stk\<close> has still to do: it releases them all, the last one
  first, and keeps the order.
\<close>

fun proper :: "mutex list list \<Rightarrow> instr list \<Rightarrow> bool" where
  "proper stk [] \<longleftrightarrow> stk = []"
| "proper stk (Release # k) \<longleftrightarrow> stk \<noteq> [] \<and> proper (tl stk) k"
| "proper stk (i # k) \<longleftrightarrow> ordered (concat stk) [i] \<and> proper stk k"

lemma ordered_append: "ordered H (a @ b) \<longleftrightarrow> ordered H a \<and> ordered H b"
  by (induction H a rule: ordered.induct) auto

lemma proper_append: "ordered (concat stk) b \<Longrightarrow> proper stk k \<Longrightarrow> proper stk (b @ k)"
proof (induction b)
  case (Cons i b)
  then show ?case by (cases i) auto
qed simp

lemma ordered_proper: "ordered [] b \<Longrightarrow> proper [] b"
  using proper_append [of "[]" b "[]"] by simp

lemmas locks_defs =
  getConnectionState_locks_def getProtocolState_locks_def getActivePath_locks_def sendAuditSuccess_locks_def
  m_refreshNameLog_locks_def setConnectionState_locks_def m_sendSouthMonitoringEvent_locks_def
  updateConnectionStatus_locks_def updateGiStatus_locks_def getGiStatus_locks_def updateQualityUpdateTimer_locks_def
  tryActivateOtherPath_locks_def conn_requestConnectionState_locks_def requestConnectionState_locks_def
  protocolStateTransition_locks_def m_sendInfo_locks_def m_receivedRR_locks_def sendGeneralInterrogation_locks_def
  sendInitMessages_locks_def on_active_path_def each_path_def GICompleted_locks_def checkGICompleted_locks_def
  m_check_timer_locks_def m_check_GI_locks_def m_manageMessages_locks_def m_manageHNZProtocolConnection_locks_def
  m_receivedINFO_locks_def getData_locks_def m_handleTSCE_locks_def m_handleTSCG_locks_def
  m_handle_message_locks_def connect_locks_def disconnect_locks_def receive_locks_def connection_stop_locks_def
  stop_locks_def start_locks_def setJsonConfig_locks_def reconfigure_locks_def operation_locks_def

lemma threads_ordered: "ordered [] (thread_locks th)"
  by (cases th rule: thread_locks.cases; simp) (code_simp | (rename_tac p; case_tac p; simp; code_simp))+

section \<open>Invariant\<close>

definition locks_ok :: "lock_state \<Rightarrow> bool" where
  "locks_ok s \<longleftrightarrow>
     (\<forall>th. proper (held s th) (todo s th)) \<and>
     (\<forall>m th th'. holds_mutex s th m \<and> holds_mutex s th' m \<longrightarrow> th = th')"

lemma every_thread: "th \<in> set all_threads"
proof (cases th)
  case (Receiver p)
  then show ?thesis by (cases p) (simp_all add: all_threads_def)
next
  case (Protocol p)
  then show ?thesis by (cases p) (simp_all add: all_threads_def)
qed (simp_all add: all_threads_def)

lemma can_lock_iff:
  "can_lock s th ms \<longleftrightarrow> (\<forall>m \<in> set ms. \<forall>th'. th' \<noteq> th \<or> \<not> recursive m \<longrightarrow> \<not> holds_mutex s th' m)"
  using every_thread by (auto simp: can_lock_def)

text \<open>A move that leaves what a thread holds: only the rest of its work has to be proper.\<close>

lemma locks_ok_todo:
  assumes "locks_ok s" and "held t = held s" and "\<And>x. todo t x \<noteq> todo s x \<Longrightarrow> proper (held s x) (todo t x)"
  shows "locks_ok t"
proof -
  have "holds_mutex t = holds_mutex s" by (simp add: holds_mutex_def fun_eq_iff assms(2))
  moreover have "proper (held t x) (todo t x)" for x using assms by (metis locks_ok_def)
  ultimately show ?thesis using assms(1) by (simp add: locks_ok_def)
qed

lemma thread_started: "locks_ok s \<Longrightarrow> todo s th = [] \<Longrightarrow> held s th = []"
  unfolding locks_ok_def by (metis proper.simps(1))

lemma locks_ok_locked:
  assumes "locks_ok s" and "todo s th = Locked ms b # k" and "can_lock s th ms"
  shows "locks_ok (s\<lparr>todo := (todo s)(th := b @ Release # k), held := (held s)(th := ms # held s th)\<rparr>)"
    (is "locks_ok ?t")
proof -
  have h: "holds_mutex ?t x m \<longleftrightarrow> holds_mutex s x m \<or> x = th \<and> m \<in> set ms" for x m
    by (auto simp: holds_mutex_def)
  have "proper (held s th) (Locked ms b # k)" using assms(1,2) by (metis locks_ok_def)
  then have "proper (ms # held s th) (b @ Release # k)" by (intro proper_append) simp_all
  then show ?thesis using assms(1,3) unfolding locks_ok_def can_lock_iff h by auto
qed

lemma locks_ok_release:
  assumes "locks_ok s" and "todo s th = Release # k"
  shows "locks_ok (s\<lparr>todo := (todo s)(th := k), held := (held s)(th := tl (held s th))\<rparr>)"
    (is "locks_ok ?t")
proof -
  have "set (tl gs) \<subseteq> set gs" for gs :: "mutex list list" by (cases gs) auto
  then have h: "holds_mutex ?t x m \<Longrightarrow> holds_mutex s x m" for x m
    by (auto simp: holds_mutex_def split: if_splits)
  have "proper (held s th) (Release # k)" using assms by (metis locks_ok_def)
  then have "proper (tl (held s th)) k" by simp
  then have "proper (held ?t x) (todo ?t x)" for x using assms(1) by (simp add: locks_ok_def)
  moreover have "holds_mutex ?t x m \<Longrightarrow> holds_mutex ?t y m \<Longrightarrow> x = y" for m x y
    using assms(1) h unfolding locks_ok_def by meson
  ultimately show ?thesis unfolding locks_ok_def by blast
qed

lemma locks_ok_move:
  assumes "locks_ok s" and "move th choice s = Some t"
  shows "locks_ok t"
proof -
  obtain i k where td: "todo s th = i # k" using assms(2) by (cases "todo s th") (auto simp: move_def)
  have p: "proper (held s th) (i # k)" using assms(1) td by (metis locks_ok_def)
  note mv = assms(2) [unfolded move_def td, simplified]
  show ?thesis
  proof (cases i)
    case (Locked ms b)
    then show ?thesis using mv td locks_ok_locked [OF assms(1)] by (auto split: if_splits)
  next
    case Release
    then show ?thesis using mv td locks_ok_release [OF assms(1)] by auto
  next
    case (Either a b)
    then show ?thesis using mv p
      by (intro locks_ok_todo [OF assms(1), of t]) (auto intro: proper_append split: if_splits)
  next
    case (Many b)
    then show ?thesis using mv p
      by (intro locks_ok_todo [OF assms(1), of t]) (auto intro!: proper_append split: if_splits)
  next
    case (While fs b)
    then show ?thesis using mv p
      by (intro locks_ok_todo [OF assms(1), of t]) (auto intro!: proper_append split: if_splits)
  next
    case (Put f v)
    then show ?thesis using mv p by (intro locks_ok_todo [OF assms(1), of t]) (auto split: if_splits)
  next
    case (Join x)
    then show ?thesis using mv p by (intro locks_ok_todo [OF assms(1), of t]) (auto split: if_splits)
  next
    case (Start x)
    have "todo s x = [] \<Longrightarrow> proper (held s x) (thread_locks x)"
      using thread_started [OF assms(1)] ordered_proper [OF threads_ordered] by simp
    then show ?thesis using mv p Start
      by (intro locks_ok_todo [OF assms(1), of t]) (auto split: if_splits)
  qed
qed

interpretation threads: invariant_system "\<lambda>s. s = unconfigured" lock_step locks_ok
proof unfold_locales
  show "s = unconfigured \<Longrightarrow> locks_ok s" for s
    by (simp add: locks_ok_def unconfigured_def holds_mutex_def ordered_proper threads_ordered
        del: thread_locks.simps)
  show "locks_ok s \<Longrightarrow> lock_step s t \<Longrightarrow> locks_ok t" for s t
    by (auto simp: lock_step_def intro: locks_ok_move)
qed

section \<open>Waiting for mutexes\<close>

definition waits_for :: "lock_state \<Rightarrow> thread_id \<Rightarrow> thread_id \<Rightarrow> bool" where
  "waits_for s th th' \<longleftrightarrow>
     (case todo s th of
        Locked ms b # k \<Rightarrow> th' \<noteq> th \<and> (\<exists>m \<in> set ms. holds_mutex s th' m)
      | _ \<Rightarrow> False)"

text \<open>How far a thread has come in the order; without the mutex of the active path a bit further.\<close>

definition mutexes :: "lock_state \<Rightarrow> thread_id \<Rightarrow> mutex set" where
  "mutexes s th = {m. holds_mutex s th m}"

definition level :: "lock_state \<Rightarrow> thread_id \<Rightarrow> nat" where
  "level s th =
     (if mutexes s th = {} then 0
      else 2 * Max (rank ` mutexes s th) + of_bool (Active_path_mutex \<notin> mutexes s th))"

lemma mutexes_held: "mutexes s th = set (concat (held s th))"
  by (auto simp: mutexes_def holds_mutex_def)

lemma rank_bound: "m \<in> mutexes s th \<Longrightarrow> rank m \<le> Max (rank ` mutexes s th)"
  by (simp add: mutexes_held)

lemma rank_pos: "0 < rank m"
  by (cases m) simp_all

lemma level_held:
  assumes "m \<in> mutexes s th"
  shows "2 * rank m + of_bool (Active_path_mutex \<notin> mutexes s th) \<le> level s th"
  using assms rank_bound [OF assms] by (auto simp: level_def)

lemma waits_level:
  assumes "locks_ok s" and "waits_for s th th'"
  shows "level s th < level s th'"
proof -
  obtain ms b k m where td: "todo s th = Locked ms b # k" and m: "m \<in> set ms" "holds_mutex s th' m" "th' \<noteq> th"
    using assms(2) by (auto simp: waits_for_def split: list.splits instr.splits)
  have "proper (held s th) (Locked ms b # k)" using assms(1) td by (metis locks_ok_def)
  then have take: "may_take (concat (held s th)) m" using m(1) by (simp add: list_all_iff)
  have excl: "x \<in> mutexes s th' \<Longrightarrow> x \<notin> mutexes s th" for x
    using assms(1) m(3) by (auto simp: locks_ok_def mutexes_def)
  have "m \<notin> mutexes s th" using excl [of m] m(2) by (simp add: mutexes_def)
  then have low: "rank h < rank m \<or> (rank h = rank m \<and> Active_path_mutex \<in> mutexes s th)"
    if "h \<in> mutexes s th" for h
    using that take unfolding may_take_def mutexes_held [symmetric] by simp
  have top: "2 * rank m + of_bool (Active_path_mutex \<notin> mutexes s th') \<le> level s th'"
    using m(2) by (intro level_held) (simp add: mutexes_def)
  show ?thesis
  proof (cases "mutexes s th = {}")
    case True
    then show ?thesis using top rank_pos [of m] by (simp add: level_def)
  next
    case False
    then have "Max (rank ` mutexes s th) \<in> rank ` mutexes s th" by (simp add: mutexes_held)
    then obtain h where h: "h \<in> mutexes s th" "Max (rank ` mutexes s th) = rank h" by auto
    have lv: "level s th = 2 * rank h + of_bool (Active_path_mutex \<notin> mutexes s th)"
      using False h(2) by (simp add: level_def)
    show ?thesis
    proof (cases "rank h < rank m")
      case True
      then show ?thesis using lv top by simp
    next
      case False
      with low [OF h(1)] have "rank h = rank m" "Active_path_mutex \<in> mutexes s th" by auto
      moreover have "Active_path_mutex \<notin> mutexes s th'" using calculation(2) excl by blast
      ultimately show ?thesis using lv top by simp
    qed
  qed
qed

definition wait_graph :: "lock_state \<Rightarrow> (thread_id \<times> thread_id) set" where
  "wait_graph s = {(th, th'). waits_for s th th'}"

lemma waits_acyclic:
  assumes "locks_ok s"
  shows "acyclic (wait_graph s)" "wf ((wait_graph s)\<inverse>)"
proof -
  have bound: "level s th \<le> 15" for th
  proof (cases "mutexes s th = {}")
    case False
    have "rank x \<le> 7" for x by (cases x) simp_all
    then have "Max (rank ` mutexes s th) \<le> 7" using False by (simp add: mutexes_held)
    then show ?thesis by (simp add: level_def)
  qed (simp add: level_def)
  have "(wait_graph s)\<inverse> \<subseteq> measure (\<lambda>th. 15 - level s th)"
  proof
    fix e assume "e \<in> (wait_graph s)\<inverse>"
    then obtain x y where e: "e = (y, x)" "waits_for s x y" by (auto simp: wait_graph_def)
    show "e \<in> measure (\<lambda>th. 15 - level s th)"
      using waits_level [OF assms e(2)] bound [of y] by (simp add: e(1))
  qed
  then show wf: "wf ((wait_graph s)\<inverse>)" by (rule wf_subset [OF wf_measure])
  show "acyclic (wait_graph s)" using wf_acyclic [OF wf] by simp
qed

text \<open>Along the threads that wait for each other there is one that waits for no mutex.\<close>

lemma waits_end:
  assumes "wf ((wait_graph s)\<inverse>)" and "waits_for s th th'"
  shows "\<exists>x. (th, x) \<in> (wait_graph s)\<^sup>+ \<and> (\<forall>y. \<not> waits_for s x y)"
  using assms(2)
proof (induction th' arbitrary: th rule: wf_induct_rule [OF assms(1)])
  case (1 th')
  have edge: "(th, th') \<in> wait_graph s" using "1.prems" by (simp add: wait_graph_def)
  show ?case
  proof (cases "\<exists>y. waits_for s th' y")
    case True
    then obtain y where y: "waits_for s th' y" by blast
    then obtain x where "(th', x) \<in> (wait_graph s)\<^sup>+" "\<forall>z. \<not> waits_for s x z"
      using "1.IH" [of y th'] by (auto simp: wait_graph_def)
    then show ?thesis using edge by (meson trancl_into_trancl2)
  qed (use edge in blast)
qed

lemma holder_acts:
  assumes "locks_ok s" and "holds_mutex s x m" and "\<forall>y. \<not> waits_for s x y"
  shows "(\<exists>choice t. move x choice s = Some t) \<or> (\<exists>y k. todo s x = Join y # k)"
proof -
  have "todo s x \<noteq> []" using assms(1,2) thread_started by (fastforce simp: holds_mutex_def)
  then obtain i k where td: "todo s x = i # k" by (cases "todo s x") auto
  have "can_lock s x ms" if i: "i = Locked ms b" for ms b
  proof -
    have "list_all (may_take (concat (held s x))) ms"
      using assms(1) td unfolding i locks_ok_def by (metis ordered.simps(2) proper.simps(3))
    then have "recursive m" if "m \<in> set ms" "holds_mutex s x m" for m
      using that by (auto simp: list_all_iff may_take_def holds_mutex_def split: if_splits)
    moreover have "\<not> holds_mutex s y m" if "m \<in> set ms" "y \<noteq> x" for y m
      using assms(3) td that unfolding i by (auto simp: waits_for_def)
    ultimately show ?thesis unfolding can_lock_iff by metis
  qed
  then show ?thesis by (cases i) (auto simp: move_def td)
qed

section \<open>Schedules\<close>

fun run :: "(thread_id \<times> bool) list \<Rightarrow> lock_state \<Rightarrow> lock_state option" where
  "run [] s = Some s"
| "run ((th, choice) # sched) s =
     (case move th choice s of None \<Rightarrow> None | Some t \<Rightarrow> run sched t)"

text \<open>The moves of a thread with its choices, \<open>y\<close> and \<open>n\<close>.\<close>

definition turns :: "thread_id \<Rightarrow> string \<Rightarrow> (thread_id \<times> bool) list" where
  "turns th = map (\<lambda>c. (th, c = CHR ''y''))"

lemma run_reachable: "run sched s = Some t \<Longrightarrow> lock_step\<^sup>*\<^sup>* s t"
proof (induction sched s rule: run.induct)
  case (2 th choice sched s)
  then show ?case
    by (auto simp: lock_step_def split: option.splits intro: converse_rtranclp_into_rtranclp)
qed simp

text \<open>For evaluation: the state as a table over the threads, built anew after every move.\<close>

fun per_thread :: "'a \<Rightarrow> 'a \<Rightarrow> 'a \<Rightarrow> 'a \<Rightarrow> 'a \<Rightarrow> 'a \<Rightarrow> 'a \<Rightarrow> thread_id \<Rightarrow> 'a" where
  "per_thread fl no me ra rb pa pb Fledge = fl"
| "per_thread fl no me ra rb pa pb North = no"
| "per_thread fl no me ra rb pa pb Messages = me"
| "per_thread fl no me ra rb pa pb (Receiver Path_A) = ra"
| "per_thread fl no me ra rb pa pb (Receiver Path_B) = rb"
| "per_thread fl no me ra rb pa pb (Protocol Path_A) = pa"
| "per_thread fl no me ra rb pa pb (Protocol Path_B) = pb"

definition table :: "(thread_id \<Rightarrow> 'a) \<Rightarrow> thread_id \<Rightarrow> 'a" where
  "table f = per_thread (f Fledge) (f North) (f Messages) (f (Receiver Path_A)) (f (Receiver Path_B))
     (f (Protocol Path_A)) (f (Protocol Path_B))"

lemma table_id: "table f = f"
proof
  show "table f th = f th" for th using every_thread [of th] by (auto simp: table_def all_threads_def)
qed

lemma run_code [code]:
  "run [] s = Some s"
  "run ((th, choice) # sched) s =
     (case move th choice s of None \<Rightarrow> None
      | Some t \<Rightarrow> run sched (t\<lparr>todo := table (todo t), held := table (held t)\<rparr>))"
  by (simp_all add: table_id split: option.split)

text \<open>Configured by \<open>plugin_init\<close>, started by \<open>plugin_start\<close>; path A has connected once.\<close>

definition startup :: "(thread_id \<times> bool) list" where
  "startup = turns Fledge ''yyyynynynyyynyyyynyy'' @ turns (Receiver Path_A) ''yyyyyyyyy''"

text \<open>
  The plugin is shut down while the thread of the path has not yet reached its first turn: the
  managing thread takes the mutex of the active path and disconnects path A.
\<close>

definition stop_schedule :: "(thread_id \<times> bool) list" where
  "stop_schedule = startup @ turns Fledge ''nyyyyyyyyyyynynynnyynyyyyyy''"

text \<open>
  The thread of the path has taken its turn; path A receives a SARM, which makes its input
  connected, and an information frame; a new configuration arrives before the first message of the
  frame is handled.
\<close>

definition reconfigure_schedule :: "(thread_id \<times> bool) list" where
  "reconfigure_schedule = startup @ turns (Protocol Path_A) ''ynnyyyn'' @
     turns (Receiver Path_A) ''yyyyyyyyyynyyyynynnyyyyyynnynyyyyyynyyny'' @
     turns Fledge ''yyyyyyyyyyyyyyyyyynyyyynynnyyyyyyyyyyy'' @ turns (Protocol Path_A) ''y'' @
     turns Fledge ''yynyy'' @ turns Messages ''yynyynnyynnyyyy'' @ turns Fledge ''yy''"

section \<open>Threads that never go on\<close>

definition joins :: "lock_state \<Rightarrow> thread_id \<Rightarrow> thread_id \<Rightarrow> bool" where
  "joins s th x \<longleftrightarrow> (case todo s th of Join y # k \<Rightarrow> y = x | _ \<Rightarrow> False)"

text \<open>A thread that joins one that waits for a mutex of its own stays there for ever.\<close>

lemma blocked_cannot_move: "waits_for s x th \<Longrightarrow> move x choice s = None"
  unfolding move_def
  by (auto simp: waits_for_def can_lock_iff split: list.splits instr.splits)

lemma joining_cannot_move: "joins s th x \<Longrightarrow> todo s x \<noteq> [] \<Longrightarrow> move th choice s = None"
  by (auto simp: joins_def move_def split: list.splits instr.splits)

lemma waiting_has_work: "waits_for s x th \<Longrightarrow> todo s x \<noteq> []"
  by (auto simp: waits_for_def split: list.splits)

lemma move_keeps_others:
  assumes "move y choice s = Some t" and "x \<noteq> y" and "todo s x \<noteq> []"
  shows "todo t x = todo s x \<and> held t x = held s x"
  using assms by (auto simp: move_def split: list.splits instr.splits if_splits)

lemma join_deadlock:
  assumes "joins s th x" and "waits_for s x th" and "lock_step\<^sup>*\<^sup>* s t"
  shows "todo t th = todo s th \<and> held t th = held s th \<and> todo t x = todo s x"
  using assms(3)
proof (induction rule: rtranclp_induct)
  case (step t u)
  have j: "joins t th x" and w: "waits_for t x th"
    using assms(1,2) step.IH
    by (auto simp: joins_def waits_for_def holds_mutex_def split: list.splits instr.splits)
  have work: "todo t x \<noteq> []" "todo t th \<noteq> []"
    using waiting_has_work [OF w] j by (auto simp: joins_def)
  obtain y choice where m: "move y choice t = Some u" using step.hyps(2) by (auto simp: lock_step_def)
  have "y \<noteq> x" "y \<noteq> th"
    using m blocked_cannot_move [OF w] joining_cannot_move [OF j work(1)] by auto
  then show ?case using move_keeps_others [OF m] work step.IH by metis
qed simp

definition join_blocked :: "lock_state option \<Rightarrow> thread_id \<Rightarrow> mutex list \<Rightarrow> bool" where
  "join_blocked r x ms \<longleftrightarrow>
     (case r of None \<Rightarrow> False
      | Some s \<Rightarrow> joins s Fledge x \<and> waits_for s x Fledge \<and> list_all (holds_mutex s Fledge) ms)"

lemma join_blocked_reached:
  assumes "join_blocked (run sched unconfigured) x ms"
  shows "\<exists>s. lock_step\<^sup>*\<^sup>* unconfigured s \<and> joins s Fledge x \<and> waits_for s x Fledge \<and>
    list_all (holds_mutex s Fledge) ms \<and> {t. lock_step\<^sup>*\<^sup>* s t} \<subseteq> {t. todo t Fledge = todo s Fledge}"
proof -
  obtain s where s: "run sched unconfigured = Some s" "joins s Fledge x" "waits_for s x Fledge"
      "list_all (holds_mutex s Fledge) ms"
    using assms by (auto simp: join_blocked_def split: option.splits)
  then show ?thesis using run_reachable [OF s(1)] join_deadlock [OF s(2,3)] by blast
qed

lemma stop_blocked: "join_blocked (run stop_schedule unconfigured) (Protocol Path_A) [Active_path_mutex]"
  by code_simp

lemma reconfigure_blocked: "join_blocked (run reconfigure_schedule unconfigured) (Receiver Path_A) [Config_mutex]"
  by code_simp

text \<open>
  The same shutdown comes to its end when the thread of the path has finished its turn before: every
  thread ends and no mutex is held.
\<close>

definition quiet_stop_schedule :: "(thread_id \<times> bool) list" where
  "quiet_stop_schedule = startup @ turns (Protocol Path_A) ''ynnyyyn'' @
     turns Fledge ''nyyyyyyyyyyynynynnyynyyyyyy'' @ turns (Protocol Path_A) ''y'' @ turns Fledge ''yynyy'' @
     turns Messages ''yynyynnyynnyyyy'' @ turns Fledge ''yy'' @ turns (Receiver Path_A) ''y'' @
     turns Fledge ''yn'' @ turns North ''n''"

definition all_ended :: "lock_state option \<Rightarrow> bool" where
  "all_ended r \<longleftrightarrow>
     (case r of None \<Rightarrow> False
      | Some s \<Rightarrow> list_all (\<lambda>th. todo s th = [] \<and> held s th = []) all_threads)"

lemma stop_can_end: "all_ended (run quiet_stop_schedule unconfigured)"
  by code_simp

section \<open>Properties\<close>

text \<open>
  C8. The threads never wait for each other's mutexes in a circle: in every reachable state the
  relation between a thread that waits for a mutex and the one that holds it is acyclic.  A thread
  that waits therefore waits, in the end, for one that can move or that waits for another thread to
  end.
\<close>
theorem lock_order:
  assumes "lock_step\<^sup>*\<^sup>* unconfigured s"
  shows "acyclic {(th, th'). waits_for s th th'} \<and>
    (\<forall>th th'. waits_for s th th' \<longrightarrow>
      (\<exists>x. (th, x) \<in> {(th, th'). waits_for s th th'}\<^sup>+ \<and>
        ((\<exists>choice t. move x choice s = Some t) \<or> (\<exists>y k. todo s x = Join y # k))))"
proof -
  have ok: "locks_ok s" by (rule threads.reachable [OF refl assms])
  note w = waits_acyclic [OF ok] waits_end [OF waits_acyclic(2) [OF ok]]
  have "\<exists>m. holds_mutex s x m" if "(th, x) \<in> (wait_graph s)\<^sup>+" for th x
    using that by (cases rule: trancl.cases)
      (auto simp: wait_graph_def waits_for_def split: list.splits instr.splits)
  then show ?thesis using w holder_acts [OF ok] unfolding wait_graph_def by meson
qed

theorem lock_order_witness:
  "\<exists>s. lock_step\<^sup>*\<^sup>* unconfigured s \<and> waits_for s (Protocol Path_A) Fledge \<and>
    acyclic {(th, th'). waits_for s th th'}"
proof -
  obtain s where "lock_step\<^sup>*\<^sup>* unconfigured s" "waits_for s (Protocol Path_A) Fledge"
    using join_blocked_reached [OF stop_blocked] by blast
  then show ?thesis using lock_order by blast
qed

text \<open>
  C37. The plugin can hang when it is shut down.  A schedule leads to the managing thread in
  \<open>HNZConnection::stop\<close>, which holds the mutex of the active path while it joins the thread of
  path A, and that thread waits for this very mutex at the begin of its turn; whatever happens then,
  the managing thread never goes on.
\<close>
theorem stop_deadlock:
  "\<exists>s. lock_step\<^sup>*\<^sup>* unconfigured s \<and> joins s Fledge (Protocol Path_A) \<and>
    waits_for s (Protocol Path_A) Fledge \<and> list_all (holds_mutex s Fledge) [Active_path_mutex] \<and>
    {t. lock_step\<^sup>*\<^sup>* s t} \<subseteq> {t. todo t Fledge = todo s Fledge}"
  by (rule join_blocked_reached [OF stop_blocked])

text \<open>
  C36. A new configuration can hang the plugin.  A schedule leads to the managing thread in
  \<open>HNZ::reconfigure\<close>, which holds the mutex of the configuration while it joins the thread that
  receives on path A, and that thread waits for this very mutex to handle a message; whatever happens
  then, the managing thread never goes on.
\<close>
theorem reconfigure_deadlock:
  "\<exists>s. lock_step\<^sup>*\<^sup>* unconfigured s \<and> joins s Fledge (Receiver Path_A) \<and>
    waits_for s (Receiver Path_A) Fledge \<and> list_all (holds_mutex s Fledge) [Config_mutex] \<and>
    {t. lock_step\<^sup>*\<^sup>* s t} \<subseteq> {t. todo t Fledge = todo s Fledge}"
  by (rule join_blocked_reached [OF reconfigure_blocked])

end
