(* ===== verification/HNZ_Races.thy ===== *)
theory HNZ_Races
  imports HNZ_Link_Properties
begin

text \<open>
  Two threads on the queues of one path.  The thread of the connection repeats messages
  (\<open>HNZConnection::m_check_timer\<close>) while the receiving thread takes acknowledgements
  (\<open>HNZPath::m_receivedRR\<close>, \<open>m_NRAccepted\<close>); the first one holds \<open>m_active_path_mutex\<close>, the second
  one holds no mutex for an RR frame, so that they run at the same time.  Both are cut into the
  accesses they make to the queues; the conditions and assignments between two accesses belong to one
  step.  A schedule says whose turn it is.
\<close>

section \<open>The steps of both threads\<close>

text \<open>
  \<open>m_check_timer\<close> stands before the test of \<open>msg_sent\<close>, before \<open>front()\<close>, before the timeout is
  tested, before the first message is sent again, before a turn of the loop that moves messages back.
\<close>

datatype timer_point = Timer_start | Timer_front | Timer_time | Timer_resend | Timer_back | Timer_end

text \<open>
  The receiving thread has an RR, pops acknowledged messages, sets the timer, tests the loop over the
  waiting messages, sends the copy it has taken of the first one, removes the first one.
\<close>

datatype ack_point =
  Ack_start int bool | Ack_pop nat int | Ack_clock | Ack_loop | Ack_send Message | Ack_remove
  | Ack_end bool

text \<open>\<open>msg_alive\<close>: the reference \<open>msg\<close> taken by \<open>front()\<close> still refers to an element of \<open>msg_sent\<close>.\<close>

record race =
  the_sys :: sys
  timer :: timer_point
  ack :: ack_point
  msg_alive :: bool

abbreviation queues :: "path_id \<Rightarrow> race \<Rightarrow> HNZPath" where
  "queues p r \<equiv> paths (the_sys r) p"

text \<open>Reading an element that is not there, or that has been destroyed, is an error.\<close>

definition timer_step :: "env \<Rightarrow> path_id \<Rightarrow> race \<Rightarrow> race res" where
  "timer_step E p r =
     (let s = the_sys r in
      case timer r of
        Timer_start \<Rightarrow>
          Inr (if msg_sent (paths s p) = [] then r\<lparr>timer := Timer_end\<rparr>
               else r\<lparr>the_sys := asked s, timer := (if isTCPConnected E s then Timer_front else Timer_end)\<rparr>)
      | Timer_front \<Rightarrow>
          if msg_sent (paths s p) = [] then Inl Out_of_bounds
          else Inr (r\<lparr>timer := Timer_time, msg_alive := True\<rparr>)
      | Timer_time \<Rightarrow>
          Inr (if \<not> repetition_due p s then r\<lparr>timer := Timer_end\<rparr>
               else if m_repeat (paths s p) \<ge> repeat_max (paths s p)
               then r\<lparr>the_sys := protocolStateTransition E p MAX_SEND s, timer := Timer_end\<rparr>
               else r\<lparr>timer := Timer_resend\<rparr>)
      | Timer_resend \<Rightarrow>
          if \<not> msg_alive r then Inl Out_of_bounds
          else Inr (r\<lparr>the_sys := sendBackInfo E p (hd (msg_sent (paths s p))) s, timer := Timer_back\<rparr>)
      | Timer_back \<Rightarrow>
          Inr (if length (msg_sent (paths s p)) > 1
               then r\<lparr>the_sys := upd_path p (\<lambda>x. x\<lparr>msg_sent := butlast (msg_sent x),
                        msg_waiting := last (msg_sent x) # msg_waiting x\<rparr>) s\<rparr>
               else r\<lparr>timer := Timer_end\<rparr>)
      | Timer_end \<Rightarrow> Inr r)"

definition ack_step :: "env \<Rightarrow> path_id \<Rightarrow> race \<Rightarrow> race res" where
  "ack_step E p r =
     (let s = the_sys r; pa = paths s p in
      case ack r of
        Ack_start nr repetition \<Rightarrow>
          Inr (r\<lparr>ack := (if nr = m_NRR pa then Ack_end True
                         else if \<not> m_isNRValid pa nr then Ack_end False
                         else if \<not> repetition \<or> m_repeat pa > 0
                         then Ack_pop (nat (((nr - m_NRR pa) smod 8 + 8) smod 8)) nr
                         else Ack_end False)\<rparr>)
      | Ack_pop (Suc n) nr \<Rightarrow>
          Inr (if msg_sent pa = [] then r\<lparr>ack := Ack_pop n nr\<rparr>
               else r\<lparr>the_sys := upd_path p (\<lambda>x. x\<lparr>msg_sent := tl (msg_sent x)\<rparr>) s,
                      ack := Ack_pop n nr, msg_alive := False\<rparr>)
      | Ack_pop 0 nr \<Rightarrow>
          Inr (r\<lparr>the_sys := upd_path p (\<lambda>x. x\<lparr>m_NRR := nr, m_repeat := 0\<rparr>) s, ack := Ack_clock\<rparr>)
      | Ack_clock \<Rightarrow>
          Inr (r\<lparr>the_sys := (if msg_sent pa \<noteq> []
                    then upd_path p (\<lambda>x. x\<lparr>last_sent_time := now_ms E s\<rparr>) (asked s) else s),
                 ack := Ack_loop\<rparr>)
      | Ack_loop \<Rightarrow>
          Inr (r\<lparr>ack := (if msg_waiting pa \<noteq> [] \<and> window_open pa then Ack_send (hd (msg_waiting pa))
                         else Ack_end True)\<rparr>)
      | Ack_send m \<Rightarrow>
          (let (ok, t) = m_sendInfoImmediately E p m s
           in Inr (r\<lparr>the_sys := t, ack := (if ok then Ack_remove else Ack_loop)\<rparr>))
      | Ack_remove \<Rightarrow>
          if msg_waiting pa = [] then Inl Out_of_bounds
          else Inr (r\<lparr>the_sys := upd_path p (\<lambda>x. x\<lparr>msg_waiting := tl (msg_waiting x)\<rparr>) s, ack := Ack_loop\<rparr>)
      | Ack_end b \<Rightarrow> Inr r)"

datatype turn = Timer | Receiver

definition turn_step :: "env \<Rightarrow> path_id \<Rightarrow> turn \<Rightarrow> race \<Rightarrow> race res" where
  "turn_step E p t = (case t of Timer \<Rightarrow> timer_step E p | Receiver \<Rightarrow> ack_step E p)"

definition run_schedule :: "env \<Rightarrow> path_id \<Rightarrow> turn list \<Rightarrow> race \<Rightarrow> race res" where
  "run_schedule E p = efold (turn_step E p)"

definition race_start :: "sys \<Rightarrow> int \<Rightarrow> bool \<Rightarrow> race" where
  "race_start s nr repetition =
     \<lparr>the_sys = s, timer = Timer_start, ack = Ack_start nr repetition, msg_alive = False\<rparr>"

lemma run_Nil [simp]: "run_schedule E p [] r = Inr r"
  by (simp add: run_schedule_def)

lemma run_Cons [simp]: "run_schedule E p (t # ts) r = ebind (turn_step E p t r) (run_schedule E p ts)"
  by (simp add: run_schedule_def)

lemma run_append: "run_schedule E p (ts @ us) r = ebind (run_schedule E p ts r) (run_schedule E p us)"
  by (simp add: run_schedule_def efold_append)

lemmas turn_defs = turn_step_def timer_step_def ack_step_def


section \<open>Each thread alone\<close>

text \<open>The steps of one thread, without the other one in between, are the method.\<close>

lemma timer_back_alone:
  assumes "timer r = Timer_back"
  shows "\<exists>n. run_schedule E p (replicate n Timer) r
    = Inr (r\<lparr>the_sys := upd_path p (\<lambda>x. let (sent, waiting) = take_back (msg_sent x) (msg_waiting x)
         in x\<lparr>msg_sent := sent, msg_waiting := waiting\<rparr>) (the_sys r), timer := Timer_end\<rparr>)"
  using assms
proof (induction "length (msg_sent (queues p r))" arbitrary: r rule: less_induct)
  case less
  show ?case
  proof (cases "length (msg_sent (queues p r)) > 1")
    case False
    then have "take_back (msg_sent (queues p r)) w = (msg_sent (queues p r), w)" for w
      by (subst take_back.simps) simp
    with False less.prems show ?thesis
      by (intro exI [of _ 1]) (simp add: turn_defs upd_path_def)
  next
    case True
    define r' where "r' = r\<lparr>the_sys := upd_path p (\<lambda>x. x\<lparr>msg_sent := butlast (msg_sent x),
                        msg_waiting := last (msg_sent x) # msg_waiting x\<rparr>) (the_sys r)\<rparr>"
    have step: "turn_step E p Timer r = Inr r'" using True less.prems by (simp add: turn_defs r'_def)
    have "length (msg_sent (queues p r')) < length (msg_sent (queues p r))" using True by (simp add: r'_def)
    from less.hyps [OF this] obtain n where n: "run_schedule E p (replicate n Timer) r'
      = Inr (r'\<lparr>the_sys := upd_path p (\<lambda>x. let (sent, waiting) = take_back (msg_sent x) (msg_waiting x)
         in x\<lparr>msg_sent := sent, msg_waiting := waiting\<rparr>) (the_sys r'), timer := Timer_end\<rparr>)"
      using less.prems by (auto simp: r'_def)
    have "take_back (msg_sent (queues p r)) w
        = take_back (butlast (msg_sent (queues p r))) (last (msg_sent (queues p r)) # w)" for w
      using True by (subst take_back.simps) simp
    with n step show ?thesis
      by (intro exI [of _ "Suc n"]) (simp add: r'_def upd_path_def case_prod_beta Let_def del: take_back.simps)
  qed
qed

lemma timer_alone:
  assumes "timer r = Timer_start"
  shows "\<exists>n alive. run_schedule E p (replicate n Timer) r
     = Inr (r\<lparr>the_sys := check_repetition E p (the_sys r), timer := Timer_end, msg_alive := alive\<rparr>)"
proof (cases "msg_sent (queues p r) = [] \<or> \<not> isTCPConnected E (the_sys r)")
  case True
  with assms show ?thesis
    by (intro exI [of _ 1] exI [of _ "msg_alive r"]) (auto simp: turn_defs check_repetition_def Let_def)
next
  case tcp: False
  show ?thesis
  proof (cases "repetition_due p (asked (the_sys r)) \<and> m_repeat (queues p r) < repeat_max (queues p r)")
    case False
    with assms tcp show ?thesis
      by (intro exI [of _ "Suc (Suc (Suc 0))"] exI [of _ True])
        (auto simp: turn_defs check_repetition_def repeat_or_give_up_def Let_def)
  next
    case True
    define r1 where "r1 = r\<lparr>the_sys := sendBackInfo E p (hd (msg_sent (queues p r))) (asked (the_sys r)),
      timer := Timer_back, msg_alive := True\<rparr>"
    have four: "run_schedule E p (replicate 4 Timer) r = Inr r1"
      using assms tcp True by (simp add: eval_nat_numeral turn_defs r1_def Let_def)
    have tb: "timer r1 = Timer_back" by (simp add: r1_def)
    have "r1\<lparr>the_sys := upd_path p (\<lambda>x. let (sent, waiting) = take_back (msg_sent x) (msg_waiting x)
         in x\<lparr>msg_sent := sent, msg_waiting := waiting\<rparr>) (the_sys r1), timer := Timer_end\<rparr>
        = r\<lparr>the_sys := check_repetition E p (the_sys r), timer := Timer_end, msg_alive := True\<rparr>"
      using tcp True by (simp add: r1_def check_repetition_def repeat_or_give_up_def Let_def)
    with timer_back_alone [OF tb, of E p] obtain n where "run_schedule E p (replicate n Timer) r1
        = Inr (r\<lparr>the_sys := check_repetition E p (the_sys r), timer := Timer_end, msg_alive := True\<rparr>)"
      by metis
    with four show ?thesis
      by (intro exI [of _ "4 + n"] exI [of _ True]) (simp add: replicate_add run_append del: replicate_Suc)
  qed
qed

lemma sendInfo_keeps_waiting:
  "m_sendInfoImmediately E p m s = (ok, t) \<Longrightarrow> msg_waiting (paths t p) = msg_waiting (paths s p)"
  by (erule sendInfoImmediately_cases) simp_all

text \<open>A turn of the loop over the waiting messages.\<close>

lemma ack_loop_turn:
  assumes "ack r = Ack_loop" and "msg_waiting (queues p r) \<noteq> []" and "window_open (queues p r)"
    and "m_sendInfoImmediately E p (hd (msg_waiting (queues p r))) (the_sys r) = (ok, t)"
  shows "\<exists>n. run_schedule E p (replicate n Receiver) r = Inr (r\<lparr>the_sys :=
    (if ok then upd_path p (\<lambda>x. x\<lparr>msg_waiting := tl (msg_waiting x)\<rparr>) t else t)\<rparr>)"
  using assms sendInfo_keeps_waiting [OF assms(4)]
  by (intro exI [of _ "if ok then 3 else 2"]) (simp add: eval_nat_numeral turn_defs)

lemma ack_loop_alone:
  assumes "send_waiting E p s = Some t"
  shows "\<forall>r :: race. the_sys r = s \<longrightarrow> ack r = Ack_loop \<longrightarrow>
    (\<exists>n. run_schedule E p (replicate n Receiver) r = Inr (r\<lparr>the_sys := t, ack := Ack_end True\<rparr>))"
proof (rule send_waiting.raw_induct [OF _ assms])
  fix f E p s t
  assume IH: "\<And>E p s t. f E p s = Some t \<Longrightarrow> \<forall>r :: race. the_sys r = s \<longrightarrow> ack r = Ack_loop \<longrightarrow>
      (\<exists>n. run_schedule E p (replicate n Receiver) r = Inr (r\<lparr>the_sys := t, ack := Ack_end True\<rparr>))"
    and st: "(if msg_waiting (paths s p) \<noteq> [] \<and> window_open (paths s p)
      then let r = m_sendInfoImmediately E p (hd (msg_waiting (paths s p))) s
           in f E p (if fst r then upd_path p (\<lambda>x. x\<lparr>msg_waiting := tl (msg_waiting x)\<rparr>) (snd r)
                     else snd r)
      else Some s) = Some t"
  show "\<forall>r :: race. the_sys r = s \<longrightarrow> ack r = Ack_loop \<longrightarrow>
      (\<exists>n. run_schedule E p (replicate n Receiver) r = Inr (r\<lparr>the_sys := t, ack := Ack_end True\<rparr>))"
  proof (intro allI impI)
    fix r :: race assume r: "the_sys r = s" "ack r = Ack_loop"
    show "\<exists>n. run_schedule E p (replicate n Receiver) r = Inr (r\<lparr>the_sys := t, ack := Ack_end True\<rparr>)"
    proof (cases "msg_waiting (paths s p) \<noteq> [] \<and> window_open (paths s p)")
      case False
      with r st show ?thesis by (intro exI [of _ 1]) (auto simp: turn_defs)
    next
      case True
      obtain ok u where u: "m_sendInfoImmediately E p (hd (msg_waiting (paths s p))) s = (ok, u)" by fastforce
      define v where "v = (if ok then upd_path p (\<lambda>x. x\<lparr>msg_waiting := tl (msg_waiting x)\<rparr>) u else u)"
      obtain n where n: "run_schedule E p (replicate n Receiver) r = Inr (r\<lparr>the_sys := v\<rparr>)"
        using ack_loop_turn [of r p E ok u] r True u by (auto simp: v_def)
      have "f E p v = Some t" using st True u by (cases ok) (simp_all add: v_def Let_def)
      from IH [OF this, rule_format, of "r\<lparr>the_sys := v\<rparr>"] r(2) obtain k where "run_schedule E p (replicate k Receiver) (r\<lparr>the_sys := v\<rparr>)
          = Inr (r\<lparr>the_sys := t, ack := Ack_end True\<rparr>)" by auto
      with n show ?thesis by (intro exI [of _ "n + k"]) (simp add: replicate_add run_append)
    qed
  qed
qed

lemma ack_pop_alone:
  assumes "ack r = Ack_pop n nr"
  shows "\<exists>k alive. run_schedule E p (replicate k Receiver) r = Inr (r\<lparr>the_sys := upd_path p
    (\<lambda>x. x\<lparr>msg_sent := (tl ^^ n) (msg_sent x), m_NRR := nr, m_repeat := 0\<rparr>) (the_sys r),
     ack := Ack_clock, msg_alive := alive\<rparr>)"
  using assms
proof (induction n arbitrary: r)
  case 0
  then show ?case by (intro exI [of _ 1] exI [of _ "msg_alive r"]) (simp add: turn_defs upd_path_def Let_def)
next
  case (Suc n)
  define r' where "r' = (if msg_sent (queues p r) = [] then r\<lparr>ack := Ack_pop n nr\<rparr>
     else r\<lparr>the_sys := upd_path p (\<lambda>x. x\<lparr>msg_sent := tl (msg_sent x)\<rparr>) (the_sys r),
            ack := Ack_pop n nr, msg_alive := False\<rparr>)"
  have step: "turn_step E p Receiver r = Inr r'" using Suc.prems by (simp add: turn_defs r'_def)
  have nil: "(tl ^^ n) [] = ([] :: Message list)" by (induction n) simp_all
  have "ack r' = Ack_pop n nr" by (simp add: r'_def)
  from Suc.IH [OF this] obtain k alive where "run_schedule E p (replicate k Receiver) r' = Inr (r'\<lparr>the_sys := upd_path p
    (\<lambda>x. x\<lparr>msg_sent := (tl ^^ n) (msg_sent x), m_NRR := nr, m_repeat := 0\<rparr>) (the_sys r'),
     ack := Ack_clock, msg_alive := alive\<rparr>)" by blast
  with step show ?case
    by (intro exI [of _ "Suc k"] exI [of _ alive])
      (auto simp: r'_def upd_path_def funpow_swap1 nil)
qed

lemma ack_alone:
  assumes "ack r = Ack_start nr rep" and "m_receivedRR E p nr rep (the_sys r) = Inr (ok, t)"
  shows "\<exists>n alive. run_schedule E p (replicate n Receiver) r
    = Inr (r\<lparr>the_sys := t, ack := Ack_end ok, msg_alive := alive\<rparr>)"
proof (cases "nr \<noteq> m_NRR (queues p r) \<and> m_isNRValid (queues p r) nr \<and> (\<not> rep \<or> m_repeat (queues p r) > 0)")
  case False
  with assms show ?thesis
    by (intro exI [of _ 1] exI [of _ "msg_alive r"]) (auto simp: turn_defs m_receivedRR_def Let_def split: if_splits)
next
  case True
  define n where "n = nat (((nr - m_NRR (queues p r)) smod 8 + 8) smod 8)"
  define s1 where "s1 = upd_path p (\<lambda>x. x\<lparr>msg_sent := (tl ^^ n) (msg_sent x), m_NRR := nr, m_repeat := 0\<rparr>) (the_sys r)"
  define s2 where "s2 = (if msg_sent (paths s1 p) \<noteq> []
      then upd_path p (\<lambda>x. x\<lparr>last_sent_time := now_ms E s1\<rparr>) (asked s1) else s1)"
  have accepted: "m_NRAccepted E p nr (the_sys r) = Inr t" "ok"
    using assms(2) True by (auto simp: m_receivedRR_def Let_def ebind_Inr_conv split: if_splits)
  then have sw: "send_waiting E p s2 = Some t"
    unfolding m_NRAccepted_def Let_def n_def [symmetric] s1_def [symmetric] s2_def [symmetric]
    by (auto split: option.splits)
  define r1 where "r1 = r\<lparr>ack := Ack_pop n nr\<rparr>"
  have "turn_step E p Receiver r = Inr r1"
    using assms(1) True by (simp add: turn_defs r1_def n_def)
  moreover obtain k alive where "run_schedule E p (replicate k Receiver) r1
      = Inr (r1\<lparr>the_sys := s1, ack := Ack_clock, msg_alive := alive\<rparr>)"
    using ack_pop_alone [of r1 n nr E p] by (auto simp: r1_def s1_def)
  moreover define r2 where "r2 = r1\<lparr>the_sys := s2, ack := Ack_loop, msg_alive := alive\<rparr>"
  moreover have "turn_step E p Receiver (r1\<lparr>the_sys := s1, ack := Ack_clock, msg_alive := alive\<rparr>) = Inr r2"
    by (simp add: turn_defs r2_def s2_def)
  moreover obtain m where "run_schedule E p (replicate m Receiver) r2 = Inr (r2\<lparr>the_sys := t, ack := Ack_end True\<rparr>)"
    using ack_loop_alone [OF sw, rule_format, of r2] by (auto simp: r2_def)
  ultimately have "run_schedule E p (Receiver # replicate k Receiver @ Receiver # replicate m Receiver) r
      = Inr (r2\<lparr>the_sys := t, ack := Ack_end True\<rparr>)"
    by (simp add: run_append)
  moreover have "Receiver # replicate k Receiver @ Receiver # replicate m Receiver = replicate (Suc (k + Suc m)) Receiver"
    by (simp add: replicate_add replicate_app_Cons_same)
  ultimately show ?thesis using accepted(2) by (intro exI [of _ "Suc (k + Suc m)"] exI [of _ alive])
    (auto simp: r2_def r1_def simp del: replicate_Suc)
qed

section \<open>Both threads at once\<close>

text \<open>A full window of three messages with one that waits, and the RR that acknowledges the first.\<close>

definition due_path :: "env \<Rightarrow> path_id \<Rightarrow> sys \<Rightarrow> Message \<Rightarrow> Message \<Rightarrow> Message \<Rightarrow> Message \<Rightarrow> bool" where
  "due_path E p s a b c w \<longleftrightarrow>
     m_protocol_state (paths s p) = CONNECTED \<and> path_ok (paths s p) \<and> consecutive (paths s p) \<and>
     u64 (m_anticipation_ratio (paths s p)) = 3 \<and>
     msg_sent (paths s p) = [a, b, c] \<and> msg_waiting (paths s p) = [w] \<and>
     now_connected E s \<and> repetition_due p s \<and> m_repeat (paths s p) \<in> {0..<repeat_max (paths s p)}"

text \<open>The state of both queues, which is all that the steps below depend on.\<close>

definition holds :: "path_id \<Rightarrow> sys \<Rightarrow> Message list \<Rightarrow> Message list \<Rightarrow> bool" where
  "holds p s sent waiting \<longleftrightarrow>
     m_protocol_state (paths s p) = CONNECTED \<and> u64 (m_anticipation_ratio (paths s p)) = 3 \<and>
     msg_sent (paths s p) = sent \<and> msg_waiting (paths s p) = waiting"

lemma next_valid:
  assumes "due_path E p s a b c w"
  shows "m_isNRValid (paths s p) ((m_NRR (paths s p) + 1) mod 8)"
    and "(m_NRR (paths s p) + 1) mod 8 \<noteq> m_NRR (paths s p)"
    and "nat ((((m_NRR (paths s p) + 1) mod 8 - m_NRR (paths s p)) smod 8 + 8) smod 8) = 1"
proof -
  have n: "m_NRR (paths s p) \<in> {0..7}" "m_ns (paths s p) = (m_NRR (paths s p) + 3) mod 8"
    using assms by (simp_all add: due_path_def path_ok_defs consecutive_def)
  then have "m_NRR (paths s p) \<in> {0, 1, 2, 3, 4, 5, 6, 7}" by auto
  with n(2) show "m_isNRValid (paths s p) ((m_NRR (paths s p) + 1) mod 8)"
    and "(m_NRR (paths s p) + 1) mod 8 \<noteq> m_NRR (paths s p)"
    and "nat ((((m_NRR (paths s p) + 1) mod 8 - m_NRR (paths s p)) smod 8 + 8) smod 8) = 1"
    by (auto simp: m_isNRValid_def nrOffset_eq)
qed

lemma send_turn:
  assumes "ack r = Ack_send m" and "holds p (the_sys r) sent waiting"
  shows "\<exists>t m'. turn_step E p Receiver r = Inr (r\<lparr>the_sys := t, ack := Ack_remove\<rparr>) \<and>
    holds p t (sent @ [m']) waiting \<and> payload m' = payload m"
proof -
  obtain ok t where t: "m_sendInfoImmediately E p m (the_sys r) = (ok, t)" by fastforce
  then show ?thesis
  proof (cases rule: sendInfoImmediately_cases)
    case discarded
    with assms(2) show ?thesis by (simp add: holds_def discarded_def)
  next
    case (sent time time')
    with assms t show ?thesis
      by (intro exI [of _ t] exI [of _ "m\<lparr>ns := m_ns (queues p r)\<rparr>"]) (simp add: turn_defs holds_def)
  qed
qed


definition move_back :: "path_id \<Rightarrow> sys \<Rightarrow> sys" where
  "move_back p = upd_path p (\<lambda>x. x\<lparr>msg_sent := butlast (msg_sent x),
     msg_waiting := last (msg_sent x) # msg_waiting x\<rparr>)"

lemma queue_turns:
  "ack r = Ack_loop \<Longrightarrow> holds p (the_sys r) sent (w # ws) \<Longrightarrow> length sent < 3 \<Longrightarrow>
     turn_step E p Receiver r = Inr (r\<lparr>ack := Ack_send w\<rparr>)"
  "ack r = Ack_loop \<Longrightarrow> holds p (the_sys r) sent [] \<Longrightarrow>
     turn_step E p Receiver r = Inr (r\<lparr>ack := Ack_end True\<rparr>)"
  "ack r = Ack_remove \<Longrightarrow> holds p (the_sys r) sent (w # ws) \<Longrightarrow>
     turn_step E p Receiver r = Inr (r\<lparr>the_sys := pop_waiting p (the_sys r), ack := Ack_loop\<rparr>) \<and>
     holds p (pop_waiting p (the_sys r)) sent ws"
  "timer r = Timer_back \<Longrightarrow> holds p (the_sys r) (x # sent @ [y]) ws \<Longrightarrow>
     turn_step E p Timer r = Inr (r\<lparr>the_sys := move_back p (the_sys r)\<rparr>) \<and>
     holds p (move_back p (the_sys r)) (x # sent) (y # ws)"
  "timer r = Timer_back \<Longrightarrow> holds p (the_sys r) [x] ws \<Longrightarrow>
     turn_step E p Timer r = Inr (r\<lparr>timer := Timer_end\<rparr>)"
  by (simp_all add: turn_defs holds_def window_open_def butlast_append pop_waiting_def move_back_def)

lemma isNRValid_cong: "m_NRR x = m_NRR y \<Longrightarrow> m_ns x = m_ns y \<Longrightarrow> m_isNRValid x nr = m_isNRValid y nr"
  by (simp add: m_isNRValid_def)

text \<open>The first message is sent again; the acknowledgement arrives and the waiting message is copied.\<close>

lemma repetition_begins:
  assumes "due_path E p s a b c w" and "nr = (m_NRR (paths s p) + 1) mod 8"
  shows "\<exists>t. run_schedule E p (replicate 4 Timer @ replicate 5 Receiver) (race_start s nr False)
      = Inr \<lparr>the_sys = t, timer = Timer_back, ack = Ack_send w, msg_alive = False\<rparr> \<and> holds p t [b, c] [w]"
proof -
  note d = assms(1) [unfolded due_path_def] and v = next_valid [OF assms(1), folded assms(2)]
  define u where "u = sendBackInfo E p a (asked s)"
  obtain time time' where b: "paths u p
      = (paths s p)\<lparr>m_repeat := m_repeat (paths s p) + 1, m_last_msg_sent_time := time, last_sent_time := time'\<rparr>"
    using paths_sendBackInfo [of E p a "asked s"] by (auto simp: u_def)
  have due: "repetition_due p (asked s)" using d by (simp add: repetition_due_def asked_def)
  have valid: "m_isNRValid (paths u p) nr" using v(1) isNRValid_cong [of "paths u p" "paths s p"] by (simp add: b)
  have "run_schedule E p (replicate 4 Timer) (race_start s nr False)
      = Inr \<lparr>the_sys = u, timer = Timer_back, ack = Ack_start nr False, msg_alive = True\<rparr>"
    using d due by (simp add: eval_nat_numeral turn_defs race_start_def isTCPConnected_def Let_def u_def)
  moreover have "\<exists>t. run_schedule E p (replicate 5 Receiver)
        \<lparr>the_sys = u, timer = Timer_back, ack = Ack_start nr False, msg_alive = True\<rparr>
      = Inr \<lparr>the_sys = t, timer = Timer_back, ack = Ack_send w, msg_alive = False\<rparr> \<and> holds p t [b, c] [w]"
    using d v(2,3) valid
    by (simp add: eval_nat_numeral turn_defs Let_def b holds_def window_open_def)
  ultimately show ?thesis by (auto simp: run_append)
qed


text \<open>The payloads a path keeps: in flight, then waiting.\<close>

definition kept :: "HNZPath \<Rightarrow> byte list list" where
  "kept pa = map payload (msg_sent pa @ msg_waiting pa)"

definition ends_keeping :: "env \<Rightarrow> path_id \<Rightarrow> race \<Rightarrow> byte list list \<Rightarrow> turn list \<Rightarrow> bool" where
  "ends_keeping E p r payloads sched \<longleftrightarrow>
     (case run_schedule E p sched r of
        Inl _ \<Rightarrow> False
      | Inr u \<Rightarrow> timer u = Timer_end \<and> ack u = Ack_end True \<and> kept (queues p u) = payloads)"

text \<open>Neither method loses a message.\<close>

lemma repetition_keeps:
  assumes "m_repeat (paths s p) < repeat_max (paths s p)"
  shows "kept (paths (check_repetition E p s) p) = kept (paths s p)"
proof -
  obtain time time' where b: "paths (sendBackInfo E p (hd (msg_sent (paths s p))) (asked s)) p
      = (paths s p)\<lparr>m_repeat := m_repeat (paths s p) + 1, m_last_msg_sent_time := time, last_sent_time := time'\<rparr>"
    using paths_sendBackInfo [of E p "hd (msg_sent (paths s p))" "asked s"] by auto
  have "map payload (take (Suc 0) xs) @ map payload (tl xs) @ ys = map payload xs @ ys" for xs :: "Message list" and ys
    by (cases xs) simp_all
  with assms show ?thesis
    by (simp add: check_repetition_def Let_def repeat_or_give_up_eq give_back_def b kept_def)
qed

lemma acknowledgement_keeps:
  assumes "path_ok (paths s p)" and "nr = (m_NRR (paths s p) + 1) mod 8" and "m_isNRValid (paths s p) nr"
    and "nr \<noteq> m_NRR (paths s p)" and "msg_sent (paths s p) \<noteq> []"
  shows "\<exists>t. m_receivedRR E p nr False s = Inr (True, t) \<and> kept (paths t p) = tl (kept (paths s p)) \<and>
    m_repeat (paths t p) = 0 \<and> repeat_max (paths t p) = repeat_max (paths s p)"
proof -
  have n: "nr \<in> {0..7}" "nat ((nr - m_NRR (paths s p)) mod 8) = 1"
    using assms(2) by (auto simp: mod_diff_left_eq)
  obtain t k where t: "m_NRAccepted E p nr s = Inr t" "link_step p s t" "m_repeat (paths t p) = 0"
      "msg_waiting (paths t p) = drop k (msg_waiting (paths s p))"
      "map payload (msg_sent (paths t p)) = map payload (drop 1 (msg_sent (paths s p)) @ take k (msg_waiting (paths s p)))"
    using NRAccepted_total [OF assms(1) n(1), of E] unfolding n(2) by blast
  have split: "map payload (take k xs) @ map payload (drop k xs) = map payload xs" for xs :: "Message list"
    by (metis append_take_drop_id map_append)
  have "kept (paths t p) = map payload (tl (msg_sent (paths s p)) @ take k (msg_waiting (paths s p))
      @ drop k (msg_waiting (paths s p)))"
    using t(4,5) by (simp add: kept_def drop_Suc split)
  also have "\<dots> = tl (kept (paths s p))" using assms(5) by (cases "msg_sent (paths s p)") (simp_all add: kept_def)
  finally show ?thesis
    using t(1-3) assms(3,4) same_states_settings [of "paths s p" "paths t p"]
    by (simp add: m_receivedRR_def link_step_def)
qed


lemma one_after_the_other:
  assumes "due_path E p s a b c w" and "nr = (m_NRR (paths s p) + 1) mod 8"
  shows "\<exists>n m. ends_keeping E p (race_start s nr False) (map payload [b, c, w]) (replicate n Timer @ replicate m Receiver)"
    and "\<exists>n m. ends_keeping E p (race_start s nr False) (map payload [b, c, w]) (replicate n Receiver @ replicate m Timer)"
proof -
  note d = assms(1) [unfolded due_path_def] and v = next_valid [OF assms(1), folded assms(2)]
  have start: "timer (race_start s nr False) = Timer_start" "ack (race_start s nr False) = Ack_start nr False"
      "the_sys (race_start s nr False) = s" by (simp_all add: race_start_def)
  have kept_s: "kept (paths s p) = map payload [a, b, c, w]" using d by (simp add: kept_def)
  define u where "u = check_repetition E p s"
  have due: "repetition_due p (asked s)" using d by (simp add: repetition_due_def asked_def)
  obtain time time' where ub: "paths (sendBackInfo E p a (asked s)) p
      = (paths s p)\<lparr>m_repeat := m_repeat (paths s p) + 1, m_last_msg_sent_time := time, last_sent_time := time'\<rparr>"
    using paths_sendBackInfo [of E p a "asked s"] by auto
  have u: "paths u p = (paths s p)\<lparr>m_repeat := m_repeat (paths s p) + 1, m_last_msg_sent_time := time,
      last_sent_time := time', msg_sent := [a], msg_waiting := [b, c, w]\<rparr>"
    using d due by (simp add: u_def check_repetition_def Let_def isTCPConnected_def repeat_or_give_up_eq give_back_def ub)
  have "path_ok (paths u p)" using d by (simp add: u path_ok_defs isBULLE_def)
  moreover have "m_isNRValid (paths u p) nr" using v(1) isNRValid_cong [of "paths u p" "paths s p"] by (simp add: u)
  ultimately obtain t where t: "m_receivedRR E p nr False u = Inr (True, t)" "kept (paths t p) = map payload [b, c, w]"
    using acknowledgement_keeps [of u p nr E] assms(2) v(2) by (auto simp: u kept_def)
  obtain n al where n: "run_schedule E p (replicate n Timer) (race_start s nr False)
      = Inr ((race_start s nr False)\<lparr>the_sys := u, timer := Timer_end, msg_alive := al\<rparr>)"
    using timer_alone [OF start(1)] start(3) by (metis u_def)
  define r where "r = (race_start s nr False)\<lparr>the_sys := u, timer := Timer_end, msg_alive := al\<rparr>"
  have "ack r = Ack_start nr False" "m_receivedRR E p nr False (the_sys r) = Inr (True, t)"
    using start(2) t(1) by (simp_all add: r_def)
  from ack_alone [OF this] obtain m al' where "run_schedule E p (replicate m Receiver) r
      = Inr (r\<lparr>the_sys := t, ack := Ack_end True, msg_alive := al'\<rparr>)" by blast
  with n t(2) show "\<exists>n m. ends_keeping E p (race_start s nr False) (map payload [b, c, w]) (replicate n Timer @ replicate m Receiver)"
    by (intro exI [of _ n] exI [of _ m]) (simp add: ends_keeping_def run_append r_def)
  obtain t' where t': "m_receivedRR E p nr False s = Inr (True, t')" "kept (paths t' p) = map payload [b, c, w]"
      "m_repeat (paths t' p) < repeat_max (paths t' p)"
    using acknowledgement_keeps [of s p nr E] assms(2) v d kept_s by auto
  obtain n al where n: "run_schedule E p (replicate n Receiver) (race_start s nr False)
      = Inr ((race_start s nr False)\<lparr>the_sys := t', ack := Ack_end True, msg_alive := al\<rparr>)"
    using ack_alone [OF start(2)] start(3) t'(1) by metis
  define r' where "r' = (race_start s nr False)\<lparr>the_sys := t', ack := Ack_end True, msg_alive := al\<rparr>"
  have "timer r' = Timer_start" using start(1) by (simp add: r'_def)
  from timer_alone [OF this] obtain m al' where "run_schedule E p (replicate m Timer) r'
      = Inr (r'\<lparr>the_sys := check_repetition E p (the_sys r'), timer := Timer_end, msg_alive := al'\<rparr>)" by blast
  with n repetition_keeps [OF t'(3)] t'(2)
  show "\<exists>n m. ends_keeping E p (race_start s nr False) (map payload [b, c, w]) (replicate n Receiver @ replicate m Timer)"
    by (intro exI [of _ n] exI [of _ m]) (simp add: ends_keeping_def run_append r'_def)
qed


text \<open>
  The receiving thread has copied the waiting message but not removed it when the other thread puts
  the last message in flight before it: it sends the copy and removes that message instead.
\<close>

lemma wrong_removal:
  assumes "ack r = Ack_send w" and "holds p (the_sys r) [b] [c, w]"
  shows "\<exists>t w' w''. run_schedule E p (replicate 6 Receiver) r = Inr (r\<lparr>the_sys := t, ack := Ack_end True\<rparr>) \<and>
    holds p t [b, w', w''] [] \<and> payload w' = payload w \<and> payload w'' = payload w"
proof -
  obtain t2 w' where r2: "turn_step E p Receiver r = Inr (r\<lparr>the_sys := t2, ack := Ack_remove\<rparr>)"
      "holds p t2 [b, w'] [c, w]" "payload w' = payload w"
    using send_turn [OF assms, of E] by auto
  define r3 where "r3 = r\<lparr>the_sys := pop_waiting p t2, ack := Ack_loop\<rparr>"
  have r3: "turn_step E p Receiver (r\<lparr>the_sys := t2, ack := Ack_remove\<rparr>) = Inr r3" "holds p (the_sys r3) [b, w'] [w]"
    using queue_turns(3) [of "r\<lparr>the_sys := t2, ack := Ack_remove\<rparr>" p "[b, w']" c "[w]" E] r2(2)
    by (simp_all add: r3_def)
  have r4: "turn_step E p Receiver r3 = Inr (r3\<lparr>ack := Ack_send w\<rparr>)"
    using queue_turns(1) [of r3 p "[b, w']" w "[]" E] r3(2) by (simp add: r3_def)
  obtain t5 w'' where r5: "turn_step E p Receiver (r3\<lparr>ack := Ack_send w\<rparr>)
        = Inr (r3\<lparr>the_sys := t5, ack := Ack_remove\<rparr>)"
      "holds p t5 [b, w', w''] [w]" "payload w'' = payload w"
    using send_turn [of "r3\<lparr>ack := Ack_send w\<rparr>" w p "[b, w']" "[w]" E] r3(2) by auto
  define r6 where "r6 = r3\<lparr>the_sys := pop_waiting p t5, ack := Ack_loop\<rparr>"
  have r6: "turn_step E p Receiver (r3\<lparr>the_sys := t5, ack := Ack_remove\<rparr>) = Inr r6" "holds p (the_sys r6) [b, w', w''] []"
    using queue_turns(3) [of "r3\<lparr>the_sys := t5, ack := Ack_remove\<rparr>" p "[b, w', w'']" w "[]" E] r5(2)
    by (simp_all add: r6_def)
  have "turn_step E p Receiver r6 = Inr (r6\<lparr>ack := Ack_end True\<rparr>)"
    using queue_turns(2) [of r6 p "[b, w', w'']" E] r6(2) by (simp add: r6_def)
  then have "run_schedule E p (replicate 6 Receiver) r = Inr (r6\<lparr>ack := Ack_end True\<rparr>)"
    by (simp add: eval_nat_numeral r2(1) r3(1) r4 r5(1) r6(1))
  then show ?thesis
    using r6(2) r2(3) r5(3) by (intro exI [of _ "the_sys r6"] exI [of _ w'] exI [of _ w'']) (simp add: r6_def r3_def)
qed

lemma two_moved_back:
  assumes "timer r = Timer_back" and "holds p (the_sys r) [x, y, z] []"
  shows "\<exists>t. run_schedule E p (replicate 3 Timer) r = Inr (r\<lparr>the_sys := t, timer := Timer_end\<rparr>) \<and> holds p t [x] [y, z]"
proof -
  define r8 where "r8 = r\<lparr>the_sys := move_back p (the_sys r)\<rparr>"
  have r8: "turn_step E p Timer r = Inr r8" "holds p (the_sys r8) [x, y] [z]" "timer r8 = Timer_back"
    using queue_turns(4) [of r p x "[y]" z "[]" E] assms by (simp_all add: r8_def)
  define r9 where "r9 = r8\<lparr>the_sys := move_back p (the_sys r8)\<rparr>"
  have r9: "turn_step E p Timer r8 = Inr r9" "holds p (the_sys r9) [x] [y, z]" "timer r9 = Timer_back"
    using queue_turns(4) [of r8 p x "[]" y "[z]" E] r8(2,3) by (simp_all add: r9_def)
  have "turn_step E p Timer r9 = Inr (r9\<lparr>timer := Timer_end\<rparr>)" using queue_turns(5) r9(2,3) by blast
  then have "run_schedule E p (replicate 3 Timer) r = Inr (r9\<lparr>timer := Timer_end\<rparr>)"
    by (simp add: eval_nat_numeral r8(1) r9(1))
  then show ?thesis using r9(2) by (intro exI [of _ "the_sys r9"]) (simp add: r9_def r8_def)
qed

lemma lost_and_doubled:
  assumes "due_path E p s a b c w" and "nr = (m_NRR (paths s p) + 1) mod 8"
  shows "ends_keeping E p (race_start s nr False) (map payload [b, w, w])
    ((replicate 4 Timer @ replicate 5 Receiver) @ Timer # replicate 6 Receiver @ replicate 3 Timer)"
proof -
  obtain t where t: "run_schedule E p (replicate 4 Timer @ replicate 5 Receiver) (race_start s nr False)
      = Inr \<lparr>the_sys = t, timer = Timer_back, ack = Ack_send w, msg_alive = False\<rparr>" "holds p t [b, c] [w]"
    using repetition_begins [OF assms] by blast
  define r0 where "r0 = \<lparr>the_sys = t, timer = Timer_back, ack = Ack_send w, msg_alive = False\<rparr>"
  define r1 where "r1 = r0\<lparr>the_sys := move_back p t\<rparr>"
  have r1: "turn_step E p Timer r0 = Inr r1" "holds p (the_sys r1) [b] [c, w]" "ack r1 = Ack_send w" "timer r1 = Timer_back"
    using queue_turns(4) [of r0 p b "[]" c "[w]" E] t(2) by (simp_all add: r0_def r1_def)
  obtain t7 w' w'' where r7: "run_schedule E p (replicate 6 Receiver) r1 = Inr (r1\<lparr>the_sys := t7, ack := Ack_end True\<rparr>)"
      "holds p t7 [b, w', w''] []" "payload w' = payload w" "payload w'' = payload w"
    using wrong_removal [OF r1(3,2)] by blast
  define r2 where "r2 = r1\<lparr>the_sys := t7, ack := Ack_end True\<rparr>"
  have "timer r2 = Timer_back" "holds p (the_sys r2) [b, w', w''] []" using r1(4) r7(2) by (simp_all add: r2_def)
  from two_moved_back [OF this] obtain t9 where r9: "run_schedule E p (replicate 3 Timer) r2
      = Inr (r2\<lparr>the_sys := t9, timer := Timer_end\<rparr>)" "holds p t9 [b] [w', w'']" by blast
  have "run_schedule E p ((replicate 4 Timer @ replicate 5 Receiver) @ Timer # replicate 6 Receiver @ replicate 3 Timer)
      (race_start s nr False) = Inr (r2\<lparr>the_sys := t9, timer := Timer_end\<rparr>)"
    using t(1) r1(1) r7(1) r9(1) by (simp only: run_append run_Cons ebind.simps r0_def [symmetric] r2_def [symmetric])
  then show ?thesis
    using r9(2) r7(3,4) by (simp add: ends_keeping_def kept_def holds_def r2_def del: append_assoc)
qed

text \<open>The other thread holds a reference to the first message when the acknowledgement removes it.\<close>

lemma reference_destroyed:
  assumes "due_path E p s a b c w" and "nr = (m_NRR (paths s p) + 1) mod 8"
  shows "run_schedule E p (replicate 3 Timer @ replicate 2 Receiver @ [Timer]) (race_start s nr False) = Inl Out_of_bounds"
proof -
  note d = assms(1) [unfolded due_path_def] and v = next_valid [OF assms(1), folded assms(2)]
  have due: "repetition_due p (asked s)" using d by (simp add: repetition_due_def asked_def)
  show ?thesis
    using d due v by (simp add: eval_nat_numeral turn_defs race_start_def isTCPConnected_def Let_def)
qed

text \<open>
  C39. The thread that repeats messages and the thread that takes acknowledgements change the same
  queues without a common mutex.  One after the other, in either order, they keep every message that
  is not acknowledged.  Interleaved, they can lose one: with a full window of three messages, one
  message waiting, and an acknowledgement of the first that arrives while it is sent again, the
  message before the waiting one is removed in its place, which nobody has acknowledged, and the
  waiting one is sent twice and kept twice; or the first message is sent again after it has been destroyed.
\<close>
theorem queue_race:
  assumes "due_path E p s a b c w" and "nr = (m_NRR (paths s p) + 1) mod 8"
  shows "(\<exists>n m. ends_keeping E p (race_start s nr False) (map payload [b, c, w]) (replicate n Timer @ replicate m Receiver)) \<and>
    (\<exists>n m. ends_keeping E p (race_start s nr False) (map payload [b, c, w]) (replicate n Receiver @ replicate m Timer)) \<and>
    (\<exists>sched. ends_keeping E p (race_start s nr False) (map payload [b, w, w]) sched) \<and>
    (\<exists>sched. run_schedule E p sched (race_start s nr False) = Inl Out_of_bounds)"
  using one_after_the_other [OF assms] lost_and_doubled [OF assms] reference_destroyed [OF assms] by blast

text \<open>The messages of the busy state, with payloads that differ.\<close>

definition race_state :: sys where
  "race_state = busy_state\<lparr>paths := (paths busy_state)(Path_A := busy_path
     \<lparr>msg_sent := [\<lparr>ns = 0, payload = [1]\<rparr>, \<lparr>ns = 1, payload = [2]\<rparr>, \<lparr>ns = 2, payload = [3]\<rparr>],
      msg_waiting := [\<lparr>ns = 0, payload = [4]\<rparr>]\<rparr>)\<rparr>"

theorem queue_race_witness:
  "\<exists>sched. ends_keeping default_env Path_A (race_start race_state 1 False) [[2], [4], [4]] sched"
proof -
  have "paths race_state Path_A = busy_path
     \<lparr>msg_sent := [\<lparr>ns = 0, payload = [1]\<rparr>, \<lparr>ns = 1, payload = [2]\<rparr>, \<lparr>ns = 2, payload = [3]\<rparr>],
      msg_waiting := [\<lparr>ns = 0, payload = [4]\<rparr>]\<rparr>"
    by (simp add: race_state_def)
  moreover have "repetition_due Path_A race_state"
    by (simp add: repetition_due_def race_state_def busy_state_def running_state_def u64_def)
  ultimately have "due_path default_env Path_A race_state \<lparr>ns = 0, payload = [1]\<rparr> \<lparr>ns = 1, payload = [2]\<rparr>
      \<lparr>ns = 2, payload = [3]\<rparr> \<lparr>ns = 0, payload = [4]\<rparr>"
    by (simp add: due_path_def path_ok_defs consecutive_def isBULLE_def now_connected_def default_env_def u64_def)
  from queue_race [OF this, of 1] show ?thesis by (simp add: race_state_def)
qed

end
