(* ===== verification/Spec2Isabelle.thy ===== *)
theory Spec2Isabelle
  imports HNZ_Link_Properties HNZ_Data_Properties HNZ_Queue_Spec HNZ_GI_Properties
    HNZ_Conf_Properties HNZ_Startup HNZ_Delivery HNZ_GI_Cycle HNZ_Arbiter HNZ_Path_Thread
    HNZ_Locks HNZ_Races
begin

text \<open>
  A model of \<^bold>\<open>fledge-south-hnz\<close>, the Fledge plugin that talks the HNZ protocol over TCP to a
  remote station (the PA), with proofs of what it does.

  \<^bold>\<open>The program.\<close>  \<open>src/plugin.cpp\<close> holds the entry points Fledge calls.  The class \<open>HNZ\<close>
  (\<open>src/hnz.cpp\<close>) keeps the configuration, turns messages of the station into readings and
  sends commands.  It owns one \<open>HNZConnection\<close> (\<open>src/hnzconnection.cpp\<close>), which decides which of
  at most two paths is active, repeats unacknowledged messages and runs general interrogations
  (GI).  Each \<open>HNZPath\<close> (\<open>src/hnzpath.cpp\<close>) is a link: a protocol automaton, a window of numbered
  frames and a TCP client of the HNZ library.  \<open>HNZConf\<close> (\<open>src/hnzconf.cpp\<close>) reads two JSON
  documents.  Threads: one per path that keeps the connection up, one per path that receives,
  one of the connection that watches timers.

  \<^bold>\<open>The model.\<close>  One record \<open>sys\<close> has the members of the three classes, the two paths as a
  function of \<open>path_id\<close>, and what was sent out in order (\<open>outs\<close>).  Operations are functions
  on it with the names of the methods; an operation that can fail gives \<open>cpp_error + result\<close>, where
  the error is an uncaught exception, a read outside a buffer, a null pointer or a loop that does
  not return.  Integers are \<open>int\<close> with the conversions of C++ written out (\<open>u8\<close>, \<open>s32\<close>, \<open>u64\<close>);
  bytes are \<open>8 word\<close>.  The counters \<open>m_repeat\<close> and \<open>m_nbr_sarm_sent\<close> are plain \<open>int\<close>
  without wrap-around: the code compares each with its maximum before it adds one.  So is \<open>m_gi_repeat\<close>,
  which adds one for each request of an interrogation.  The environment \<open>env\<close> answers the n-th question for the time and the state
  of the socket, and gives the time zone and the message codes of the HNZ library, which is not
  in the repository; frames received and the verdict on their CRC are arguments.  rapidjson is the
  record \<open>J\<close> of the accessors the code uses; \<open>json_values\<close> gives these accessors on JSON values, and
  the parser of texts stays a parameter.

  \<^bold>\<open>Theories.\<close>
  \<^item> \<open>HNZ_Prelude\<close>: fixed-width integers, byte arithmetic, the error monad \<open>ebind\<close>, \<open>efold\<close>.
  \<^item> \<open>HNZ_Std\<close>: \<open>std::to_string\<close>, \<open>stoi\<close>, \<open>stoul\<close>, \<open>gmtime_r\<close>, ordered maps and sets.
  \<^item> \<open>HNZ_Conf\<close>: \<open>hnzconf.h\<close>, \<open>hnzconf.cpp\<close>.
  \<^item> \<open>HNZ_State\<close>, \<open>HNZ_Utility\<close>: the state, the audits and text forms (\<open>hnzutility.h\<close>).
  \<^item> \<open>HNZ_Fledge\<close>: readings, monitoring events and statuses (\<open>hnz.cpp\<close> 560-640, 824-947, 977-1042).
  \<^item> \<open>HNZ_Link\<close>, \<open>HNZ_Window\<close>: frames, window, acknowledgement, commands of a path, with the
    invariant \<open>path_ok\<close> and the proof that the loop over waiting messages ends.
  \<^item> \<open>HNZ_Switch\<close>: which path is active (\<open>requestConnectionState\<close>, \<open>tryActivateOtherPath\<close>), with
    the invariant \<open>arbitration_ok\<close>.
  \<^item> \<open>HNZ_Automaton\<close>: the transition map and the events of \<open>hnzpath\<close>, the path thread, with the
    invariant \<open>sys_ok\<close>.
  \<^item> \<open>HNZ_GI\<close>, \<open>HNZ_Timers\<close>: general interrogation, repetition, timers, the messages thread.
  \<^item> \<open>HNZ_Reception\<close>, \<open>HNZ_Messages\<close>, \<open>HNZ_Decoding\<close>: frames received, their messages, what the
    handlers compute.
  \<^item> \<open>HNZ_Commands\<close>, \<open>HNZ_Plugin\<close>: operations, construction, configuration, start and stop.
  \<^item> \<open>HNZ_System\<close>: the plugin as a transition system whose steps are the turns of the threads and
    the calls of Fledge; the invariant \<open>life_ok\<close> of its reachable states.
  \<^item> \<open>HNZ_Default\<close>: the default configuration of \<open>plugin.cpp\<close> and concrete states; \<open>HNZ_Json\<close>: JSON
    values, the two default documents and their import.
  \<^item> \<open>HNZ_Link_Properties\<close> (window, acknowledgement, frames), \<open>HNZ_Queue_Spec\<close> (the abstract sliding
    window a path refines; over any sequence of operations without a message handed over while a
    repetition is unanswered the order is kept), \<open>HNZ_Data_Properties\<close> (what readings say, how a
    telecommand is sent and acknowledged), \<open>HNZ_Switch_Properties\<close>
    (handshake, failover, SARM, connection), \<open>HNZ_GI_Properties\<close> (general interrogation and its timeout, the
    messages thread), \<open>HNZ_Command_Properties\<close> (commands and start), \<open>HNZ_Conf_Properties\<close> (types of an imported
    configuration, labels, addresses), \<open>HNZ_Startup\<close> (from \<open>plugin_init\<close> to an active path) and this
    theory, which states what holds in every reachable state.
  \<^item> Compositions: \<open>HNZ_Receiver\<close> (streams of information frames, their numbers and answers),
    \<open>HNZ_Delivery\<close> (from the frames of the station to the readings of Fledge), \<open>HNZ_GI_Cycle\<close> (the
    messages that answer an interrogation), \<open>HNZ_Arbiter\<close> (the automata of both paths and the
    arbitration refine an abstract arbiter: two half links per path, and the path connected for
    longest is active), \<open>HNZ_Path_Thread\<close> (the watch over a connected path, the
    lookup of a transition before its locks).
  \<^item> \<open>HNZ_Locks\<close>: the threads and their mutexes.  Every method has a skeleton (\<open>connect_locks\<close>,
    \<open>receive_locks\<close>, ...) of the mutexes it takes and releases in order, the flags that end the
    loops, the threads it starts and joins; branches on anything else are free choices.  A recursive
    mutex may be taken again by its holder, a plain \<open>std::mutex\<close> may not, and no skeleton does.  The mutexes
    are taken in one order, so that no threads wait for each other in a circle; two schedules show
    where a thread that is joined waits for a mutex of the one that joins it, a third one a shutdown
    that comes to its end.
  \<^item> \<open>HNZ_Races\<close>: the two threads that change the queues of a path without a common mutex, cut into
    their accesses.  Alone, the steps of each are the method of \<open>HNZ_Timers\<close> or \<open>HNZ_Link\<close>; one after
    the other they keep every message; interleaved they can lose one.

  \<^bold>\<open>Interfaces.\<close>  \<open>seq_space\<close> (numbers on a circle) is interpreted for the numbers modulo 8,
  \<open>link_operation\<close> (an operation that stays within one path) for the operations of a link,
  \<open>simulation\<close> (steps that implement a specification) for the sliding window and for the arbiter, and
  \<open>invariant_system\<close> (a transition system with an invariant) for the plugin and for its threads.

  \<^bold>\<open>Loops.\<close>  The loops over queues are structural or have a measure.  Two loops of the code may run
  for ever and are \<open>partial_function (option)\<close>: the loop over waiting messages, which is proved to
  end under the invariant, and the loop that tries to connect, which is proved to end when the
  socket becomes connected.

  \<^bold>\<open>Not modelled.\<close>  Logging (\<open>log_debug\<close> and its siblings) has no effect on the state.  Turns of
  different threads are atomic steps of \<open>HNZ_System\<close>, which the mutexes of the code ensure for most of
  their bodies (\<open>HNZ_Path_Thread\<close> shows what a lookup outside the mutexes does, \<open>HNZ_Races\<close> what happens to
  queues that no common mutex protects; other races, as on \<open>command_sent\<close> and the times, are outside
  the model).  Deadlocks are the subject of \<open>HNZ_Locks\<close>, which has
  the mutexes but not the data.  In \<open>HNZ_System\<close> the flags that end the loop of \<open>connect\<close> do not
  change while it runs.  The HNZ library, Fledge and rapidjson are parameters.  \<open>sendInitialGI\<close>, which
  exists in unit-test builds only, is modelled but is no step of \<open>HNZ_System\<close>.  Tests and build files
  are left out.
\<close>

section \<open>Reachable states\<close>

text \<open>
  C1. In every state the plugin can reach, whatever the turns of its threads, the frames it receives
  and the calls of Fledge: at most one path is active, it is the one the connection points to, it
  exists and is fully connected, and the status reported to Fledge is "started" exactly when there
  is one.
\<close>
theorem one_active_path:
  assumes "plugin_init_state s" and "(plugin_step E J crc)\<^sup>*\<^sup>* s t"
  shows "(\<forall>p. m_connection_state (paths t p) = ACTIVE \<longleftrightarrow> m_active_path t = Some p) \<and>
    (m_connStatus t = CS_STARTED \<longleftrightarrow> m_active_path t \<noteq> None) \<and>
    (case m_active_path t of None \<Rightarrow> True
     | Some p \<Rightarrow> m_paths t p \<and> m_protocol_state (paths t p) = CONNECTED)"
proof -
  have ok: "sys_ok t" using plugin.reachable [OF assms] by (simp add: life_ok_def plugin_ok_def)
  have "m_paths t p \<and> m_protocol_state (paths t p) = CONNECTED" if "m_active_path t = Some p" for p
    using active_is_connected(1) [OF ok that] sys_okD(7) [OF ok] that by (simp add: present_ok_def)
  then show ?thesis
    using sys_okD(6) [OF ok] by (auto simp: arbitration_defs split: option.split)
qed

theorem one_active_path_witness:
  "\<exists>t :: sys. m_active_path t = Some Path_B \<and> m_connStatus t = CS_STARTED \<and> m_paths t Path_B \<and>
     (\<forall>p. m_connection_state (paths t p) = ACTIVE \<longleftrightarrow> p = Path_B)"
proof -
  obtain t where t: "(plugin_step default_env (json_values default_docs) (\<lambda>_. True))\<^sup>*\<^sup>* (new_HNZ 0 default_bulle) t"
      "m_active_path t = Some Path_B"
    using default_reaches_active by blast
  have "plugin_init_state (new_HNZ 0 default_bulle)" by (auto simp: plugin_init_state_def)
  from one_active_path [OF this t(1)] t(2)
  have "m_connStatus t = CS_STARTED \<and> m_paths t Path_B \<and>
      (\<forall>p. m_connection_state (paths t p) = ACTIVE \<longleftrightarrow> p = Path_B)" by auto
  with t(2) show ?thesis by blast
qed

text \<open>
  C2. In every state the plugin can reach, every path keeps the discipline of the protocol: its
  numbers are numbers modulo 8, the window is never exceeded, nothing is kept for the station without
  an output connection and nothing but BULLE before the input connection is there too, SARM are
  counted up to their maximum, and the connection state is the one of the protocol state.  No path
  waits on standby while the connection runs without an active path, and a general interrogation is
  counted only while its status says that it runs and a path is active.
\<close>
theorem reachable_links_ok:
  assumes "plugin_init_state s" and "(plugin_step E J crc)\<^sup>*\<^sup>* s t"
  shows "m_nr (paths t p) \<in> {0..7} \<and> m_ns (paths t p) \<in> {0..7} \<and> m_NRR (paths t p) \<in> {0..7} \<and>
    int (length (msg_sent (paths t p))) \<le> u64 (m_anticipation_ratio (paths t p)) \<and>
    (m_protocol_state (paths t p) \<in> {CONNECTION, INPUT_CONNECTED} \<longrightarrow>
       msg_sent (paths t p) = [] \<and> msg_waiting (paths t p) = []) \<and>
    (m_protocol_state (paths t p) = OUTPUT_CONNECTED \<longrightarrow>
       (\<forall>m \<in> set (msg_sent (paths t p)) \<union> set (msg_waiting (paths t p)). isBULLE (paths t p) (payload m))) \<and>
    (m_max_sarm (paths t p) \<ge> 1 \<longrightarrow> m_nbr_sarm_sent (paths t p) \<in> {0..m_max_sarm (paths t p)}) \<and>
    m_connection_state (paths t p) \<in>
      (case m_protocol_state (paths t p) of
         CONNECTION \<Rightarrow> {DISCONNECTED} | INPUT_CONNECTED \<Rightarrow> {PENDING_HNZ}
       | OUTPUT_CONNECTED \<Rightarrow> {PENDING_HNZ} | CONNECTED \<Rightarrow> {ACTIVE, PASSIVE}) \<and>
    (m_paths t p \<and> conn_running t \<and> m_connection_state (paths t p) = PASSIVE \<longrightarrow> m_active_path t \<noteq> None) \<and>
    (m_gi_repeat t \<noteq> 0 \<longrightarrow> m_giStatus t \<in> {GI_STARTED, GI_IN_PROGRESS} \<and> m_active_path t \<noteq> None)"
proof -
  have "sys_ok t" and gi: "gi_ok t"
    using plugin.reachable [OF assms] by (simp_all add: life_ok_def plugin_ok_def)
  note ok = sys_okD(2-4) [OF this(1), of p] sys_okD(6) [OF this(1)]
  show ?thesis
  proof (intro conjI)
    show "m_connection_state (paths t p) \<in>
      (case m_protocol_state (paths t p) of
         CONNECTION \<Rightarrow> {DISCONNECTED} | INPUT_CONNECTED \<Rightarrow> {PENDING_HNZ}
       | OUTPUT_CONNECTED \<Rightarrow> {PENDING_HNZ} | CONNECTED \<Rightarrow> {ACTIVE, PASSIVE})"
      using ok(2) by (cases "m_protocol_state (paths t p)") (simp_all add: agree_def)
  qed (use ok(1,3,4) gi in \<open>auto simp: path_ok_defs sarm_ok_def arbitration_defs gi_ok_def\<close>)
qed

theorem reachable_links_ok_witness:
  "\<exists>t :: sys. m_active_path t = Some Path_A \<and> m_connection_state (paths t Path_A) = ACTIVE \<and>
     m_ns (paths t Path_A) \<in> {0..7} \<and> m_protocol_state (paths t Path_A) = CONNECTED"
proof -
  obtain t where t: "(plugin_step default_env (json_values default_docs) (\<lambda>_. True))\<^sup>*\<^sup>* (new_HNZ 0 default_bulle) t"
      "m_active_path t = Some Path_A"
    using default_reaches_active by blast
  have i: "plugin_init_state (new_HNZ 0 default_bulle)" by (auto simp: plugin_init_state_def)
  from plugin.reachable [OF i t(1)] t(2) have "m_connection_state (paths t Path_A) = ACTIVE"
    using sys_okD(6) [of t] by (simp add: life_ok_def plugin_ok_def arbitration_defs)
  moreover from this reachable_links_ok [OF i t(1), of Path_A]
  have "m_ns (paths t Path_A) \<in> {0..7} \<and> m_protocol_state (paths t Path_A) = CONNECTED"
    by (cases "m_protocol_state (paths t Path_A)") simp_all
  ultimately show ?thesis using t(2) by blast
qed

end
